(* ===== verification/Prelude.thy ===== *)
theory Prelude
  imports Main "HOL-Library.Word" "HOL-Library.Char_ord" "HOL-Library.List_Lexorder"
begin

text \<open>
  The types, the automation and the generic lemmas every component shares.

  A Go byte is an 8-bit word and a \<^verbatim>\<open>[]byte\<close> a list of them. A Go string is a list of
  characters, each of which is one octet, so \<^verbatim>\<open>[]byte(s)\<close> and \<^verbatim>\<open>string(b)\<close> are the two
  conversions below. A call that returns a value and an error is a sum, the error on the
  left; \<open>rbind\<close> is the early return after such a call. The collections
  \<open>res_simps\<close> (results of fallible calls), \<open>len_simps\<close> (lengths of octet strings) and
  \<open>inv_simps\<close> (one operation undoes another) are filled by the components.
\<close>

named_theorems res_simps "results of fallible calls"
named_theorems len_simps "lengths of octet strings"
named_theorems inv_simps "operations that undo one another"

type_synonym u8 = "8 word"
type_synonym u32 = "32 word"
type_synonym u64 = "64 word"
type_synonym bytes = "u8 list"

section \<open>Octets\<close>

text \<open>The octet with a given value: the Go conversion \<^verbatim>\<open>byte(v)\<close>, which keeps the low bits.\<close>

definition octet :: "nat \<Rightarrow> u8" where
  "octet v = word_of_nat v"

lemma unat_u8: "unat (b :: u8) < 256"
  using unsigned_less [of b] by simp

lemma unat_octet [simp]: "v < 256 \<Longrightarrow> unat (octet v) = v"
  by (simp add: unat_of_nat octet_def)

lemma octet_unat [simp]: "octet (unat b) = b"
  by (simp add: octet_def)

section \<open>Strings and octets\<close>

definition byte_of_char :: "char \<Rightarrow> u8" where
  "byte_of_char c = octet (of_char c)"

definition char_of_byte :: "u8 \<Rightarrow> char" where
  "char_of_byte b = char_of (unat b)"

definition bytes_of_string :: "string \<Rightarrow> bytes" where
  "bytes_of_string s = map byte_of_char s"

definition string_of_bytes :: "bytes \<Rightarrow> string" where
  "string_of_bytes b = map char_of_byte b"

lemma char_of_byte_of_char [simp]: "char_of_byte (byte_of_char c) = c"
proof -
  have "of_char c < (256 :: nat)" by (rule nat_of_char_less_256)
  then show ?thesis by (simp add: char_of_byte_def byte_of_char_def)
qed

lemma byte_of_char_of_byte [simp]: "byte_of_char (char_of_byte b) = b"
proof -
  have "unat b < 256" using unsigned_less [of b] by simp
  then have "of_char (char_of (unat b) :: char) = unat b"
    by simp
  then show ?thesis by (simp add: char_of_byte_def byte_of_char_def)
qed

lemma string_of_bytes_of_string [simp]: "string_of_bytes (bytes_of_string s) = s"
  by (simp add: string_of_bytes_def bytes_of_string_def o_def)

lemma bytes_of_string_of_bytes [simp]: "bytes_of_string (string_of_bytes b) = b"
  by (simp add: string_of_bytes_def bytes_of_string_def o_def)

lemma length_bytes_of_string [simp]: "length (bytes_of_string s) = length s"
  by (simp add: bytes_of_string_def)

lemma length_string_of_bytes [simp]: "length (string_of_bytes b) = length b"
  by (simp add: string_of_bytes_def)

lemma bytes_of_string_append [simp]:
  "bytes_of_string (s @ t) = bytes_of_string s @ bytes_of_string t"
  by (simp add: bytes_of_string_def)

lemma bytes_of_string_empty_iff [simp]: "bytes_of_string s = [] \<longleftrightarrow> s = []"
  by (simp add: bytes_of_string_def)

lemma string_of_bytes_empty_iff [simp]: "string_of_bytes b = [] \<longleftrightarrow> b = []"
  by (simp add: string_of_bytes_def)

lemma bytes_of_string_inj [simp]: "bytes_of_string s = bytes_of_string t \<longleftrightarrow> s = t"
  by (metis string_of_bytes_of_string)

lemma string_of_bytes_inj [simp]: "string_of_bytes s = string_of_bytes t \<longleftrightarrow> s = t"
  by (metis bytes_of_string_of_bytes)

section \<open>Results of fallible calls\<close>

fun rbind :: "'e + 'a \<Rightarrow> ('a \<Rightarrow> 'e + 'b) \<Rightarrow> 'e + 'b" where
  "rbind (Inl e) f = Inl e"
| "rbind (Inr x) f = f x"

lemma rbind_Inr_iff [res_simps]: "rbind m f = Inr y \<longleftrightarrow> (\<exists>x. m = Inr x \<and> f x = Inr y)"
  by (cases m) auto

lemma rbind_Inl_iff [res_simps]:
  "rbind m f = Inl e \<longleftrightarrow> m = Inl e \<or> (\<exists>x. m = Inr x \<and> f x = Inl e)"
  by (cases m) auto

lemma rbind_assoc: "rbind (rbind m f) g = rbind m (\<lambda>x. rbind (f x) g)"
  by (cases m) auto

lemma if_Inr_iff [res_simps]:
  "(if c then Inl e else m) = Inr y \<longleftrightarrow> \<not> c \<and> m = Inr y"
  "(if c then m else Inl e) = Inr y \<longleftrightarrow> c \<and> m = Inr y"
  by auto

section \<open>Lists\<close>

lemma length_takeWhile_nth:
  "distinct xs \<Longrightarrow> i < length xs \<Longrightarrow> length (takeWhile (\<lambda>x. x \<noteq> xs ! i) xs) = i"
proof (induction xs arbitrary: i)
  case Nil
  then show ?case by simp
next
  case (Cons x xs)
  then show ?case by (cases i) auto
qed

lemma those_map_Some:
  "\<forall>x \<in> set xs. f (g x) = Some x \<Longrightarrow> those (map f (map g xs)) = Some xs"
  by (induction xs) auto

lemma those_Some_iff: "those xs = Some ys \<longleftrightarrow> xs = map Some ys"
proof (induction xs arbitrary: ys)
  case Nil
  then show ?case by auto
next
  case (Cons x xs)
  then show ?case by (cases x; cases ys) auto
qed

text \<open>A list cut into pieces of \<open>n\<close>; a last shorter piece is kept.\<close>

function chunks :: "nat \<Rightarrow> 'a list \<Rightarrow> 'a list list" where
  "chunks n xs = (if n = 0 \<or> xs = [] then [] else take n xs # chunks n (drop n xs))"
  by pat_completeness auto
termination
  by (relation "measure (\<lambda>(n, xs). length xs)") auto

declare chunks.simps [simp del]

lemma chunks_even:
  assumes "0 < n" "length xs = n * m"
  shows "(\<forall>c \<in> set (chunks n xs). length c = n \<and> set c \<subseteq> set xs) \<and> length (chunks n xs) = m"
  using assms
proof (induction n xs arbitrary: m rule: chunks.induct)
  case (1 n xs)
  show ?case
  proof (cases "xs = []")
    case True
    with 1 show ?thesis by (simp add: chunks.simps)
  next
    case False
    with "1.prems" obtain m' where m: "m = Suc m'" by (cases m) auto
    have "length (drop n xs) = n * m'" using "1.prems" m by simp
    with 1 False have
      "(\<forall>c \<in> set (chunks n (drop n xs)). length c = n \<and> set c \<subseteq> set (drop n xs)) \<and>
       length (chunks n (drop n xs)) = m'" by simp
    with False "1.prems" m show ?thesis
      by (subst (1 2) chunks.simps) (auto dest: in_set_takeD in_set_dropD)
  qed
qed

lemma concat_chunks [simp]: "0 < n \<Longrightarrow> concat (chunks n xs) = xs"
  by (induction n xs rule: chunks.induct) (subst chunks.simps, simp)

lemma chunks_concat:
  assumes "0 < n" "\<forall>b \<in> set bs. length b = n"
  shows "chunks n (concat bs) = bs"
  using assms
proof (induction bs)
  case Nil
  then show ?case by (simp add: chunks.simps)
next
  case (Cons b bs)
  then have "chunks n (b @ concat bs) = take n (b @ concat bs) # chunks n (drop n (b @ concat bs))"
    by (subst chunks.simps) auto
  with Cons show ?case by simp
qed

text \<open>A Go \<^verbatim>\<open>for range\<close> over a slice that may return early.\<close>

fun rfoldl :: "('s \<Rightarrow> 'a \<Rightarrow> 'e + 's) \<Rightarrow> 's \<Rightarrow> 'a list \<Rightarrow> 'e + 's" where
  "rfoldl f s [] = Inr s"
| "rfoldl f s (x # xs) = rbind (f s x) (\<lambda>s'. rfoldl f s' xs)"

section \<open>Octet strings\<close>

definition xor_bytes :: "bytes \<Rightarrow> bytes \<Rightarrow> bytes" where
  "xor_bytes a b = map2 xor a b"

lemma length_xor_bytes [simp]:
  "length (xor_bytes a b) = min (length a) (length b)"
  by (simp add: xor_bytes_def)

lemma xor_bytes_cancel [simp]:
  "length a = length b \<Longrightarrow> xor_bytes (xor_bytes a b) b = a"
  by (auto simp: xor_bytes_def list_eq_iff_nth_eq xor.assoc)

lemma xor_bytes_Cons [simp]: "xor_bytes (x # a) (y # b) = xor x y # xor_bytes a b"
  by (simp add: xor_bytes_def)

lemma xor_bytes_Nil [simp]: "xor_bytes [] b = []" "xor_bytes a [] = []"
  by (simp_all add: xor_bytes_def)

text \<open>Big-endian octets of a number, as \<^verbatim>\<open>binary.BigEndian\<close> and \<^verbatim>\<open>FillBytes\<close> write them.\<close>

fun be_bytes :: "nat \<Rightarrow> nat \<Rightarrow> bytes" where
  "be_bytes 0 v = []"
| "be_bytes (Suc n) v = be_bytes n (v div 256) @ [octet (v mod 256)]"

definition be_nat :: "bytes \<Rightarrow> nat" where
  "be_nat b = foldl (\<lambda>acc x. acc * 256 + unat x) 0 b"

lemma length_be_bytes [simp]: "length (be_bytes n v) = n"
  by (induction n arbitrary: v) auto

lemma be_nat_snoc: "be_nat (b @ [x]) = be_nat b * 256 + unat x"
  by (simp add: be_nat_def)

lemma be_nat_Nil [simp]: "be_nat [] = 0"
  by (simp add: be_nat_def)

lemma be_nat_be_bytes [inv_simps]: "v < 256 ^ n \<Longrightarrow> be_nat (be_bytes n v) = v"
proof (induction n arbitrary: v)
  case 0
  then show ?case by simp
next
  case (Suc n)
  have "v div 256 < 256 ^ n"
    using Suc.prems by (simp add: less_mult_imp_div_less mult.commute)
  then show ?case
    by (simp add: Suc.IH be_nat_snoc mult.commute)
qed

lemma be_bytes_inj:
  "v < 256 ^ n \<Longrightarrow> w < 256 ^ n \<Longrightarrow> be_bytes n v = be_bytes n w \<Longrightarrow> v = w"
  by (metis be_nat_be_bytes)

lemma unat_word32: "v < 2 ^ 32 \<Longrightarrow> unat (word_of_nat v :: u32) = v"
  by (simp add: unat_of_nat)

lemma be_bytes_be_nat [inv_simps]: "be_bytes (length b) (be_nat b) = b"
proof (induction b rule: rev_induct)
  case Nil
  then show ?case by simp
next
  case (snoc x b)
  have "unat x < 256" by (rule unat_u8)
  then show ?case by (simp add: be_nat_snoc snoc.IH)
qed

lemma be_nat_less: "be_nat b < 256 ^ length b"
proof (induction b rule: rev_induct)
  case Nil
  then show ?case by simp
next
  case (snoc x b)
  have "unat x < 256" by (rule unat_u8)
  with snoc.IH have "be_nat b * 256 + unat x < (be_nat b + 1) * 256" by simp
  also have "\<dots> \<le> 256 ^ length b * 256"
    using snoc.IH by (intro mult_right_mono) auto
  finally show ?case by (simp add: be_nat_snoc mult.commute)
qed

text \<open>A random source: an infinite supply of octets, read from the front.\<close>

type_synonym entropy = "nat \<Rightarrow> u8"

definition rand_read :: "nat \<Rightarrow> entropy \<Rightarrow> bytes \<times> entropy" where
  "rand_read n w = (map w [0..<n], \<lambda>i. w (n + i))"

lemma length_rand_read [simp]: "length (fst (rand_read n w)) = n"
  by (simp add: rand_read_def)

end
