(* ===== verification/Errors.thy ===== *)
theory Errors
  imports Prelude
begin

text \<open>
  The sentinel errors of \<^verbatim>\<open>src/errors.go\<close>. An error value is modelled by the sentinel it
  wraps: the message that \<^verbatim>\<open>fmt.Errorf("%w: ...")\<close> adds is dropped, the category that
  \<^verbatim>\<open>errors.Is\<close> finds is kept. The last constructors are the errors that wrap no sentinel
  of the package (the decoder errors of \<^verbatim>\<open>DecodeSegment\<close>, an error handed through from
  the standard library) and a run-time panic, which is an outcome of the code too.
\<close>

datatype jerr =
    ErrInvalidToken
  | ErrMalformed
  | ErrSignatureInvalid
  | ErrDecryptFailed
  | ErrInvalidKeyType
  | ErrInvalidKey
  | ErrKeyNotFound
  | ErrUnsupportedAlgorithm
  | ErrUnsupportedEncryption
  | ErrNoneAlgDisallowed
  | ErrInvalidCrit
  | ErrInvalidHeader
  | ErrCompressionLimit
  | ErrIterationCount
  | ErrDetachedPayload
  | ErrUnprotectedB64
  | ErrUnprotectedCritical
  | ErrKeyUseMismatch
  | ErrKeyAlgMismatch
  | ErrKeyOpsMismatch
  | Base64Padding nat
  | Base64Char char nat
  | Base64Corrupt
  | ExternalError
  | Panic

type_synonym 'a res = "jerr + 'a"

text \<open>The five narrow sentinels wrap a broad one (\<^verbatim>\<open>errors.go\<close>, second block).\<close>

fun err_unwrap :: "jerr \<Rightarrow> jerr option" where
  "err_unwrap ErrUnprotectedB64 = Some ErrInvalidHeader"
| "err_unwrap ErrUnprotectedCritical = Some ErrInvalidCrit"
| "err_unwrap ErrKeyUseMismatch = Some ErrInvalidKey"
| "err_unwrap ErrKeyAlgMismatch = Some ErrInvalidKey"
| "err_unwrap ErrKeyOpsMismatch = Some ErrInvalidKey"
| "err_unwrap _ = None"

text \<open>\<^verbatim>\<open>errors.Is(err, target)\<close>: the error or one it wraps is the target.\<close>

definition errors_is :: "jerr \<Rightarrow> jerr \<Rightarrow> bool" where
  "errors_is err target \<longleftrightarrow> err = target \<or> err_unwrap err = Some target"

lemma errors_is_refl [simp]: "errors_is e e"
  by (simp add: errors_is_def)

lemma err_unwrap_twice: "err_unwrap e = Some e' \<Longrightarrow> err_unwrap e' = None"
  by (cases e) auto

lemma errors_is_trans: "errors_is a b \<Longrightarrow> errors_is b c \<Longrightarrow> errors_is a c"
  by (auto simp: errors_is_def dest: err_unwrap_twice)

end
