(* ===== verification/Base64.thy ===== *)
theory Base64
  imports Errors
begin

text \<open>
  \<^verbatim>\<open>src/base64.go\<close>: the segment encoding of every JOSE serialization, base64url without
  padding in strict mode. The encoder and decoder of Go's \<^verbatim>\<open>encoding/base64\<close> that the file
  selects (\<^verbatim>\<open>RawURLEncoding.Strict()\<close>) are written out first: an octet triple becomes four
  sextets, a sextet is an index into the URL alphabet, and the strict decoder refuses a last
  quantum with non-zero unused bits. \<open>EncodeSegment\<close> and \<open>DecodeSegment\<close> follow the file.
  The locale \<open>segment_codec\<close> is the contract the token formats rely on: decoding undoes
  encoding, and a segment that decodes is the encoding of what it decodes to.
\<close>

section \<open>The contract\<close>

locale segment_codec =
  fixes enc :: "bytes \<Rightarrow> string"
    and dec :: "string \<Rightarrow> bytes res"
  assumes dec_enc: "dec (enc b) = Inr b"
    and enc_dec: "dec s = Inr b \<Longrightarrow> enc b = s"
begin

lemma dec_iff: "dec s = Inr b \<longleftrightarrow> s = enc b"
  using dec_enc enc_dec by auto

lemma enc_inj: "enc a = enc b \<longleftrightarrow> a = b"
  by (metis dec_enc Inr_inject)

lemma dec_inj: "dec s = Inr b \<Longrightarrow> dec t = Inr b \<Longrightarrow> s = t"
  by (metis enc_dec)

end

section \<open>encoding/base64, RawURLEncoding in strict mode\<close>

definition b64_alphabet :: string where
  "b64_alphabet =
     ''ABCDEFGHIJKLMNOPQRSTUVWXYZabcdefghijklmnopqrstuvwxyz0123456789-_''"

text \<open>The encoder's table and its inverse, the decode map.\<close>

definition b64_char :: "nat \<Rightarrow> char" where
  "b64_char i = b64_alphabet ! i"

definition b64_value :: "char \<Rightarrow> nat option" where
  "b64_value c =
     (let i = length (takeWhile (\<lambda>x. x \<noteq> c) b64_alphabet)
      in if i < length b64_alphabet then Some i else None)"

fun b64_sextets :: "bytes \<Rightarrow> nat list" where
  "b64_sextets [] = []"
| "b64_sextets [a] = [unat a div 4, unat a mod 4 * 16]"
| "b64_sextets [a, b] =
     [unat a div 4, unat a mod 4 * 16 + unat b div 16, unat b mod 16 * 4]"
| "b64_sextets (a # b # c # r) =
     unat a div 4 # (unat a mod 4 * 16 + unat b div 16) #
     (unat b mod 16 * 4 + unat c div 64) # unat c mod 64 # b64_sextets r"

fun b64_octets :: "nat list \<Rightarrow> bytes option" where
  "b64_octets [] = Some []"
| "b64_octets [x] = None"
| "b64_octets [x, y] =
     (if y mod 16 \<noteq> 0 then None else Some [octet (x * 4 + y div 16)])"
| "b64_octets [x, y, z] =
     (if z mod 4 \<noteq> 0 then None
      else Some [octet (x * 4 + y div 16), octet (y mod 16 * 16 + z div 4)])"
| "b64_octets (x # y # z # v # r) =
     (case b64_octets r of
        None \<Rightarrow> None
      | Some bs \<Rightarrow> Some (octet (x * 4 + y div 16) #
          octet (y mod 16 * 16 + z div 4) # octet (z mod 4 * 64 + v) # bs))"

text \<open>\<^verbatim>\<open>EncodeToString\<close> and \<^verbatim>\<open>DecodeString\<close>; the latter skips CR and LF anywhere.\<close>

definition b64_encode :: "bytes \<Rightarrow> string" where
  "b64_encode b = map b64_char (b64_sextets b)"

definition b64_decode :: "string \<Rightarrow> bytes option" where
  "b64_decode s =
     (case those (map b64_value (filter (\<lambda>c. c \<noteq> CHR 0x0A \<and> c \<noteq> CHR 0x0D) s)) of
        None \<Rightarrow> None
      | Some vs \<Rightarrow> b64_octets vs)"

section \<open>base64.go\<close>

definition EncodeSegment :: "bytes \<Rightarrow> string" where
  "EncodeSegment seg = b64_encode seg"

text \<open>The alphabet screen: the first offending character decides the complaint.\<close>

definition seg_char :: "char \<Rightarrow> bool" where
  "seg_char c \<longleftrightarrow>
     (let n = (of_char c :: nat)
      in 65 \<le> n \<and> n \<le> 90 \<or> 97 \<le> n \<and> n \<le> 122 \<or> 48 \<le> n \<and> n \<le> 57 \<or>
         c = CHR ''-'' \<or> c = CHR ''_'')"

fun screen_segment :: "nat \<Rightarrow> string \<Rightarrow> unit res" where
  "screen_segment i [] = Inr ()"
| "screen_segment i (c # s) =
     (if seg_char c then screen_segment (Suc i) s
      else if c = CHR ''='' then Inl (Base64Padding i)
      else Inl (Base64Char c i))"

definition DecodeSegment :: "string \<Rightarrow> bytes res" where
  "DecodeSegment seg =
     rbind (screen_segment 0 seg)
       (\<lambda>_. case b64_decode seg of None \<Rightarrow> Inl Base64Corrupt | Some b \<Rightarrow> Inr b)"

section \<open>Lemmas\<close>

lemma b64_alphabet_length [simp]: "length b64_alphabet = 64"
  by (simp add: b64_alphabet_def)

lemma b64_alphabet_distinct: "distinct b64_alphabet"
  by (simp add: b64_alphabet_def)

lemma b64_value_char [simp]: "i < 64 \<Longrightarrow> b64_value (b64_char i) = Some i"
  by (simp add: b64_value_def b64_char_def length_takeWhile_nth b64_alphabet_distinct)

lemma b64_value_Some: "b64_value c = Some i \<Longrightarrow> i < 64 \<and> b64_char i = c"
  using nth_length_takeWhile [of "\<lambda>x. x \<noteq> c" b64_alphabet]
  unfolding b64_value_def b64_char_def Let_def
  by (auto split: if_splits)

lemma b64_values: "\<forall>v \<in> set vs. v < 64 \<Longrightarrow> those (map b64_value (map b64_char vs)) = Some vs"
  by (rule those_map_Some) simp

lemma b64_values_Some:
  "those (map b64_value s) = Some vs \<Longrightarrow> map b64_char vs = s \<and> (\<forall>v \<in> set vs. v < 64)"
  unfolding those_Some_iff
proof (induction s arbitrary: vs)
  case Nil
  then show ?case by simp
next
  case (Cons c s)
  then show ?case by (cases vs) (auto dest: b64_value_Some)
qed

lemma b64_sextets_less: "v \<in> set (b64_sextets b) \<Longrightarrow> v < 64"
proof (induction b rule: b64_sextets.induct)
  case (2 a)
  then show ?case using unat_u8 [of a] by auto
next
  case (3 a b)
  then show ?case using unat_u8 [of a] unat_u8 [of b] by auto
next
  case (4 a b c r)
  then show ?case using unat_u8 [of a] unat_u8 [of b] unat_u8 [of c] by auto
qed simp

lemma b64_octets_sextets: "b64_octets (b64_sextets b) = Some b"
proof (induction b rule: b64_sextets.induct)
  case (2 a)
  then show ?case using unat_u8 [of a] by simp
next
  case (3 a b)
  then show ?case using unat_u8 [of a] unat_u8 [of b] by simp
next
  case (4 a b c r)
  then show ?case using unat_u8 [of a] unat_u8 [of b] unat_u8 [of c] by simp
qed simp

lemma b64_sextets_octets:
  "b64_octets vs = Some b \<Longrightarrow> \<forall>v \<in> set vs. v < 64 \<Longrightarrow> b64_sextets b = vs"
proof (induction vs arbitrary: b rule: b64_octets.induct)
  case (3 x y)
  then show ?case by (auto split: if_splits)
next
  case (4 x y z)
  then show ?case by (auto split: if_splits)
next
  case (5 x y z v r)
  then show ?case by (auto split: option.splits)
qed auto

text \<open>The screen accepts exactly the strings over the alphabet.\<close>

lemma seg_char_of_alphabet: "list_all seg_char b64_alphabet"
  by (simp add: b64_alphabet_def seg_char_def)

lemma alphabet_ranges:
  "\<forall>n \<in> set ([65..<91] @ [97..<123] @ [48..<58]). (char_of (n :: nat) :: char) \<in> set b64_alphabet"
  by code_simp

lemma seg_char_alphabet: "seg_char c \<longleftrightarrow> c \<in> set b64_alphabet"
proof
  assume "c \<in> set b64_alphabet"
  with seg_char_of_alphabet show "seg_char c" by (auto simp: list_all_iff)
next
  assume "seg_char c"
  then consider "of_char c \<in> set ([65..<91] @ [97..<123] @ [48..<58 :: nat])"
    | "c = CHR ''-''" | "c = CHR ''_''"
    by (auto simp: seg_char_def Let_def simp del: upt_rec_numeral)
  then show "c \<in> set b64_alphabet"
  proof cases
    case 1
    then have "char_of (of_char c :: nat) \<in> set b64_alphabet"
      using alphabet_ranges by blast
    then show ?thesis by simp
  qed (simp_all add: b64_alphabet_def)
qed

lemma screen_segment_ok: "screen_segment i s = Inr () \<longleftrightarrow> (\<forall>c \<in> set s. seg_char c)"
  by (induction s arbitrary: i) auto

lemma seg_char_not_newline: "seg_char c \<Longrightarrow> c \<noteq> CHR 0x0A \<and> c \<noteq> CHR 0x0D"
  by (auto simp: seg_char_def)

lemma b64_char_seg: "v < 64 \<Longrightarrow> seg_char (b64_char v)"
  by (simp add: seg_char_alphabet b64_char_def)

lemma seg_char_encode: "c \<in> set (EncodeSegment b) \<Longrightarrow> seg_char c"
  by (auto simp: EncodeSegment_def b64_encode_def dest: b64_sextets_less intro: b64_char_seg)

lemma b64_decode_segment:
  assumes "\<forall>c \<in> set s. seg_char c"
  shows "b64_decode s = (case those (map b64_value s) of None \<Rightarrow> None | Some vs \<Rightarrow> b64_octets vs)"
proof -
  have "filter (\<lambda>c. c \<noteq> CHR 0x0A \<and> c \<noteq> CHR 0x0D) s = s"
    using assms by (simp add: filter_id_conv seg_char_not_newline)
  then show ?thesis by (simp add: b64_decode_def)
qed

lemma Decode_EncodeSegment: "DecodeSegment (EncodeSegment b) = Inr b"
proof -
  have sc: "\<forall>c \<in> set (EncodeSegment b). seg_char c" by (simp add: seg_char_encode)
  have "those (map b64_value (EncodeSegment b)) = Some (b64_sextets b)"
    unfolding EncodeSegment_def b64_encode_def
    by (rule b64_values) (simp add: b64_sextets_less)
  then have "b64_decode (EncodeSegment b) = Some b"
    using sc by (simp add: b64_decode_segment b64_octets_sextets)
  moreover have "screen_segment 0 (EncodeSegment b) = Inr ()"
    using sc by (simp add: screen_segment_ok)
  ultimately show ?thesis by (simp add: DecodeSegment_def)
qed

lemma Encode_DecodeSegment:
  assumes "DecodeSegment s = Inr b"
  shows "EncodeSegment b = s"
proof -
  from assms have sc: "\<forall>c \<in> set s. seg_char c" and d: "b64_decode s = Some b"
    by (auto simp: DecodeSegment_def rbind_Inr_iff screen_segment_ok split: option.splits)
  from d sc obtain vs where vs: "those (map b64_value s) = Some vs" "b64_octets vs = Some b"
    by (auto simp: b64_decode_segment split: option.splits)
  from b64_values_Some [OF vs(1)] vs(2) have "b64_sextets b = vs" "map b64_char vs = s"
    by (auto intro: b64_sextets_octets)
  then show ?thesis by (simp add: EncodeSegment_def b64_encode_def)
qed

interpretation segment: segment_codec EncodeSegment DecodeSegment
  by unfold_locales (simp_all add: Decode_EncodeSegment Encode_DecodeSegment)

lemma DecodeSegment_empty [simp]: "DecodeSegment [] = Inr []"
  using Decode_EncodeSegment [of "[]"] by (simp add: EncodeSegment_def b64_encode_def)

lemma EncodeSegment_empty_iff [simp]: "EncodeSegment b = [] \<longleftrightarrow> b = []"
proof -
  have "EncodeSegment [] = []" by (simp add: EncodeSegment_def b64_encode_def)
  then show ?thesis by (metis segment.enc_inj)
qed

lemma EncodeSegment_no_dot: "CHR ''.'' \<notin> set (EncodeSegment b)"
  using seg_char_encode [of "CHR ''.''" b] by (auto simp: seg_char_def)

lemma DecodeSegment_error:
  "DecodeSegment s = Inl e \<Longrightarrow>
   (\<exists>i. e = Base64Padding i) \<or> (\<exists>c i. e = Base64Char c i) \<or> e = Base64Corrupt"
proof -
  have "screen_segment i s = Inl e \<Longrightarrow>
      (\<exists>i. e = Base64Padding i) \<or> (\<exists>c i. e = Base64Char c i)" for i
    by (induction s arbitrary: i) (auto split: if_splits)
  then show "DecodeSegment s = Inl e \<Longrightarrow> ?thesis"
    by (auto simp: DecodeSegment_def rbind_Inl_iff split: option.splits)
qed

section \<open>Properties\<close>

text \<open>
  (C1) The segment encoding is canonical: a string decodes to \<open>b\<close> exactly when it is the
  encoding of \<open>b\<close>. No second spelling of a segment (padding, line breaks, non-zero trailing
  bits, another alphabet) is ever accepted.
\<close>

theorem segment_canonical: "DecodeSegment s = Inr b \<longleftrightarrow> s = EncodeSegment b"
  by (rule segment.dec_iff)

text \<open>
  (C2) Decoding never fails silently or in an unlisted way: the outcome is determined by the
  first character outside the alphabet, and without one only a non-canonical last quantum is
  refused.
\<close>

theorem DecodeSegment_outcome:
  "DecodeSegment s =
     (case find (\<lambda>i. \<not> seg_char (s ! i)) [0..<length s] of
        Some i \<Rightarrow> Inl (if s ! i = CHR ''='' then Base64Padding i else Base64Char (s ! i) i)
      | None \<Rightarrow> (case b64_decode s of
            None \<Rightarrow> Inl Base64Corrupt
          | Some b \<Rightarrow> Inr b))"
proof -
  have "screen_segment k (drop k s) =
      (case find (\<lambda>i. \<not> seg_char (s ! i)) [k..<length s] of
         None \<Rightarrow> Inr ()
       | Some i \<Rightarrow> Inl (if s ! i = CHR ''='' then Base64Padding i else Base64Char (s ! i) i))" for k
  proof (induction "length s - k" arbitrary: k)
    case 0
    then show ?case by simp
  next
    case (Suc n)
    then have "k < length s" "n = length s - Suc k" by simp_all
    with Suc.hyps(1) [of "Suc k"] show ?case
      by (simp add: Cons_nth_drop_Suc [symmetric] upt_conv_Cons)
  qed
  from this [of 0] show ?thesis by (simp add: DecodeSegment_def split: option.splits)
qed

end
