(* ===== verification/Aes.thy ===== *)
theory Aes
  imports Prelude
begin

text \<open>
  Go's \<^verbatim>\<open>crypto/aes\<close> (FIPS 197), the block cipher under the key wrap, CBC and GCM code.
  The state is the list of its 16 octets, column after column. The locale \<open>block_cipher\<close> is
  what its users rely on: for a valid key, encryption and decryption are inverse bijections
  of 16-octet blocks. It is interpreted on AES itself, so nothing about AES is assumed.
\<close>

section \<open>The contract of a block cipher\<close>

locale block_cipher =
  fixes key_ok :: "bytes \<Rightarrow> bool"
    and enc :: "bytes \<Rightarrow> bytes \<Rightarrow> bytes"
    and dec :: "bytes \<Rightarrow> bytes \<Rightarrow> bytes"
  assumes enc_len: "key_ok k \<Longrightarrow> length b = 16 \<Longrightarrow> length (enc k b) = 16"
    and dec_len: "key_ok k \<Longrightarrow> length b = 16 \<Longrightarrow> length (dec k b) = 16"
    and dec_enc: "key_ok k \<Longrightarrow> length b = 16 \<Longrightarrow> dec k (enc k b) = b"
    and enc_dec: "key_ok k \<Longrightarrow> length b = 16 \<Longrightarrow> enc k (dec k b) = b"
begin

lemma enc_inj: "key_ok k \<Longrightarrow> length a = 16 \<Longrightarrow> length b = 16 \<Longrightarrow> enc k a = enc k b \<longleftrightarrow> a = b"
  by (metis dec_enc)

lemmas block_laws = enc_len dec_len dec_enc enc_dec

end

section \<open>The tables\<close>

definition aes_sbox :: bytes where
  "aes_sbox =
     [99, 124, 119, 123, 242, 107, 111, 197, 48, 1, 103, 43, 254, 215, 171, 118,
      202, 130, 201, 125, 250, 89, 71, 240, 173, 212, 162, 175, 156, 164, 114, 192,
      183, 253, 147, 38, 54, 63, 247, 204, 52, 165, 229, 241, 113, 216, 49, 21,
      4, 199, 35, 195, 24, 150, 5, 154, 7, 18, 128, 226, 235, 39, 178, 117,
      9, 131, 44, 26, 27, 110, 90, 160, 82, 59, 214, 179, 41, 227, 47, 132,
      83, 209, 0, 237, 32, 252, 177, 91, 106, 203, 190, 57, 74, 76, 88, 207,
      208, 239, 170, 251, 67, 77, 51, 133, 69, 249, 2, 127, 80, 60, 159, 168,
      81, 163, 64, 143, 146, 157, 56, 245, 188, 182, 218, 33, 16, 255, 243, 210,
      205, 12, 19, 236, 95, 151, 68, 23, 196, 167, 126, 61, 100, 93, 25, 115,
      96, 129, 79, 220, 34, 42, 144, 136, 70, 238, 184, 20, 222, 94, 11, 219,
      224, 50, 58, 10, 73, 6, 36, 92, 194, 211, 172, 98, 145, 149, 228, 121,
      231, 200, 55, 109, 141, 213, 78, 169, 108, 86, 244, 234, 101, 122, 174, 8,
      186, 120, 37, 46, 28, 166, 180, 198, 232, 221, 116, 31, 75, 189, 139, 138,
      112, 62, 181, 102, 72, 3, 246, 14, 97, 53, 87, 185, 134, 193, 29, 158,
      225, 248, 152, 17, 105, 217, 142, 148, 155, 30, 135, 233, 206, 85, 40, 223,
      140, 161, 137, 13, 191, 230, 66, 104, 65, 153, 45, 15, 176, 84, 187, 22]"

definition aes_inv_sbox :: bytes where
  "aes_inv_sbox =
     [82, 9, 106, 213, 48, 54, 165, 56, 191, 64, 163, 158, 129, 243, 215, 251,
      124, 227, 57, 130, 155, 47, 255, 135, 52, 142, 67, 68, 196, 222, 233, 203,
      84, 123, 148, 50, 166, 194, 35, 61, 238, 76, 149, 11, 66, 250, 195, 78,
      8, 46, 161, 102, 40, 217, 36, 178, 118, 91, 162, 73, 109, 139, 209, 37,
      114, 248, 246, 100, 134, 104, 152, 22, 212, 164, 92, 204, 93, 101, 182, 146,
      108, 112, 72, 80, 253, 237, 185, 218, 94, 21, 70, 87, 167, 141, 157, 132,
      144, 216, 171, 0, 140, 188, 211, 10, 247, 228, 88, 5, 184, 179, 69, 6,
      208, 44, 30, 143, 202, 63, 15, 2, 193, 175, 189, 3, 1, 19, 138, 107,
      58, 145, 17, 65, 79, 103, 220, 234, 151, 242, 207, 206, 240, 180, 230, 115,
      150, 172, 116, 34, 231, 173, 53, 133, 226, 249, 55, 232, 28, 117, 223, 110,
      71, 241, 26, 113, 29, 41, 197, 137, 111, 183, 98, 14, 170, 24, 190, 27,
      252, 86, 62, 75, 198, 210, 121, 32, 154, 219, 192, 254, 120, 205, 90, 244,
      31, 221, 168, 51, 136, 7, 199, 49, 177, 18, 16, 89, 39, 128, 236, 95,
      96, 81, 127, 169, 25, 181, 74, 13, 45, 229, 122, 159, 147, 201, 156, 239,
      160, 224, 59, 77, 174, 42, 245, 176, 200, 235, 187, 60, 131, 83, 153, 97,
      23, 43, 4, 126, 186, 119, 214, 38, 225, 105, 20, 99, 85, 33, 12, 125]"

section \<open>The round functions\<close>

definition sub_bytes :: "bytes \<Rightarrow> bytes" where
  "sub_bytes s = map (\<lambda>b. aes_sbox ! unat b) s"

definition inv_sub_bytes :: "bytes \<Rightarrow> bytes" where
  "inv_sub_bytes s = map (\<lambda>b. aes_inv_sbox ! unat b) s"

definition shift_rows :: "bytes \<Rightarrow> bytes" where
  "shift_rows s = map (\<lambda>i. s ! i) [0, 5, 10, 15, 4, 9, 14, 3, 8, 13, 2, 7, 12, 1, 6, 11]"

definition inv_shift_rows :: "bytes \<Rightarrow> bytes" where
  "inv_shift_rows s = map (\<lambda>i. s ! i) [0, 13, 10, 7, 4, 1, 14, 11, 8, 5, 2, 15, 12, 9, 6, 3]"

text \<open>Multiplication by \<open>x\<close> in the field of 256 elements, and by the fixed coefficients.\<close>

definition xtime :: "u8 \<Rightarrow> u8" where
  "xtime b = xor (push_bit 1 b) (if bit b 7 then 0x1b else 0)"

definition mul9 :: "u8 \<Rightarrow> u8" where
  "mul9 b = xor (xtime (xtime (xtime b))) b"

definition mul11 :: "u8 \<Rightarrow> u8" where
  "mul11 b = xor (xtime (xtime (xtime b))) (xor (xtime b) b)"

definition mul13 :: "u8 \<Rightarrow> u8" where
  "mul13 b = xor (xtime (xtime (xtime b))) (xor (xtime (xtime b)) b)"

definition mul14 :: "u8 \<Rightarrow> u8" where
  "mul14 b = xor (xtime (xtime (xtime b))) (xor (xtime (xtime b)) (xtime b))"

definition mix1 :: "u8 \<Rightarrow> u8 \<Rightarrow> u8 \<Rightarrow> u8 \<Rightarrow> u8" where
  "mix1 a b c d = xor (xtime a) (xor (xor (xtime b) b) (xor c d))"

definition inv_mix1 :: "u8 \<Rightarrow> u8 \<Rightarrow> u8 \<Rightarrow> u8 \<Rightarrow> u8" where
  "inv_mix1 a b c d = xor (mul14 a) (xor (mul11 b) (xor (mul13 c) (mul9 d)))"

fun mix_columns :: "bytes \<Rightarrow> bytes" where
  "mix_columns (a # b # c # d # r) =
     mix1 a b c d # mix1 b c d a # mix1 c d a b # mix1 d a b c # mix_columns r"
| "mix_columns r = r"

fun inv_mix_columns :: "bytes \<Rightarrow> bytes" where
  "inv_mix_columns (a # b # c # d # r) =
     inv_mix1 a b c d # inv_mix1 b c d a # inv_mix1 c d a b # inv_mix1 d a b c #
     inv_mix_columns r"
| "inv_mix_columns r = r"

section \<open>Key expansion\<close>

definition aes_rcon :: "nat \<Rightarrow> u8" where
  "aes_rcon j = [1, 2, 4, 8, 16, 32, 64, 128, 27, 54] ! (j - 1)"

definition rot_word :: "bytes \<Rightarrow> bytes" where
  "rot_word w = tl w @ [hd w]"

definition aes_expand_step :: "nat \<Rightarrow> bytes list \<Rightarrow> bytes list" where
  "aes_expand_step nk ws =
     (let i = length ws;
          temp = ws ! (i - 1);
          temp' = (if i mod nk = 0
                   then xor_bytes (sub_bytes (rot_word temp)) [aes_rcon (i div nk), 0, 0, 0]
                   else if 6 < nk \<and> i mod nk = 4 then sub_bytes temp
                   else temp)
      in ws @ [xor_bytes (ws ! (i - nk)) temp'])"

definition aes_round_keys :: "bytes \<Rightarrow> bytes list" where
  "aes_round_keys key =
     (let nk = length key div 4;
          ws = (aes_expand_step nk ^^ (4 * (nk + 7) - nk)) (chunks 4 key)
      in map concat (chunks 4 ws))"

section \<open>The cipher\<close>

fun aes_enc_rounds :: "bytes \<Rightarrow> bytes list \<Rightarrow> bytes" where
  "aes_enc_rounds s [] = s"
| "aes_enc_rounds s [k] = xor_bytes (shift_rows (sub_bytes s)) k"
| "aes_enc_rounds s (k # ks) =
     aes_enc_rounds (xor_bytes (mix_columns (shift_rows (sub_bytes s))) k) ks"

fun aes_dec_rounds :: "bytes \<Rightarrow> bytes list \<Rightarrow> bytes" where
  "aes_dec_rounds s [] = s"
| "aes_dec_rounds s [k] = inv_sub_bytes (inv_shift_rows (xor_bytes s k))"
| "aes_dec_rounds s (k # ks) =
     inv_sub_bytes (inv_shift_rows (inv_mix_columns (xor_bytes (aes_dec_rounds s ks) k)))"

text \<open>\<^verbatim>\<open>aes.NewCipher\<close> takes keys of 16, 24 and 32 octets and refuses every other length.\<close>

definition aes_key_ok :: "bytes \<Rightarrow> bool" where
  "aes_key_ok k \<longleftrightarrow> length k = 16 \<or> length k = 24 \<or> length k = 32"

definition aes_encrypt :: "bytes \<Rightarrow> bytes \<Rightarrow> bytes" where
  "aes_encrypt key b =
     (case aes_round_keys key of [] \<Rightarrow> b | k # ks \<Rightarrow> aes_enc_rounds (xor_bytes b k) ks)"

definition aes_decrypt :: "bytes \<Rightarrow> bytes \<Rightarrow> bytes" where
  "aes_decrypt key b =
     (case aes_round_keys key of [] \<Rightarrow> b | k # ks \<Rightarrow> xor_bytes (aes_dec_rounds b ks) k)"

section \<open>Lemmas\<close>

text \<open>The two tables are inverse permutations of the octets.\<close>

lemma sbox_tables:
  "list_all (\<lambda>n. aes_inv_sbox ! unat (aes_sbox ! n) = word_of_nat n \<and>
                 aes_sbox ! unat (aes_inv_sbox ! n) = word_of_nat n) [0..<256]"
  by code_simp

lemma sbox_at: "n < 256 \<Longrightarrow>
    aes_inv_sbox ! unat (aes_sbox ! n) = word_of_nat n \<and>
    aes_sbox ! unat (aes_inv_sbox ! n) = word_of_nat n"
  using sbox_tables unfolding list_all_iff by (simp del: upt_rec_numeral)

lemma inv_sub_bytes_sub [simp]: "inv_sub_bytes (sub_bytes s) = s"
  using sbox_at unat_u8 by (simp add: inv_sub_bytes_def sub_bytes_def o_def)

lemma sub_bytes_inv_sub [simp]: "sub_bytes (inv_sub_bytes s) = s"
  using sbox_at unat_u8 by (simp add: inv_sub_bytes_def sub_bytes_def o_def)

lemma length_round_functions [simp]:
  "length (sub_bytes s) = length s" "length (inv_sub_bytes s) = length s"
  "length (shift_rows s) = 16" "length (inv_shift_rows s) = 16"
  by (simp_all add: sub_bytes_def inv_sub_bytes_def shift_rows_def inv_shift_rows_def)

lemma length_mix_columns [simp]:
  "length (mix_columns s) = length s" "length (inv_mix_columns s) = length s"
  by (induction s rule: mix_columns.induct) simp_all

lemma list16:
  assumes "length s = 16"
  obtains a b c d e f g h i j k l m n p q where
    "s = [a, b, c, d, e, f, g, h, i, j, k, l, m, n, p, q]"
  using assms by (auto simp: numeral_eq_Suc length_Suc_conv)

lemma shift_rows_inverse [simp]:
  assumes "length s = 16"
  shows "inv_shift_rows (shift_rows s) = s" "shift_rows (inv_shift_rows s) = s"
  using assms by (auto elim!: list16 simp: shift_rows_def inv_shift_rows_def)

text \<open>\<open>xtime\<close> distributes over exclusive or, so the column mixing is linear.\<close>

lemma xtime_xor: "xtime (xor a b) = xor (xtime a) (xtime b)"
  by (simp add: xtime_def bit_xor_iff ac_simps)

lemma xor_cancel_left: "xor x (xor x y) = (y :: u8)"
  by (simp add: xor.assoc [symmetric])

lemmas column_simps =
  mix1_def inv_mix1_def mul9_def mul11_def mul13_def mul14_def xtime_xor
  xor_cancel_left ac_simps

lemma inv_mix1_mix1:
  "inv_mix1 (mix1 a b c d) (mix1 b c d a) (mix1 c d a b) (mix1 d a b c) = a"
  by (simp add: column_simps)

lemma mix1_inv_mix1:
  "mix1 (inv_mix1 a b c d) (inv_mix1 b c d a) (inv_mix1 c d a b) (inv_mix1 d a b c) = a"
  by (simp add: column_simps)

lemma mix_columns_inverse [simp]:
  "inv_mix_columns (mix_columns s) = s" "mix_columns (inv_mix_columns s) = s"
  by (induction s rule: mix_columns.induct) (simp_all add: inv_mix1_mix1 mix1_inv_mix1)

text \<open>The rounds and the inverse rounds under the same round keys.\<close>

lemma length_aes_rounds:
  "\<forall>k \<in> set ks. length k = 16 \<Longrightarrow> length s = 16 \<Longrightarrow> length (aes_enc_rounds s ks) = 16"
  "\<forall>k \<in> set ks. length k = 16 \<Longrightarrow> length s = 16 \<Longrightarrow> length (aes_dec_rounds s ks) = 16"
  by (induction s ks rule: aes_enc_rounds.induct) simp_all

lemma aes_dec_enc_rounds:
  "\<forall>k \<in> set ks. length k = 16 \<Longrightarrow> length s = 16 \<Longrightarrow> aes_dec_rounds (aes_enc_rounds s ks) ks = s"
  by (induction s ks rule: aes_enc_rounds.induct) simp_all

lemma aes_enc_dec_rounds:
  "\<forall>k \<in> set ks. length k = 16 \<Longrightarrow> length s = 16 \<Longrightarrow> aes_enc_rounds (aes_dec_rounds s ks) ks = s"
proof (induction s ks rule: aes_dec_rounds.induct)
  case (3 s k v va)
  then have "length (aes_dec_rounds s (v # va)) = 16" by (intro length_aes_rounds) auto
  with 3 show ?case by simp
qed simp_all

text \<open>The key schedule: every word has four octets, every round key sixteen.\<close>

lemma aes_expand_step_words:
  assumes "0 < nk" "nk \<le> length ws" "\<forall>w \<in> set ws. length w = 4"
  shows "\<forall>w \<in> set (aes_expand_step nk ws). length w = 4"
    and "length (aes_expand_step nk ws) = Suc (length ws)"
proof -
  have "length (ws ! (length ws - 1)) = 4" "length (ws ! (length ws - nk)) = 4"
    using assms by auto
  with assms show "\<forall>w \<in> set (aes_expand_step nk ws). length w = 4"
    by (auto simp: aes_expand_step_def Let_def rot_word_def)
  show "length (aes_expand_step nk ws) = Suc (length ws)"
    by (simp add: aes_expand_step_def Let_def)
qed

lemma aes_expand_words:
  assumes "0 < nk" "nk \<le> length ws" "\<forall>w \<in> set ws. length w = 4"
  shows "(\<forall>w \<in> set ((aes_expand_step nk ^^ m) ws). length w = 4) \<and>
         length ((aes_expand_step nk ^^ m) ws) = length ws + m"
proof (induction m)
  case 0
  with assms show ?case by simp
next
  case (Suc m)
  then show ?case using aes_expand_step_words [of nk "(aes_expand_step nk ^^ m) ws"] assms by simp
qed

lemma aes_round_keys_16:
  assumes "aes_key_ok key"
  shows "\<forall>k \<in> set (aes_round_keys key). length k = 16"
    and "length (aes_round_keys key) = length key div 4 + 7"
proof -
  define nk where "nk = length key div 4"
  define ws where "ws = (aes_expand_step nk ^^ (4 * (nk + 7) - nk)) (chunks 4 key)"
  have nk: "0 < nk" "length key = 4 * nk" using assms by (auto simp: aes_key_ok_def nk_def)
  then have c: "\<forall>w \<in> set (chunks 4 key). length w = 4" "length (chunks 4 key) = nk"
    using chunks_even [of 4 key nk] by auto
  have w4: "\<forall>w \<in> set ws. length w = 4" and lws: "length ws = 4 * (nk + 7)"
    using aes_expand_words [OF nk(1) _ c(1)] c(2) nk by (simp_all add: ws_def)
  have sums: "length c = 16" if "c \<in> set (map concat (chunks 4 ws))" for c
  proof -
    from that obtain g where g: "g \<in> set (chunks 4 ws)" "c = concat g" by auto
    with chunks_even [of 4 ws "nk + 7"] lws have "length g = 4" "set g \<subseteq> set ws" by auto
    with w4 have "map length g = replicate 4 4"
      by (intro replicate_eqI) auto
    with g show ?thesis by (simp add: length_concat sum_list_replicate)
  qed
  moreover have rk: "aes_round_keys key = map concat (chunks 4 ws)"
    by (simp only: aes_round_keys_def Let_def nk_def ws_def)
  ultimately show "\<forall>k \<in> set (aes_round_keys key). length k = 16" by simp
  show "length (aes_round_keys key) = length key div 4 + 7"
    using chunks_even [of 4 ws "nk + 7"] lws by (simp add: rk nk_def)
qed

interpretation aes: block_cipher aes_key_ok aes_encrypt aes_decrypt
proof unfold_locales
  fix k b :: bytes
  assume ok: "aes_key_ok k" and b: "length b = 16"
  obtain r rs where rs: "aes_round_keys k = r # rs"
    using aes_round_keys_16(2) [OF ok] by (cases "aes_round_keys k") auto
  have r: "length r = 16" "\<forall>k \<in> set rs. length k = 16"
    using aes_round_keys_16(1) [OF ok] rs by auto
  note l = length_aes_rounds [OF r(2)]
  show "length (aes_encrypt k b) = 16" "length (aes_decrypt k b) = 16"
    using l b r by (simp_all add: aes_encrypt_def aes_decrypt_def rs)
  show "aes_decrypt k (aes_encrypt k b) = b" "aes_encrypt k (aes_decrypt k b) = b"
    using l b r aes_dec_enc_rounds [OF r(2)] aes_enc_dec_rounds [OF r(2)]
    by (simp_all add: aes_encrypt_def aes_decrypt_def rs)
qed

end
