(* ===== verification/KeyWrap.thy ===== *)
theory KeyWrap
  imports Errors Aes
begin

text \<open>
  \<^verbatim>\<open>src/keywrap.go\<close>: AES Key Wrap (RFC 3394). The two nested loops of the file are one fold
  over the pairs \<open>(j, i)\<close> in the order the loops visit them, with the register \<open>a\<close> and the
  octet array \<open>r\<close> as its state; \<open>copy_at\<close> and \<open>sub_slice\<close> are Go's \<^verbatim>\<open>copy\<close> into and reading of
  a sub-slice. The lemmas show that unwrapping accepts exactly the strings that wrapping
  produces. The locale \<open>key_wrapper\<close> is the contract the JWE code relies on.
\<close>

section \<open>The contract of a key wrap\<close>

locale key_wrapper =
  fixes kek_ok :: "bytes \<Rightarrow> bool"
    and cek_ok :: "bytes \<Rightarrow> bool"
    and wrap :: "bytes \<Rightarrow> bytes \<Rightarrow> bytes res"
    and unwrap :: "bytes \<Rightarrow> bytes \<Rightarrow> bytes res"
  assumes wrap_total: "kek_ok k \<Longrightarrow> cek_ok p \<Longrightarrow> \<exists>c. wrap k p = Inr c"
    and unwrap_wrap: "wrap k p = Inr c \<Longrightarrow> unwrap k c = Inr p"
    and wrap_unwrap: "unwrap k c = Inr p \<Longrightarrow> wrap k p = Inr c"
begin

lemma unwrap_iff: "unwrap k c = Inr p \<longleftrightarrow> wrap k p = Inr c"
  using unwrap_wrap wrap_unwrap by blast

lemma wrap_inj: "wrap k p = Inr c \<Longrightarrow> wrap k q = Inr c \<Longrightarrow> p = q"
  by (metis Inr_inject unwrap_wrap)

lemma unwrap_inj: "unwrap k c = Inr p \<Longrightarrow> unwrap k d = Inr p \<Longrightarrow> c = d"
  by (metis Inr_inject wrap_unwrap)

end

section \<open>keywrap.go\<close>

definition aesKWIV :: bytes where
  "aesKWIV = [0xA6, 0xA6, 0xA6, 0xA6, 0xA6, 0xA6, 0xA6, 0xA6]"

text \<open>XORs \<open>t\<close>, encoded big-endian, into the last 8 octets of \<open>b\<close>.\<close>

definition xorUint64 :: "bytes \<Rightarrow> u64 \<Rightarrow> bytes" where
  "xorUint64 b t =
     take (length b - 8) b @ xor_bytes (drop (length b - 8) b) (be_bytes 8 (unat t))"

definition sub_slice :: "'a list \<Rightarrow> nat \<Rightarrow> nat \<Rightarrow> 'a list" where
  "sub_slice r lo hi = take (hi - lo) (drop lo r)"

definition copy_at :: "'a list \<Rightarrow> nat \<Rightarrow> 'a list \<Rightarrow> 'a list" where
  "copy_at r lo b = take lo r @ b @ drop (lo + length b) r"

text \<open>The loop bodies; \<open>enc\<close> and \<open>dec\<close> are the cipher under the key-encryption key.\<close>

definition kw_step :: "(bytes \<Rightarrow> bytes) \<Rightarrow> nat \<Rightarrow> bytes \<times> bytes \<Rightarrow> nat \<times> nat \<Rightarrow> bytes \<times> bytes" where
  "kw_step enc n s ji =
     (case (s, ji) of ((a, r), (j, i)) \<Rightarrow>
        let buf = enc (a @ sub_slice r ((i - 1) * 8) (i * 8));
            t = word_of_nat (n * j + i)
        in (xorUint64 (take 8 buf) t, copy_at r ((i - 1) * 8) (drop 8 buf)))"

definition kw_unstep :: "(bytes \<Rightarrow> bytes) \<Rightarrow> nat \<Rightarrow> bytes \<times> bytes \<Rightarrow> nat \<times> nat \<Rightarrow> bytes \<times> bytes" where
  "kw_unstep dec n s ji =
     (case (s, ji) of ((a, r), (j, i)) \<Rightarrow>
        let t = word_of_nat (n * j + i);
            buf = dec (xorUint64 a t @ sub_slice r ((i - 1) * 8) (i * 8))
        in (take 8 buf, copy_at r ((i - 1) * 8) (drop 8 buf)))"

definition kw_up :: "nat \<Rightarrow> (nat \<times> nat) list" where
  "kw_up n = concat (map (\<lambda>j. map (\<lambda>i. (j, i)) [1..<Suc n]) [0..<6])"

definition kw_down :: "nat \<Rightarrow> (nat \<times> nat) list" where
  "kw_down n = concat (map (\<lambda>j. map (\<lambda>i. (j, i)) (rev [1..<Suc n])) (rev [0..<6]))"

definition AESKeyWrap :: "bytes \<Rightarrow> bytes \<Rightarrow> bytes res" where
  "AESKeyWrap kek plaintext =
     (if \<not> aes_key_ok kek then Inl ErrInvalidKey
      else if length plaintext mod 8 \<noteq> 0 \<or> length plaintext < 16 then Inl ErrInvalidKey
      else
        let n = length plaintext div 8;
            (a, r) = foldl (kw_step (aes_encrypt kek) n) (aesKWIV, plaintext) (kw_up n)
        in Inr (a @ r))"

definition AESKeyUnwrap :: "bytes \<Rightarrow> bytes \<Rightarrow> bytes res" where
  "AESKeyUnwrap kek ciphertext =
     (if \<not> aes_key_ok kek then Inl ErrInvalidKey
      else if length ciphertext mod 8 \<noteq> 0 \<or> length ciphertext < 24 then Inl ErrMalformed
      else
        let n = length ciphertext div 8 - 1;
            (a, r) = foldl (kw_unstep (aes_decrypt kek) n)
                       (take 8 ciphertext, drop 8 ciphertext) (kw_down n)
        in if a \<noteq> aesKWIV then Inl ErrDecryptFailed else Inr r)"

section \<open>Lemmas\<close>

lemma length_xorUint64 [simp]: "8 \<le> length b \<Longrightarrow> length (xorUint64 b t) = length b"
  by (simp add: xorUint64_def)

lemma xorUint64_twice [simp]: "length b = 8 \<Longrightarrow> xorUint64 (xorUint64 b t) t = b"
  by (simp add: xorUint64_def)

lemma length_sub_slice [len_simps]: "hi \<le> length r \<Longrightarrow> length (sub_slice r lo hi) = hi - lo"
  by (simp add: sub_slice_def)

lemma length_copy_at [len_simps]: "lo + length b \<le> length r \<Longrightarrow> length (copy_at r lo b) = length r"
  by (simp add: copy_at_def)

lemma sub_slice_copy_at: "lo + length b \<le> length r \<Longrightarrow> sub_slice (copy_at r lo b) lo (lo + length b) = b"
  by (simp add: copy_at_def sub_slice_def)

lemma copy_at_copy_at:
  "length b = length c \<Longrightarrow> lo + length b \<le> length r \<Longrightarrow> copy_at (copy_at r lo b) lo c = copy_at r lo c"
  by (simp add: copy_at_def)

lemma copy_at_sub_slice: "lo \<le> hi \<Longrightarrow> hi \<le> length r \<Longrightarrow> copy_at r lo (sub_slice r lo hi) = r"
  by (simp add: copy_at_def sub_slice_def)
    (metis append_take_drop_id le_add_diff_inverse drop_drop add.commute)

lemma kw_down_rev: "kw_down n = rev (kw_up n)"
proof -
  have "rev (concat (map f xs)) = concat (map (\<lambda>x. rev (f x)) (rev xs))"
    for f :: "nat \<Rightarrow> (nat \<times> nat) list" and xs
    by (induction xs) auto
  then show ?thesis by (simp add: kw_down_def kw_up_def rev_map del: upt_Suc)
qed

lemma kw_up_mem:
  assumes "ji \<in> set (kw_up n)"
  obtains j i where "ji = (j, Suc i)" "i < n"
proof -
  from assms obtain j m where "ji = (j, m)" "1 \<le> m" "m \<le> n" by (auto simp: kw_up_def)
  then show thesis using that [of j "m - 1"] by simp
qed

text \<open>Undoing a fold step by step, from the last step back.\<close>

lemma foldl_undo:
  assumes "\<And>s x. P s \<Longrightarrow> x \<in> set xs \<Longrightarrow> P (f s x) \<and> g (f s x) x = s"
    and "P s"
  shows "P (foldl f s xs) \<and> foldl g (foldl f s xs) (rev xs) = s"
  using assms
proof (induction xs arbitrary: s)
  case Nil
  then show ?case by simp
next
  case (Cons x xs)
  have "P (f s x) \<and> g (f s x) x = s" using Cons.prems by simp
  moreover have "P (foldl f (f s x) xs) \<and> foldl g (foldl f (f s x) xs) (rev xs) = f s x"
    using Cons.prems calculation by (intro Cons.IH) auto
  ultimately show ?case by simp
qed

definition kw_ok :: "nat \<Rightarrow> bytes \<times> bytes \<Rightarrow> bool" where
  "kw_ok n s \<longleftrightarrow> length (fst s) = 8 \<and> length (snd s) = 8 * n"

text \<open>The loop bodies at index \<open>i + 1\<close>, with the position in the array written as \<open>8 * i\<close>.\<close>

lemma kw_step_at:
  "kw_step enc n (a, r) (j, Suc i) =
     (let buf = enc (a @ sub_slice r (8 * i) (8 * i + 8))
      in (xorUint64 (take 8 buf) (word_of_nat (n * j + Suc i)), copy_at r (8 * i) (drop 8 buf)))"
  by (simp add: kw_step_def Let_def algebra_simps)

lemma kw_unstep_at:
  "kw_unstep dec n (a, r) (j, Suc i) =
     (let buf = dec (xorUint64 a (word_of_nat (n * j + Suc i)) @ sub_slice r (8 * i) (8 * i + 8))
      in (take 8 buf, copy_at r (8 * i) (drop 8 buf)))"
  by (simp add: kw_unstep_def Let_def algebra_simps)

text \<open>Writing a block and then the block that was there before restores the array.\<close>

lemma copy_at_undo:
  assumes "lo + 8 \<le> length r" "length b = 8"
  shows "sub_slice (copy_at r lo b) lo (lo + 8) = b"
    and "copy_at (copy_at r lo b) lo (sub_slice r lo (lo + 8)) = r"
    and "length (copy_at r lo b) = length r"
  using assms sub_slice_copy_at [of lo b r]
  by (simp_all add: len_simps copy_at_copy_at copy_at_sub_slice)

context block_cipher
begin

lemma kw_step_unstep:
  assumes k: "key_ok k" and s: "kw_ok n s" and ji: "ji \<in> set (kw_up n)"
  shows "kw_ok n (kw_step (enc k) n s ji) \<and>
         kw_unstep (dec k) n (kw_step (enc k) n s ji) ji = s"
proof -
  obtain a r where e: "s = (a, r)" by (cases s)
  obtain j i where i: "ji = (j, Suc i)" "i < n" using ji by (rule kw_up_mem)
  have a: "length a = 8" and r: "8 * i + 8 \<le> length r" "length r = 8 * n"
    using s e i by (auto simp: kw_ok_def)
  let ?b = "sub_slice r (8 * i) (8 * i + 8)"
  have b: "length ?b = 8" using r by (simp add: len_simps)
  then have c: "length (enc k (a @ ?b)) = 16" "dec k (enc k (a @ ?b)) = a @ ?b"
    using k a by (simp_all add: block_laws)
  then show ?thesis
    using a b r copy_at_undo [of "8 * i" r]
    by (simp add: e i(1) kw_step_at kw_unstep_at Let_def kw_ok_def del: of_nat_Suc)
qed

lemma kw_unstep_step:
  assumes k: "key_ok k" and s: "kw_ok n s" and ji: "ji \<in> set (kw_up n)"
  shows "kw_ok n (kw_unstep (dec k) n s ji) \<and>
         kw_step (enc k) n (kw_unstep (dec k) n s ji) ji = s"
proof -
  obtain a r where e: "s = (a, r)" by (cases s)
  obtain j i where i: "ji = (j, Suc i)" "i < n" using ji by (rule kw_up_mem)
  have a: "length a = 8" and r: "8 * i + 8 \<le> length r" "length r = 8 * n"
    using s e i by (auto simp: kw_ok_def)
  let ?b = "sub_slice r (8 * i) (8 * i + 8)"
  let ?x = "xorUint64 a (word_of_nat (n * j + Suc i)) @ ?b"
  have b: "length ?b = 8" using r by (simp add: len_simps)
  then have c: "length (dec k ?x) = 16" "enc k (dec k ?x) = ?x"
    using k a by (simp_all add: block_laws)
  then show ?thesis
    using a b r copy_at_undo [of "8 * i" r]
    by (simp add: e i(1) kw_step_at kw_unstep_at Let_def kw_ok_def del: of_nat_Suc)
qed

lemma kw_loops:
  assumes "key_ok k" "kw_ok n s"
  shows "kw_ok n (foldl (kw_step (enc k) n) s (kw_up n))"
    and "foldl (kw_unstep (dec k) n) (foldl (kw_step (enc k) n) s (kw_up n)) (kw_down n) = s"
    and "kw_ok n (foldl (kw_unstep (dec k) n) s (kw_down n))"
    and "foldl (kw_step (enc k) n) (foldl (kw_unstep (dec k) n) s (kw_down n)) (kw_up n) = s"
  using foldl_undo [of "kw_ok n" "kw_up n" "kw_step (enc k) n" "kw_unstep (dec k) n" s]
    foldl_undo [of "kw_ok n" "kw_down n" "kw_unstep (dec k) n" "kw_step (enc k) n" s]
    kw_step_unstep [OF assms(1)] kw_unstep_step [OF assms(1)] assms(2)
  by (auto simp: kw_down_rev)

end

lemma AESKeyUnwrap_Wrap:
  assumes "AESKeyWrap kek p = Inr c"
  shows "AESKeyUnwrap kek c = Inr p"
proof -
  let ?n = "length p div 8"
  let ?s = "foldl (kw_step (aes_encrypt kek) ?n) (aesKWIV, p) (kw_up ?n)"
  from assms have k: "aes_key_ok kek" and p: "length p mod 8 = 0" "16 \<le> length p"
    and c: "c = fst ?s @ snd ?s"
    by (auto simp: AESKeyWrap_def Let_def split: if_splits prod.splits)
  have "kw_ok ?n (aesKWIV, p)" using p by (auto simp: kw_ok_def aesKWIV_def)
  note l = aes.kw_loops(1,2) [OF k this]
  then have len: "length c = length p + 8" "take 8 c = fst ?s" "drop 8 c = snd ?s"
    using p by (auto simp: c kw_ok_def)
  then have "length c div 8 - 1 = ?n" by simp
  with l(2) len k p show ?thesis by (auto simp: AESKeyUnwrap_def Let_def)
qed

lemma AESKeyWrap_Unwrap:
  assumes "AESKeyUnwrap kek c = Inr p"
  shows "AESKeyWrap kek p = Inr c"
proof -
  let ?n = "length c div 8 - 1"
  let ?s = "foldl (kw_unstep (aes_decrypt kek) ?n) (take 8 c, drop 8 c) (kw_down ?n)"
  from assms have k: "aes_key_ok kek" and c: "length c mod 8 = 0" "24 \<le> length c"
    and p: "?s = (aesKWIV, p)"
    by (auto simp: AESKeyUnwrap_def Let_def split: if_splits prod.splits)
  have "kw_ok ?n (take 8 c, drop 8 c)" using c by (auto simp: kw_ok_def)
  note l = aes.kw_loops(3,4) [OF k this, unfolded p]
  then have "length p = 8 * ?n" by (simp add: kw_ok_def)
  with c have len: "length p mod 8 = 0" "16 \<le> length p" "length p div 8 = ?n" by auto
  with l(2) k show ?thesis by (simp add: AESKeyWrap_def Let_def)
qed

lemma AESKeyWrap_total:
  "aes_key_ok k \<Longrightarrow> length p mod 8 = 0 \<and> 16 \<le> length p \<Longrightarrow> \<exists>c. AESKeyWrap k p = Inr c"
  by (auto simp: AESKeyWrap_def Let_def split: prod.splits)

interpretation aeskw: key_wrapper aes_key_ok "\<lambda>p. length p mod 8 = 0 \<and> 16 \<le> length p"
    AESKeyWrap AESKeyUnwrap
  by unfold_locales
    (erule (1) AESKeyWrap_total | erule AESKeyUnwrap_Wrap | erule AESKeyWrap_Unwrap)+

lemma length_AESKeyWrap: "AESKeyWrap kek p = Inr c \<Longrightarrow> length c = length p + 8"
proof -
  assume w: "AESKeyWrap kek p = Inr c"
  then have k: "aes_key_ok kek" and p: "length p mod 8 = 0"
    by (auto simp: AESKeyWrap_def split: if_splits)
  have "kw_ok (length p div 8) (aesKWIV, p)" using p by (auto simp: kw_ok_def aesKWIV_def)
  from aes.kw_loops(1) [OF k this] w show ?thesis
    using p by (auto simp: AESKeyWrap_def Let_def kw_ok_def split: if_splits prod.splits)
qed

lemma AESKeyUnwrap_error:
  "AESKeyUnwrap kek c = Inl e \<Longrightarrow>
   (if \<not> aes_key_ok kek then e = ErrInvalidKey
    else if length c mod 8 \<noteq> 0 \<or> length c < 24 then e = ErrMalformed
    else e = ErrDecryptFailed)"
  by (auto simp: AESKeyUnwrap_def Let_def split: if_splits prod.splits)

section \<open>Properties\<close>

text \<open>
  (C3) Key unwrapping accepts exactly what key wrapping produces: under one key-encryption key,
  \<open>c\<close> unwraps to \<open>p\<close> if and only if \<open>p\<close> wraps to \<open>c\<close>.
\<close>

theorem keywrap_unwrap_iff: "AESKeyUnwrap kek c = Inr p \<longleftrightarrow> AESKeyWrap kek p = Inr c"
  by (rule aeskw.unwrap_iff)

text \<open>
  (C4) When wrapping succeeds: exactly for a 16, 24 or 32 octet key-encryption key and a key of
  at least two 64-bit blocks; every other call is \<open>ErrInvalidKey\<close>, and a wrapped key is 8
  octets longer than the key.
\<close>

theorem keywrap_outcome:
  "if aes_key_ok kek \<and> length p mod 8 = 0 \<and> 16 \<le> length p
   then (\<exists>c. AESKeyWrap kek p = Inr c \<and> length c = length p + 8)
   else AESKeyWrap kek p = Inl ErrInvalidKey"
proof (cases "aes_key_ok kek \<and> length p mod 8 = 0 \<and> 16 \<le> length p")
  case True
  then obtain c where "AESKeyWrap kek p = Inr c" by (elim conjE) (meson aeskw.wrap_total)
  with True length_AESKeyWrap [of kek p c] show ?thesis by simp
next
  case False
  then show ?thesis unfolding AESKeyWrap_def by (simp only: if_False) auto
qed

end
