(* ===== verification/Hash.thy ===== *)
theory Hash
  imports Aes
begin

text \<open>
  Go's \<^verbatim>\<open>crypto/sha1\<close>, \<^verbatim>\<open>crypto/sha256\<close>, \<^verbatim>\<open>crypto/sha512\<close> (FIPS 180-4) and \<^verbatim>\<open>crypto/hmac\<close>
  (FIPS 198-1), which the signature, key derivation and content encryption code calls. The
  locale \<open>hash_function\<close> is what the callers rely on (the digest size, positive and at most
  the block size); it is interpreted on each of the four functions.
\<close>

section \<open>The contract of a hash function\<close>

definition hmac_with :: "(bytes \<Rightarrow> bytes) \<Rightarrow> nat \<Rightarrow> bytes \<Rightarrow> bytes \<Rightarrow> bytes" where
  "hmac_with H block key msg =
     (let k0 = (if block < length key then H key else key);
          k = k0 @ replicate (block - length k0) 0
      in H (map (xor 0x5C) k @ H (map (xor 0x36) k @ msg)))"

locale hash_function =
  fixes H :: "bytes \<Rightarrow> bytes"
    and size block :: nat
  assumes digest_len: "length (H m) = size"
    and size_pos: "0 < size"
    and size_block: "size \<le> block"
begin

lemma hmac_len: "length (hmac_with H block key msg) = size"
  by (simp add: hmac_with_def Let_def digest_len)

lemma hmac_nonempty: "hmac_with H block key msg \<noteq> []"
  using hmac_len size_pos by (metis list.size(3) less_irrefl)

end

section \<open>Padding and message words\<close>

text \<open>The message, a one bit, zeros, and the bit length in \<open>l\<close> octets, to a multiple of \<open>b\<close>.\<close>

definition md_pad :: "nat \<Rightarrow> nat \<Rightarrow> bytes \<Rightarrow> bytes" where
  "md_pad b l m =
     m @ [0x80] @ replicate ((2 * b - 1 - l - length m mod b) mod b) 0 @ be_bytes l (8 * length m)"

definition word32_of :: "bytes \<Rightarrow> u32" where
  "word32_of b = word_of_nat (be_nat b)"

definition word64_of :: "bytes \<Rightarrow> u64" where
  "word64_of b = word_of_nat (be_nat b)"

section \<open>SHA-1\<close>

definition sha1_step :: "u32 list \<Rightarrow> u32 list" where
  "sha1_step w =
     (let i = length w
      in w @ [word_rotl 1 (xor (xor (w ! (i - 3)) (w ! (i - 8))) (xor (w ! (i - 14)) (w ! (i - 16))))])"

definition sha1_round ::
  "u32 \<times> u32 \<times> u32 \<times> u32 \<times> u32 \<Rightarrow> nat \<times> u32 \<Rightarrow> u32 \<times> u32 \<times> u32 \<times> u32 \<times> u32" where
  "sha1_round s tw =
     (case (s, tw) of ((a, b, c, d, e), (t, w)) \<Rightarrow>
        let fk = (if t < 20 then (or (and b c) (and (not b) d), 0x5A827999)
                  else if t < 40 then (xor b (xor c d), 0x6ED9EBA1)
                  else if t < 60 then (or (or (and b c) (and b d)) (and c d), 0x8F1BBCDC)
                  else (xor b (xor c d), 0xCA62C1D6))
        in (word_rotl 5 a + fst fk + e + snd fk + w, a, word_rotl 30 b, c, d))"

definition sha1_block ::
  "u32 \<times> u32 \<times> u32 \<times> u32 \<times> u32 \<Rightarrow> bytes \<Rightarrow> u32 \<times> u32 \<times> u32 \<times> u32 \<times> u32" where
  "sha1_block s blk =
     (case s of (h0, h1, h2, h3, h4) \<Rightarrow>
        let w = (sha1_step ^^ 64) (map word32_of (chunks 4 blk));
            (a, b, c, d, e) = foldl sha1_round s (zip [0..<80] w)
        in (h0 + a, h1 + b, h2 + c, h3 + d, h4 + e))"

definition sha1 :: "bytes \<Rightarrow> bytes" where
  "sha1 m =
     (case foldl sha1_block (0x67452301, 0xEFCDAB89, 0x98BADCFE, 0x10325476, 0xC3D2E1F0)
             (chunks 64 (md_pad 64 8 m)) of
        (a, b, c, d, e) \<Rightarrow> concat (map (\<lambda>x. be_bytes 4 (unat x)) [a, b, c, d, e]))"

section \<open>SHA-256\<close>

definition sha256_k :: "u32 list" where
  "sha256_k =
     [0x428A2F98, 0x71374491, 0xB5C0FBCF, 0xE9B5DBA5, 0x3956C25B, 0x59F111F1, 0x923F82A4, 0xAB1C5ED5,
      0xD807AA98, 0x12835B01, 0x243185BE, 0x550C7DC3, 0x72BE5D74, 0x80DEB1FE, 0x9BDC06A7, 0xC19BF174,
      0xE49B69C1, 0xEFBE4786, 0x0FC19DC6, 0x240CA1CC, 0x2DE92C6F, 0x4A7484AA, 0x5CB0A9DC, 0x76F988DA,
      0x983E5152, 0xA831C66D, 0xB00327C8, 0xBF597FC7, 0xC6E00BF3, 0xD5A79147, 0x06CA6351, 0x14292967,
      0x27B70A85, 0x2E1B2138, 0x4D2C6DFC, 0x53380D13, 0x650A7354, 0x766A0ABB, 0x81C2C92E, 0x92722C85,
      0xA2BFE8A1, 0xA81A664B, 0xC24B8B70, 0xC76C51A3, 0xD192E819, 0xD6990624, 0xF40E3585, 0x106AA070,
      0x19A4C116, 0x1E376C08, 0x2748774C, 0x34B0BCB5, 0x391C0CB3, 0x4ED8AA4A, 0x5B9CCA4F, 0x682E6FF3,
      0x748F82EE, 0x78A5636F, 0x84C87814, 0x8CC70208, 0x90BEFFFA, 0xA4506CEB, 0xBEF9A3F7, 0xC67178F2]"

definition sha256_step :: "u32 list \<Rightarrow> u32 list" where
  "sha256_step w =
     (let i = length w;
          x = w ! (i - 15);
          y = w ! (i - 2)
      in w @ [xor (word_rotr 17 y) (xor (word_rotr 19 y) (drop_bit 10 y)) + w ! (i - 7) +
              xor (word_rotr 7 x) (xor (word_rotr 18 x) (drop_bit 3 x)) + w ! (i - 16)])"

type_synonym 'a oct = "'a \<times> 'a \<times> 'a \<times> 'a \<times> 'a \<times> 'a \<times> 'a \<times> 'a"

definition sha256_round :: "u32 oct \<Rightarrow> u32 \<times> u32 \<Rightarrow> u32 oct" where
  "sha256_round s kw =
     (case (s, kw) of ((a, b, c, d, e, f, g, h), (k, w)) \<Rightarrow>
        let t1 = h + xor (word_rotr 6 e) (xor (word_rotr 11 e) (word_rotr 25 e)) +
                 xor (and e f) (and (not e) g) + k + w;
            t2 = xor (word_rotr 2 a) (xor (word_rotr 13 a) (word_rotr 22 a)) +
                 xor (and a b) (xor (and a c) (and b c))
        in (t1 + t2, a, b, c, d + t1, e, f, g))"

definition oct_add :: "('a :: plus) oct \<Rightarrow> 'a oct \<Rightarrow> 'a oct" where
  "oct_add s t =
     (case (s, t) of ((a, b, c, d, e, f, g, h), (a', b', c', d', e', f', g', h')) \<Rightarrow>
        (a + a', b + b', c + c', d + d', e + e', f + f', g + g', h + h'))"

definition oct_list :: "'a oct \<Rightarrow> 'a list" where
  "oct_list s = (case s of (a, b, c, d, e, f, g, h) \<Rightarrow> [a, b, c, d, e, f, g, h])"

definition sha256_block :: "u32 oct \<Rightarrow> bytes \<Rightarrow> u32 oct" where
  "sha256_block s blk =
     oct_add s (foldl sha256_round s
       (zip sha256_k ((sha256_step ^^ 48) (map word32_of (chunks 4 blk)))))"

definition sha256 :: "bytes \<Rightarrow> bytes" where
  "sha256 m =
     concat (map (\<lambda>x. be_bytes 4 (unat x)) (oct_list (foldl sha256_block
       (0x6A09E667, 0xBB67AE85, 0x3C6EF372, 0xA54FF53A,
      0x510E527F, 0x9B05688C, 0x1F83D9AB, 0x5BE0CD19)
       (chunks 64 (md_pad 64 8 m)))))"

section \<open>SHA-384 and SHA-512\<close>

definition sha512_k :: "u64 list" where
  "sha512_k =
     [0x428A2F98D728AE22, 0x7137449123EF65CD, 0xB5C0FBCFEC4D3B2F, 0xE9B5DBA58189DBBC,
      0x3956C25BF348B538, 0x59F111F1B605D019, 0x923F82A4AF194F9B, 0xAB1C5ED5DA6D8118,
      0xD807AA98A3030242, 0x12835B0145706FBE, 0x243185BE4EE4B28C, 0x550C7DC3D5FFB4E2,
      0x72BE5D74F27B896F, 0x80DEB1FE3B1696B1, 0x9BDC06A725C71235, 0xC19BF174CF692694,
      0xE49B69C19EF14AD2, 0xEFBE4786384F25E3, 0x0FC19DC68B8CD5B5, 0x240CA1CC77AC9C65,
      0x2DE92C6F592B0275, 0x4A7484AA6EA6E483, 0x5CB0A9DCBD41FBD4, 0x76F988DA831153B5,
      0x983E5152EE66DFAB, 0xA831C66D2DB43210, 0xB00327C898FB213F, 0xBF597FC7BEEF0EE4,
      0xC6E00BF33DA88FC2, 0xD5A79147930AA725, 0x06CA6351E003826F, 0x142929670A0E6E70,
      0x27B70A8546D22FFC, 0x2E1B21385C26C926, 0x4D2C6DFC5AC42AED, 0x53380D139D95B3DF,
      0x650A73548BAF63DE, 0x766A0ABB3C77B2A8, 0x81C2C92E47EDAEE6, 0x92722C851482353B,
      0xA2BFE8A14CF10364, 0xA81A664BBC423001, 0xC24B8B70D0F89791, 0xC76C51A30654BE30,
      0xD192E819D6EF5218, 0xD69906245565A910, 0xF40E35855771202A, 0x106AA07032BBD1B8,
      0x19A4C116B8D2D0C8, 0x1E376C085141AB53, 0x2748774CDF8EEB99, 0x34B0BCB5E19B48A8,
      0x391C0CB3C5C95A63, 0x4ED8AA4AE3418ACB, 0x5B9CCA4F7763E373, 0x682E6FF3D6B2B8A3,
      0x748F82EE5DEFB2FC, 0x78A5636F43172F60, 0x84C87814A1F0AB72, 0x8CC702081A6439EC,
      0x90BEFFFA23631E28, 0xA4506CEBDE82BDE9, 0xBEF9A3F7B2C67915, 0xC67178F2E372532B,
      0xCA273ECEEA26619C, 0xD186B8C721C0C207, 0xEADA7DD6CDE0EB1E, 0xF57D4F7FEE6ED178,
      0x06F067AA72176FBA, 0x0A637DC5A2C898A6, 0x113F9804BEF90DAE, 0x1B710B35131C471B,
      0x28DB77F523047D84, 0x32CAAB7B40C72493, 0x3C9EBE0A15C9BEBC, 0x431D67C49C100D4C,
      0x4CC5D4BECB3E42B6, 0x597F299CFC657E2A, 0x5FCB6FAB3AD6FAEC, 0x6C44198C4A475817]"

definition sha512_step :: "u64 list \<Rightarrow> u64 list" where
  "sha512_step w =
     (let i = length w;
          x = w ! (i - 15);
          y = w ! (i - 2)
      in w @ [xor (word_rotr 19 y) (xor (word_rotr 61 y) (drop_bit 6 y)) + w ! (i - 7) +
              xor (word_rotr 1 x) (xor (word_rotr 8 x) (drop_bit 7 x)) + w ! (i - 16)])"

definition sha512_round :: "u64 oct \<Rightarrow> u64 \<times> u64 \<Rightarrow> u64 oct" where
  "sha512_round s kw =
     (case (s, kw) of ((a, b, c, d, e, f, g, h), (k, w)) \<Rightarrow>
        let t1 = h + xor (word_rotr 14 e) (xor (word_rotr 18 e) (word_rotr 41 e)) +
                 xor (and e f) (and (not e) g) + k + w;
            t2 = xor (word_rotr 28 a) (xor (word_rotr 34 a) (word_rotr 39 a)) +
                 xor (and a b) (xor (and a c) (and b c))
        in (t1 + t2, a, b, c, d + t1, e, f, g))"

definition sha512_block :: "u64 oct \<Rightarrow> bytes \<Rightarrow> u64 oct" where
  "sha512_block s blk =
     oct_add s (foldl sha512_round s
       (zip sha512_k ((sha512_step ^^ 64) (map word64_of (chunks 8 blk)))))"

definition sha512 :: "bytes \<Rightarrow> bytes" where
  "sha512 m =
     concat (map (\<lambda>x. be_bytes 8 (unat x)) (oct_list (foldl sha512_block
       (0x6A09E667F3BCC908, 0xBB67AE8584CAA73B, 0x3C6EF372FE94F82B, 0xA54FF53A5F1D36F1,
      0x510E527FADE682D1, 0x9B05688C2B3E6C1F, 0x1F83D9ABFB41BD6B, 0x5BE0CD19137E2179)
       (chunks 128 (md_pad 128 16 m)))))"

definition sha384 :: "bytes \<Rightarrow> bytes" where
  "sha384 m =
     take 48 (concat (map (\<lambda>x. be_bytes 8 (unat x)) (oct_list (foldl sha512_block
       (0xCBBB9D5DC1059ED8, 0x629A292A367CD507, 0x9159015A3070DD17, 0x152FECD8F70E5939,
      0x67332667FFC00B31, 0x8EB44A8768581511, 0xDB0C2E0D64F98FA7, 0x47B5481DBEFA4FA4)
       (chunks 128 (md_pad 128 16 m))))))"

section \<open>crypto.Hash and crypto/hmac\<close>

datatype hash_fn = SHA1 | SHA256 | SHA384 | SHA512

fun hash_sum :: "hash_fn \<Rightarrow> bytes \<Rightarrow> bytes" where
  "hash_sum SHA1 = sha1"
| "hash_sum SHA256 = sha256"
| "hash_sum SHA384 = sha384"
| "hash_sum SHA512 = sha512"

fun hash_size :: "hash_fn \<Rightarrow> nat" where
  "hash_size SHA1 = 20"
| "hash_size SHA256 = 32"
| "hash_size SHA384 = 48"
| "hash_size SHA512 = 64"

fun hash_block :: "hash_fn \<Rightarrow> nat" where
  "hash_block SHA1 = 64"
| "hash_block SHA256 = 64"
| "hash_block SHA384 = 128"
| "hash_block SHA512 = 128"

definition hmac :: "hash_fn \<Rightarrow> bytes \<Rightarrow> bytes \<Rightarrow> bytes" where
  "hmac h key msg = hmac_with (hash_sum h) (hash_block h) key msg"

lemma length_oct_words:
  "length (concat (map (\<lambda>x. be_bytes n (unat x)) (oct_list s))) = 8 * n"
  by (simp add: oct_list_def split: prod.split)

interpretation sha1: hash_function sha1 20 64
  by unfold_locales (simp_all add: sha1_def split: prod.splits)

interpretation sha256: hash_function sha256 32 64
  by unfold_locales (simp_all add: sha256_def length_oct_words)

interpretation sha384: hash_function sha384 48 128
  by unfold_locales (simp_all add: sha384_def length_oct_words)

interpretation sha512: hash_function sha512 64 128
  by unfold_locales (simp_all add: sha512_def length_oct_words)

lemmas digest_lens = sha1.digest_len sha256.digest_len sha384.digest_len sha512.digest_len

lemma length_hash_sum [simp]: "length (hash_sum h m) = hash_size h"
  by (cases h) (simp_all add: digest_lens)

lemma length_hmac [simp]: "length (hmac h key msg) = hash_size h"
  by (cases h) (simp_all add: hmac_def sha1.hmac_len sha256.hmac_len sha384.hmac_len sha512.hmac_len)

lemma hash_size_pos [simp]: "0 < hash_size h"
  by (cases h) simp_all

end
