(* ===== verification/Kdf.thy ===== *)
theory Kdf
  imports Errors Hash
begin

text \<open>
  The two key derivation functions the package implements itself: \<^verbatim>\<open>PBKDF2\<close> and
  \<^verbatim>\<open>pbes2SaltInput\<close> of \<^verbatim>\<open>src/pbkdf2.go\<close>, \<^verbatim>\<open>ConcatKDF\<close> and \<^verbatim>\<open>lengthPrefixed\<close> of
  \<^verbatim>\<open>src/ecdh.go\<close>. The loops are recursive functions; the counters keep their 32 bits. The
  lemmas relate them to the block formulas of RFC 8018 and NIST SP 800-56A.
\<close>

section \<open>pbkdf2.go\<close>

definition DefaultPBES2Count :: int where "DefaultPBES2Count = 100000"
definition MinPBES2Count :: int where "MinPBES2Count = 1000"
definition MaxPBES2Count :: int where "MaxPBES2Count = 1000000"
definition MaxPBES2SaltInput :: nat where "MaxPBES2SaltInput = 1024"

text \<open>The inner loop: \<open>n\<close> more rounds from the last output \<open>u\<close> and the accumulator \<open>t\<close>.\<close>

fun pbkdf2_rounds :: "(bytes \<Rightarrow> bytes) \<Rightarrow> nat \<Rightarrow> bytes \<Rightarrow> bytes \<Rightarrow> bytes" where
  "pbkdf2_rounds mac 0 u t = t"
| "pbkdf2_rounds mac (Suc n) u t = (let u' = mac u in pbkdf2_rounds mac n u' (xor_bytes t u'))"

definition pbkdf2_block :: "(bytes \<Rightarrow> bytes) \<Rightarrow> bytes \<Rightarrow> nat \<Rightarrow> nat \<Rightarrow> bytes" where
  "pbkdf2_block mac salt iterations b =
     (let idx = be_bytes 4 (unat (word_of_nat b :: u32));
          u = mac (salt @ idx)
      in pbkdf2_rounds mac (iterations - 1) u u)"

definition PBKDF2 :: "bytes \<Rightarrow> bytes \<Rightarrow> int \<Rightarrow> int \<Rightarrow> hash_fn \<Rightarrow> bytes res" where
  "PBKDF2 password salt iterations keyLen newHash =
     (if iterations \<le> 0 then Inl ErrIterationCount
      else if keyLen \<le> 0 then Inl ErrInvalidKey
      else
        let mac = hmac newHash password;
            hLen = hash_size newHash;
            blocks = (nat keyLen + hLen - 1) div hLen;
            out = concat (map (pbkdf2_block mac salt (nat iterations)) [1..<Suc blocks])
        in Inr (take (nat keyLen) out))"

definition pbes2SaltInput :: "string \<Rightarrow> bytes \<Rightarrow> bytes" where
  "pbes2SaltInput alg p2s = bytes_of_string alg @ [0x00] @ p2s"

section \<open>ecdh.go: the Concat KDF\<close>

definition lengthPrefixed :: "bytes \<Rightarrow> bytes" where
  "lengthPrefixed b = be_bytes 4 (unat (word_of_nat (length b) :: u32)) @ b"

definition concat_other :: "string \<Rightarrow> bytes \<Rightarrow> bytes \<Rightarrow> int \<Rightarrow> bytes" where
  "concat_other algID apu apv keyLen =
     lengthPrefixed (bytes_of_string algID) @ lengthPrefixed apu @ lengthPrefixed apv @
     be_bytes 4 (unat (word_of_int keyLen * 8 :: u32))"

definition concat_digest :: "bytes \<Rightarrow> bytes \<Rightarrow> u32 \<Rightarrow> bytes" where
  "concat_digest z other i = sha256 (be_bytes 4 (unat i) @ z @ other)"

lemma length_concat_digest [simp]: "length (concat_digest z other i) = 32"
  by (simp add: concat_digest_def digest_lens)

function concat_loop :: "bytes \<Rightarrow> bytes \<Rightarrow> nat \<Rightarrow> u32 \<Rightarrow> bytes \<Rightarrow> bytes" where
  "concat_loop z other keyLen i out =
     (if length out < keyLen
      then concat_loop z other keyLen (i + 1) (out @ concat_digest z other i)
      else out)"
  by pat_completeness auto
termination
  by (relation "measure (\<lambda>(z, other, keyLen, i, out). keyLen - length out)") auto

declare concat_loop.simps [simp del]

definition ConcatKDF :: "bytes \<Rightarrow> string \<Rightarrow> bytes \<Rightarrow> bytes \<Rightarrow> int \<Rightarrow> bytes res" where
  "ConcatKDF z algID apu apv keyLen =
     (if keyLen \<le> 0 then Inl ErrInvalidKey
      else Inr (take (nat keyLen)
             (concat_loop z (concat_other algID apu apv keyLen) (nat keyLen) 1 [])))"

section \<open>Lemmas on PBKDF2\<close>

text \<open>RFC 8018: \<open>U_1, U_2, ...\<close> and the block \<open>T = U_1 xor ... xor U_c\<close>.\<close>

definition rfc8018_U :: "(bytes \<Rightarrow> bytes) \<Rightarrow> bytes \<Rightarrow> nat \<Rightarrow> bytes" where
  "rfc8018_U mac seed j = (mac ^^ j) seed"

definition rfc8018_F :: "(bytes \<Rightarrow> bytes) \<Rightarrow> bytes \<Rightarrow> nat \<Rightarrow> nat \<Rightarrow> bytes" where
  "rfc8018_F mac salt c i =
     (let seed = salt @ be_bytes 4 i
      in foldl xor_bytes (rfc8018_U mac seed 1) (map (rfc8018_U mac seed) [2..<Suc c]))"

lemma pbkdf2_rounds_fold:
  "pbkdf2_rounds mac n u t = foldl xor_bytes t (map (\<lambda>j. (mac ^^ j) u) [1..<Suc n])"
proof (induction n arbitrary: u t)
  case 0
  then show ?case by simp
next
  case (Suc n)
  have "map (\<lambda>j. (mac ^^ j) u) [1..<Suc (Suc n)] =
      mac u # map (\<lambda>j. (mac ^^ j) u) [Suc 1..<Suc (Suc n)]"
    by (simp add: upt_conv_Cons del: upt_Suc)
  also have "map (\<lambda>j. (mac ^^ j) u) [Suc 1..<Suc (Suc n)] = map (\<lambda>j. (mac ^^ j) (mac u)) [1..<Suc n]"
    by (simp only: map_Suc_upt [symmetric] map_map o_def funpow_Suc_right)
  finally show ?case using Suc.IH [of "mac u"] by (simp add: Let_def del: upt_Suc)
qed

lemma pbkdf2_block_F:
  assumes "b < 2 ^ 32" "0 < c"
  shows "pbkdf2_block mac salt c b = rfc8018_F mac salt c b"
proof -
  have i: "be_bytes 4 (unat (word_of_nat b :: u32)) = be_bytes 4 b"
    using assms by (simp add: unat_of_nat)
  have "map (\<lambda>j. (mac ^^ j) (mac s)) [1..<Suc (c - 1)] = map (rfc8018_U mac s) [2..<Suc c]" for s
  proof -
    have "map (\<lambda>j. (mac ^^ j) (mac s)) [1..<c] = map (\<lambda>j. (mac ^^ Suc j) s) [1..<c]"
      by (simp only: funpow_Suc_right o_def)
    also have "\<dots> = map (rfc8018_U mac s) (map Suc [1..<c])"
      by (simp add: rfc8018_U_def)
    finally show ?thesis using assms by (simp add: map_Suc_upt numeral_2_eq_2)
  qed
  then show ?thesis
    by (simp add: pbkdf2_block_def rfc8018_F_def Let_def i pbkdf2_rounds_fold rfc8018_U_def
        del: upt_Suc)
qed

lemma length_pbkdf2_rounds:
  "(\<And>m. length (mac m) = l) \<Longrightarrow> length t = l \<Longrightarrow> length (pbkdf2_rounds mac n u t) = l"
  by (induction mac n u t rule: pbkdf2_rounds.induct) (simp_all add: Let_def)

lemma length_pbkdf2_block:
  "(\<And>m. length (mac m) = l) \<Longrightarrow> length (pbkdf2_block mac salt c b) = l"
  by (simp add: pbkdf2_block_def Let_def length_pbkdf2_rounds)

text \<open>Concatenations of equally long blocks.\<close>

lemma length_concat_blocks:
  "(\<And>x. length (f x) = l) \<Longrightarrow> length (concat (map f xs)) = length xs * l"
  by (induction xs) simp_all

lemma ceil_blocks: "0 < (l::nat) \<Longrightarrow> n \<le> (n + l - 1) div l * l"
proof -
  assume l: "0 < l"
  have "n + l - 1 = (n + l - 1) div l * l + (n + l - 1) mod l" by simp
  moreover have "(n + l - 1) mod l \<le> l - 1" using l by (simp add: less_Suc_eq_le [symmetric])
  ultimately show ?thesis using l by linarith
qed

lemma take_blocks_prefix:
  assumes "\<And>x. length (f x) = l" "n \<le> m" "n \<le> a * l" "a \<le> b"
  shows "take n (concat (map f [1..<Suc a])) = take n (take m (concat (map f [1..<Suc b])))"
proof -
  have "[1..<Suc b] = [1..<Suc a] @ [Suc a..<Suc b]"
    using assms(4) upt_add_eq_append [of 1 "Suc a" "b - a"] by simp
  then show ?thesis
    using assms length_concat_blocks [of f l "[1..<Suc a]"] by (simp add: min_def del: upt_Suc)
qed

lemma length_PBKDF2: "PBKDF2 pw salt c n h = Inr k \<Longrightarrow> length k = nat n"
proof -
  assume k: "PBKDF2 pw salt c n h = Inr k"
  let ?f = "pbkdf2_block (hmac h pw) salt (nat c)"
  have "length (?f b) = hash_size h" for b by (rule length_pbkdf2_block) simp
  then have "length (concat (map ?f [1..<Suc m])) = m * hash_size h" for m
    using length_concat_blocks [of ?f "hash_size h" "[1..<Suc m]"] by simp
  with k show ?thesis
    using ceil_blocks [of "hash_size h" "nat n"]
    by (auto simp: PBKDF2_def Let_def min_def simp del: upt_Suc split: if_splits)
qed

lemma PBKDF2_total: "0 < c \<Longrightarrow> 0 < n \<Longrightarrow> \<exists>k. PBKDF2 pw salt c n h = Inr k"
  by (simp add: PBKDF2_def Let_def)

lemma PBKDF2_prefix:
  assumes "PBKDF2 pw salt c n h = Inr k" "PBKDF2 pw salt c m h = Inr k'" "n \<le> m"
  shows "k = take (nat n) k'"
proof -
  let ?f = "pbkdf2_block (hmac h pw) salt (nat c)" and ?l = "hash_size h"
  have "length (?f b) = ?l" for b by (rule length_pbkdf2_block) simp
  moreover have "(nat n + ?l - 1) div ?l \<le> (nat m + ?l - 1) div ?l"
    using assms(3) by (intro div_le_mono) simp
  ultimately show ?thesis
    using assms take_blocks_prefix [of ?f ?l "nat n" "nat m"] ceil_blocks [of ?l "nat n"]
    by (auto simp: PBKDF2_def Let_def simp del: upt_Suc split: if_splits)
qed

text \<open>Binding the algorithm name into the salt: the encoding is injective.\<close>

lemma pbes2SaltInput_inj:
  assumes "CHR 0x00 \<notin> set a" "CHR 0x00 \<notin> set b"
    and "pbes2SaltInput a s = pbes2SaltInput b t"
  shows "a = b \<and> s = t"
proof -
  have nz: "0 \<notin> set (bytes_of_string x)" if "CHR 0x00 \<notin> set x" for x
  proof
    assume "0 \<in> set (bytes_of_string x)"
    then obtain c where c: "c \<in> set x" "byte_of_char c = 0" by (auto simp: bytes_of_string_def)
    then have "c = char_of_byte 0" by (metis char_of_byte_of_char)
    then have "c = CHR 0x00" by (simp add: char_of_byte_def char_of_def)
    with c that show False by simp
  qed
  have split: "takeWhile (\<lambda>x. x \<noteq> 0) (pbes2SaltInput x u) = bytes_of_string x"
      "dropWhile (\<lambda>x. x \<noteq> 0) (pbes2SaltInput x u) = 0 # u" if "CHR 0x00 \<notin> set x" for x u
    using nz [OF that] unfolding pbes2SaltInput_def
    by (subst takeWhile_append2 dropWhile_append2; auto)+
  have "bytes_of_string a = bytes_of_string b" "0 # s = 0 # t"
    using split [OF assms(1), of s] split [OF assms(2), of t] assms(3) by metis+
  then show ?thesis by simp
qed

section \<open>Lemmas on the Concat KDF\<close>

text \<open>NIST SP 800-56A: the digests \<open>K(1), ..., K(reps)\<close> with \<open>reps = ceil(keyLen / 32)\<close>.\<close>

definition sp800_56a :: "bytes \<Rightarrow> bytes \<Rightarrow> nat \<Rightarrow> bytes" where
  "sp800_56a z other keyLen =
     take keyLen (concat (map (\<lambda>i. sha256 (be_bytes 4 i @ z @ other)) [1..<Suc ((keyLen + 31) div 32)]))"

lemma concat_loop_blocks:
  "concat_loop z other n (word_of_nat i) out =
     out @ concat (map (\<lambda>j. concat_digest z other (word_of_nat j))
                     [i..<i + (n - length out + 31) div 32])"
proof (induction "n - length out" arbitrary: i out rule: less_induct)
  case less
  show ?case
  proof (cases "length out < n")
    case False
    then show ?thesis by (subst concat_loop.simps) simp
  next
    case True
    let ?d = "\<lambda>j. concat_digest z other (word_of_nat j)"
    have blocks: "(d + 31) div 32 = Suc ((d - 32 + 31) div 32)" if "0 < d" for d :: nat
    proof (cases "d \<le> 32")
      case True
      then have "d - 32 = 0" "(d + 31) div 32 = 1"
        using that by (simp_all add: div_nat_eqI)
      then show ?thesis by simp
    next
      case False
      then have "d + 31 = (d - 32 + 31) + 32" by simp
      then show ?thesis by (metis Suc_eq_plus1 div_add_self2 zero_neq_numeral)
    qed
    define reps where "reps = (n - (length out + 32) + 31) div 32"
    have m: "(n - length out + 31) div 32 = Suc reps"
      using blocks [of "n - length out"] True by (simp add: reps_def)
    have "concat_loop z other n (word_of_nat i) out =
        concat_loop z other n (word_of_nat (Suc i)) (out @ ?d i)"
      using True by (subst concat_loop.simps) (simp add: add.commute [of 1])
    also have "\<dots> = (out @ ?d i) @ concat (map ?d [Suc i..<Suc i + (n - length (out @ ?d i) + 31) div 32])"
      by (rule less.hyps) (use True in simp)
    also have "\<dots> = out @ concat (map ?d (i # [Suc i..<Suc i + reps]))"
      by (simp add: reps_def)
    finally show ?thesis by (simp add: m upt_conv_Cons del: upt_Suc)
  qed
qed

lemma ConcatKDF_spec:
  assumes "0 < keyLen" "keyLen \<le> 2 ^ 32"
  shows "ConcatKDF z algID apu apv keyLen =
     Inr (sp800_56a z (concat_other algID apu apv keyLen) (nat keyLen))"
proof -
  have "nat keyLen \<le> 2 ^ 32" using assms by simp
  then have "(nat keyLen + 31) div 32 < 2 ^ 32" by simp
  then have "map (\<lambda>i. concat_digest z other (word_of_nat i)) [1..<Suc ((nat keyLen + 31) div 32)] =
      map (\<lambda>i. sha256 (be_bytes 4 i @ z @ other)) [1..<Suc ((nat keyLen + 31) div 32)]" for other
    by (intro map_cong refl) (auto simp: concat_digest_def unat_word32 simp del: word_of_nat_eq_iff)
  note digests = this
  let ?o = "concat_other algID apu apv keyLen"
  have "concat_loop z ?o (nat keyLen) 1 [] =
      concat (map (\<lambda>i. concat_digest z ?o (word_of_nat i)) [1..<Suc ((nat keyLen + 31) div 32)])"
    using concat_loop_blocks [of z ?o "nat keyLen" 1 "[]"] by (simp del: upt_Suc)
  then show ?thesis
    using assms by (simp only: digests ConcatKDF_def sp800_56a_def) simp
qed

lemma length_ConcatKDF: "ConcatKDF z a u v n = Inr k \<Longrightarrow> length k = nat n"
proof -
  have "nat n \<le> length (concat_loop z p (nat n) i out)" for p i out
    by (induction z p "nat n" i out rule: concat_loop.induct) (subst concat_loop.simps, simp)
  then have "nat n \<le> length (concat_loop z p (nat n) 1 [])" for p by blast
  then show "ConcatKDF z a u v n = Inr k \<Longrightarrow> length k = nat n"
    by (auto simp: ConcatKDF_def min_absorb2 split: if_splits)
qed

text \<open>The length prefixes make the \<^verbatim>\<open>OtherInfo\<close> encoding injective.\<close>

lemma lengthPrefixed_append_inj:
  assumes "length a < 2 ^ 32" "length b < 2 ^ 32"
    and "lengthPrefixed a @ x = lengthPrefixed b @ y"
  shows "a = b \<and> x = y"
proof -
  from assms(3) have p: "be_bytes 4 (unat (word_of_nat (length a) :: u32)) =
      be_bytes 4 (unat (word_of_nat (length b) :: u32))" and r: "a @ x = b @ y"
    by (simp_all add: lengthPrefixed_def)
  then have "length a = length b"
    using assms(1,2) by (intro be_bytes_inj [of _ 4]) (simp_all add: unat_word32)
  with r show ?thesis by simp
qed

lemma concat_other_inj:
  assumes "length a < 2 ^ 32" "length u < 2 ^ 32" "length v < 2 ^ 32"
    and "length a' < 2 ^ 32" "length u' < 2 ^ 32" "length v' < 2 ^ 32"
    and "0 \<le> n" "n < 2 ^ 29" "0 \<le> n'" "n' < 2 ^ 29"
    and "concat_other a u v n = concat_other a' u' v' n'"
  shows "a = a' \<and> u = u' \<and> v = v' \<and> n = n'"
proof -
  let ?k = "\<lambda>m. be_bytes 4 (unat (word_of_int m * 8 :: u32))"
  note inj = lengthPrefixed_append_inj
  have a: "bytes_of_string a = bytes_of_string a'" and r: "lengthPrefixed u @ lengthPrefixed v @ ?k n =
      lengthPrefixed u' @ lengthPrefixed v' @ ?k n'"
    using inj [OF _ _ assms(11) [unfolded concat_other_def]] assms(1,4) by simp_all
  have u: "u = u'" and r': "lengthPrefixed v @ ?k n = lengthPrefixed v' @ ?k n'"
    using inj [OF assms(2,5) r] by simp_all
  have v: "v = v'" and k: "?k n = ?k n'"
    using inj [OF assms(3,6) r'] by simp_all
  have w: "unat (word_of_int m * 8 :: u32) = nat m * 8" if "0 \<le> m" "m < 2 ^ 29" for m
  proof -
    have "(word_of_int m * 8 :: u32) = word_of_nat (nat m * 8)" using that by simp
    moreover have "nat m < 2 ^ 29" using that by simp
    then have "nat m * 8 < 2 ^ 32" by simp
    ultimately show ?thesis by (simp only: unat_word32)
  qed
  have "nat n * 8 = nat n' * 8"
    using k assms(7-10) by (intro be_bytes_inj [of _ 4]) (simp_all add: w)
  with a u v assms(7-10) show ?thesis by simp
qed

section \<open>Properties\<close>

text \<open>
  (C5) \<open>PBKDF2\<close> is the function of RFC 8018, section 5.2: the first \<open>n\<close> octets of the blocks
  \<open>F (P, S, c, 1), F (P, S, c, 2), ...\<close>, for every length the RFC allows.
\<close>

theorem PBKDF2_rfc8018:
  assumes "0 < c" "0 < n" "n \<le> (2 ^ 32 - 1) * int (hash_size h)"
  shows "PBKDF2 pw salt c n h =
    Inr (take (nat n) (concat (map (rfc8018_F (hmac h pw) salt (nat c))
                                 [1..<Suc ((nat n + hash_size h - 1) div hash_size h)])))"
proof -
  let ?l = "hash_size h"
  have "nat n \<le> 4294967295 * ?l" using assms by (simp add: nat_le_iff)
  then have "nat n + ?l - 1 < 4294967296 * ?l" using hash_size_pos [of h] by linarith
  then have "nat n + ?l - 1 < 2 ^ 32 * ?l" by simp
  then have "(nat n + ?l - 1) div ?l < 2 ^ 32" by (simp add: less_mult_imp_div_less)
  then have "map (pbkdf2_block (hmac h pw) salt (nat c)) [1..<Suc ((nat n + ?l - 1) div ?l)] =
      map (rfc8018_F (hmac h pw) salt (nat c)) [1..<Suc ((nat n + ?l - 1) div ?l)]"
    using assms by (intro map_cong refl pbkdf2_block_F) auto
  then show ?thesis using assms by (simp only: PBKDF2_def Let_def) simp
qed

lemma PBKDF2_rfc8018_witness:
  "PBKDF2 (bytes_of_string ''pw'') [1, 2] 1000 16 SHA256 =
    Inr (take 16 (concat (map (rfc8018_F (hmac SHA256 (bytes_of_string ''pw'')) [1, 2] 1000) [1])))"
  using PBKDF2_rfc8018 [of 1000 16 SHA256 "bytes_of_string ''pw''" "[1, 2]"] by simp



text \<open>
  (C7) Key separation of the Concat KDF: two derivations that hash the same \<open>OtherInfo\<close> agree on
  the algorithm name, both party infos and the key length, so no octet moves from one field to
  the next.
\<close>

theorem ConcatKDF_binds_context:
  assumes "length alg < 2 ^ 32" "length apu < 2 ^ 32" "length apv < 2 ^ 32"
    and "length alg' < 2 ^ 32" "length apu' < 2 ^ 32" "length apv' < 2 ^ 32"
    and "0 \<le> n" "n < 2 ^ 29" "0 \<le> n'" "n' < 2 ^ 29"
    and "concat_other alg apu apv n = concat_other alg' apu' apv' n'"
  shows "(alg, apu, apv, n) = (alg', apu', apv', n')"
  using concat_other_inj [OF assms] by simp

lemma ConcatKDF_binds_context_witness:
  "\<exists>apu apv. concat_other ''A128GCM'' apu apv 16 = concat_other ''A128GCM'' [1] [2, 3] 16 \<and>
     (''A128GCM'', apu, apv, 16 :: int) = (''A128GCM'', [1], [2, 3], 16)"
  using ConcatKDF_binds_context [of "''A128GCM''" "[1]" "[2, 3]" "''A128GCM''" "[1]" "[2, 3]" 16 16]
  by auto

text \<open>
  (C8) Binding the PBES2 algorithm name into the salt: for names without a NUL octet, equal salt
  inputs come from the same algorithm and the same salt.
\<close>

theorem pbes2SaltInput_binds:
  assumes "CHR 0x00 \<notin> set alg" "CHR 0x00 \<notin> set alg'"
    and "pbes2SaltInput alg p2s = pbes2SaltInput alg' p2s'"
  shows "alg = alg' \<and> p2s = p2s'"
  using assms by (rule pbes2SaltInput_inj)

lemma pbes2SaltInput_binds_witness:
  "pbes2SaltInput ''A'' [0, 1] = pbes2SaltInput ''A'' [0, 1] \<and> ''A'' = ''A'' \<and> [0, 1 :: u8] = [0, 1]"
  using pbes2SaltInput_binds [of "''A''" "''A''" "[0, 1]" "[0, 1]"] by simp

end
