(* ===== verification/ContentEnc.thy ===== *)
theory ContentEnc
  imports Errors Hash
begin

text \<open>
  \<^verbatim>\<open>src/contentenc.go\<close>: authenticated content encryption, AES-GCM and AES-CBC-HMAC-SHA2.
  First Go's \<^verbatim>\<open>crypto/cipher\<close> modes that the file calls (CBC and GCM over the block cipher),
  then the file's own table, padding, tag and entry points. \<open>encrypt\<close> draws the IV from the
  random source it is given and returns what is left of it. The locale \<open>aead\<close> is the
  contract of both constructions: opening undoes sealing and accepts nothing else.
\<close>

section \<open>The contract of authenticated encryption\<close>

locale aead =
  fixes key_ok iv_ok :: "bytes \<Rightarrow> bool"
    and seal :: "bytes \<Rightarrow> bytes \<Rightarrow> bytes \<Rightarrow> bytes \<Rightarrow> bytes \<times> bytes"
    and unseal :: "bytes \<Rightarrow> bytes \<Rightarrow> bytes \<Rightarrow> bytes \<Rightarrow> bytes \<Rightarrow> bytes res"
  assumes unseal_seal:
      "key_ok k \<Longrightarrow> iv_ok iv \<Longrightarrow> seal k iv p aad = (c, t) \<Longrightarrow> unseal k iv c t aad = Inr p"
    and seal_unseal:
      "key_ok k \<Longrightarrow> iv_ok iv \<Longrightarrow> unseal k iv c t aad = Inr p \<Longrightarrow> seal k iv p aad = (c, t)"
begin

lemma unseal_iff:
  "key_ok k \<Longrightarrow> iv_ok iv \<Longrightarrow> unseal k iv c t aad = Inr p \<longleftrightarrow> seal k iv p aad = (c, t)"
  using unseal_seal seal_unseal by blast

lemma seal_inj:
  "key_ok k \<Longrightarrow> iv_ok iv \<Longrightarrow> seal k iv p aad = seal k iv q aad \<longleftrightarrow> p = q"
  by (metis Inr_inject surj_pair unseal_seal)

end

section \<open>crypto/cipher: CBC\<close>

fun cbc_enc :: "(bytes \<Rightarrow> bytes) \<Rightarrow> bytes \<Rightarrow> bytes list \<Rightarrow> bytes list" where
  "cbc_enc enc prev [] = []"
| "cbc_enc enc prev (b # bs) = (let c = enc (xor_bytes b prev) in c # cbc_enc enc c bs)"

fun cbc_dec :: "(bytes \<Rightarrow> bytes) \<Rightarrow> bytes \<Rightarrow> bytes list \<Rightarrow> bytes list" where
  "cbc_dec dec prev [] = []"
| "cbc_dec dec prev (c # cs) = xor_bytes (dec c) prev # cbc_dec dec c cs"

definition cbc_encrypt :: "(bytes \<Rightarrow> bytes) \<Rightarrow> bytes \<Rightarrow> bytes \<Rightarrow> bytes" where
  "cbc_encrypt enc iv p = concat (cbc_enc enc iv (chunks 16 p))"

definition cbc_decrypt :: "(bytes \<Rightarrow> bytes) \<Rightarrow> bytes \<Rightarrow> bytes \<Rightarrow> bytes" where
  "cbc_decrypt dec iv c = concat (cbc_dec dec iv (chunks 16 c))"

section \<open>crypto/cipher: GCM with a 96-bit nonce and a 128-bit tag\<close>

text \<open>Multiplication in the field of \<open>2 ^ 128\<close> elements, most significant bit first.\<close>

fun gmul_loop :: "nat \<Rightarrow> 128 word \<Rightarrow> 128 word \<Rightarrow> 128 word \<Rightarrow> 128 word" where
  "gmul_loop 0 x v z = z"
| "gmul_loop (Suc n) x v z =
     gmul_loop n x
       (if bit v 0 then xor (drop_bit 1 v) (push_bit 120 0xE1) else drop_bit 1 v)
       (if bit x n then xor z v else z)"

definition gmul :: "128 word \<Rightarrow> 128 word \<Rightarrow> 128 word" where
  "gmul x y = gmul_loop 128 x y 0"

definition ghash :: "128 word \<Rightarrow> bytes \<Rightarrow> 128 word" where
  "ghash h d = foldl (\<lambda>y blk. gmul (xor y (word_of_nat (be_nat blk))) h) 0 (chunks 16 d)"

definition pad16 :: "bytes \<Rightarrow> bytes" where
  "pad16 d = d @ replicate ((16 - length d mod 16) mod 16) 0"

definition gcm_keystream :: "(bytes \<Rightarrow> bytes) \<Rightarrow> bytes \<Rightarrow> nat \<Rightarrow> bytes" where
  "gcm_keystream enc iv n =
     take n (concat (map (\<lambda>i. enc (iv @ be_bytes 4 (i + 2))) [0..<(n + 15) div 16]))"

definition gcm_tag :: "(bytes \<Rightarrow> bytes) \<Rightarrow> bytes \<Rightarrow> bytes \<Rightarrow> bytes \<Rightarrow> bytes" where
  "gcm_tag enc iv c aad =
     xor_bytes (enc (iv @ [0, 0, 0, 1]))
       (be_bytes 16 (unat (ghash (word_of_nat (be_nat (enc (replicate 16 0))))
          (pad16 aad @ pad16 c @ be_bytes 8 (8 * length aad) @ be_bytes 8 (8 * length c)))))"

definition gcm_seal :: "bytes \<Rightarrow> bytes \<Rightarrow> bytes \<Rightarrow> bytes \<Rightarrow> bytes \<times> bytes" where
  "gcm_seal key iv p aad =
     (let enc = aes_encrypt key;
          c = xor_bytes p (gcm_keystream enc iv (length p))
      in (c, gcm_tag enc iv c aad))"

definition gcm_open :: "bytes \<Rightarrow> bytes \<Rightarrow> bytes \<Rightarrow> bytes \<Rightarrow> bytes \<Rightarrow> bytes option" where
  "gcm_open key iv c t aad =
     (let enc = aes_encrypt key
      in if t = gcm_tag enc iv c aad then Some (xor_bytes c (gcm_keystream enc iv (length c)))
         else None)"

section \<open>contentenc.go: the table\<close>

record contentEnc =
  ce_name :: string
  ce_keySize :: nat
  ce_gcm :: bool
  ce_newHash :: "hash_fn option"

definition A128CBC_HS256 :: string where "A128CBC_HS256 = ''A128CBC-HS256''"
definition A192CBC_HS384 :: string where "A192CBC_HS384 = ''A192CBC-HS384''"
definition A256CBC_HS512 :: string where "A256CBC_HS512 = ''A256CBC-HS512''"
definition A128GCM :: string where "A128GCM = ''A128GCM''"
definition A192GCM :: string where "A192GCM = ''A192GCM''"
definition A256GCM :: string where "A256GCM = ''A256GCM''"

lemmas enc_names = A128CBC_HS256_def A192CBC_HS384_def A256CBC_HS512_def A128GCM_def
  A192GCM_def A256GCM_def

definition contentEncs :: "(string \<times> contentEnc) list" where
  "contentEncs =
     [(A128CBC_HS256, \<lparr>ce_name = A128CBC_HS256, ce_keySize = 32, ce_gcm = False, ce_newHash = Some SHA256\<rparr>),
      (A192CBC_HS384, \<lparr>ce_name = A192CBC_HS384, ce_keySize = 48, ce_gcm = False, ce_newHash = Some SHA384\<rparr>),
      (A256CBC_HS512, \<lparr>ce_name = A256CBC_HS512, ce_keySize = 64, ce_gcm = False, ce_newHash = Some SHA512\<rparr>),
      (A128GCM, \<lparr>ce_name = A128GCM, ce_keySize = 16, ce_gcm = True, ce_newHash = None\<rparr>),
      (A192GCM, \<lparr>ce_name = A192GCM, ce_keySize = 24, ce_gcm = True, ce_newHash = None\<rparr>),
      (A256GCM, \<lparr>ce_name = A256GCM, ce_keySize = 32, ce_gcm = True, ce_newHash = None\<rparr>)]"

definition ContentEncryptionAlgorithms :: "string list" where
  "ContentEncryptionAlgorithms = sort (map fst contentEncs)"

definition ContentEncryptionKeySize :: "string \<Rightarrow> nat res" where
  "ContentEncryptionKeySize enc =
     (case map_of contentEncs enc of
        None \<Rightarrow> Inl ErrUnsupportedEncryption
      | Some ce \<Rightarrow> Inr (ce_keySize ce))"

definition lookupEnc :: "string \<Rightarrow> contentEnc res" where
  "lookupEnc enc =
     (case map_of contentEncs enc of
        None \<Rightarrow> Inl ErrUnsupportedEncryption
      | Some ce \<Rightarrow> Inr ce)"

section \<open>contentenc.go: AES-GCM\<close>

definition encryptGCM :: "contentEnc \<Rightarrow> bytes \<Rightarrow> bytes \<Rightarrow> bytes \<Rightarrow> entropy \<Rightarrow>
    ((bytes \<times> bytes \<times> bytes) \<times> entropy) res" where
  "encryptGCM ce cek plaintext aad w =
     (if \<not> aes_key_ok cek then Inl ErrInvalidKey
      else
        let (iv, w') = rand_read 12 w;
            (c, t) = gcm_seal cek iv plaintext aad
        in Inr ((iv, c, t), w'))"

definition decryptGCM :: "contentEnc \<Rightarrow> bytes \<Rightarrow> bytes \<Rightarrow> bytes \<Rightarrow> bytes \<Rightarrow> bytes \<Rightarrow> bytes res" where
  "decryptGCM ce cek iv ciphertext tag aad =
     (if \<not> aes_key_ok cek then Inl ErrInvalidKey
      else if length iv \<noteq> 12 \<or> length tag \<noteq> 16 then Inl ErrDecryptFailed
      else case gcm_open cek iv ciphertext tag aad of
          None \<Rightarrow> Inl ErrDecryptFailed
        | Some p \<Rightarrow> Inr p)"

section \<open>contentenc.go: AES-CBC-HMAC-SHA2\<close>

definition cbcSplit :: "bytes \<Rightarrow> bytes \<times> bytes" where
  "cbcSplit cek = (let h = length cek div 2 in (take h cek, drop h cek))"

definition cbcAL :: "bytes \<Rightarrow> bytes" where
  "cbcAL aad = be_bytes 8 (unat (word_of_nat (length aad) * 8 :: u64))"

definition cbcTag :: "hash_fn \<Rightarrow> bytes \<Rightarrow> bytes \<Rightarrow> bytes \<Rightarrow> bytes \<Rightarrow> bytes" where
  "cbcTag newHash macKey iv ciphertext aad =
     take (length macKey) (hmac newHash macKey (aad @ iv @ ciphertext @ cbcAL aad))"

definition pkcs7Pad :: "bytes \<Rightarrow> nat \<Rightarrow> bytes" where
  "pkcs7Pad b blockSize =
     (let n = blockSize - length b mod blockSize in b @ replicate n (octet n))"

definition pkcs7Unpad :: "bytes \<Rightarrow> nat \<Rightarrow> bytes option" where
  "pkcs7Unpad b blockSize =
     (if length b = 0 \<or> length b mod blockSize \<noteq> 0 then None
      else
        let n = unat (last b)
        in if n = 0 \<or> n > blockSize \<or> n > length b then None
           else
             let bad = foldl (\<lambda>acc x. or acc (xor x (octet n))) 0 (drop (length b - n) b)
             in if bad \<noteq> 0 then None else Some (take (length b - n) b))"

text \<open>The part of \<^verbatim>\<open>encryptCBCHMAC\<close> after the IV is drawn, and the part of
  \<^verbatim>\<open>decryptCBCHMAC\<close> after the length checks.\<close>

definition cbc_seal :: "hash_fn \<Rightarrow> bytes \<Rightarrow> bytes \<Rightarrow> bytes \<Rightarrow> bytes \<Rightarrow> bytes \<times> bytes" where
  "cbc_seal newHash cek iv plaintext aad =
     (let (macKey, encKey) = cbcSplit cek;
          padded = pkcs7Pad plaintext 16;
          ciphertext = cbc_encrypt (aes_encrypt encKey) iv padded
      in (ciphertext, cbcTag newHash macKey iv ciphertext aad))"

definition cbc_open :: "hash_fn \<Rightarrow> bytes \<Rightarrow> bytes \<Rightarrow> bytes \<Rightarrow> bytes \<Rightarrow> bytes \<Rightarrow> bytes res" where
  "cbc_open newHash cek iv ciphertext tag aad =
     (let (macKey, encKey) = cbcSplit cek
      in if tag \<noteq> cbcTag newHash macKey iv ciphertext aad then Inl ErrDecryptFailed
         else if \<not> aes_key_ok encKey then Inl ErrInvalidKey
         else
           let padded = cbc_decrypt (aes_decrypt encKey) iv ciphertext
           in case pkcs7Unpad padded 16 of
                None \<Rightarrow> Inl ErrDecryptFailed
              | Some p \<Rightarrow> Inr p)"

definition encryptCBCHMAC :: "contentEnc \<Rightarrow> bytes \<Rightarrow> bytes \<Rightarrow> bytes \<Rightarrow> entropy \<Rightarrow>
    ((bytes \<times> bytes \<times> bytes) \<times> entropy) res" where
  "encryptCBCHMAC ce cek plaintext aad w =
     (if \<not> aes_key_ok (snd (cbcSplit cek)) then Inl ErrInvalidKey
      else
        let (iv, w') = rand_read 16 w
        in case ce_newHash ce of
             None \<Rightarrow> Inl Panic
           | Some newHash \<Rightarrow>
               let (c, t) = cbc_seal newHash cek iv plaintext aad in Inr ((iv, c, t), w'))"

definition decryptCBCHMAC :: "contentEnc \<Rightarrow> bytes \<Rightarrow> bytes \<Rightarrow> bytes \<Rightarrow> bytes \<Rightarrow> bytes \<Rightarrow> bytes res" where
  "decryptCBCHMAC ce cek iv ciphertext tag aad =
     (if length iv \<noteq> 16 \<or> length ciphertext = 0 \<or> length ciphertext mod 16 \<noteq> 0
      then Inl ErrDecryptFailed
      else case ce_newHash ce of
          None \<Rightarrow> Inl Panic
        | Some newHash \<Rightarrow> cbc_open newHash cek iv ciphertext tag aad)"

section \<open>contentenc.go: the entry points\<close>

definition encrypt :: "contentEnc \<Rightarrow> bytes \<Rightarrow> bytes \<Rightarrow> bytes \<Rightarrow> entropy \<Rightarrow>
    ((bytes \<times> bytes \<times> bytes) \<times> entropy) res" where
  "encrypt ce cek plaintext aad w =
     (if length cek \<noteq> ce_keySize ce then Inl ErrInvalidKey
      else if ce_gcm ce then encryptGCM ce cek plaintext aad w
      else encryptCBCHMAC ce cek plaintext aad w)"

definition decrypt :: "contentEnc \<Rightarrow> bytes \<Rightarrow> bytes \<Rightarrow> bytes \<Rightarrow> bytes \<Rightarrow> bytes \<Rightarrow> bytes res" where
  "decrypt ce cek iv ciphertext tag aad =
     (if length cek \<noteq> ce_keySize ce then Inl ErrInvalidKey
      else if ce_gcm ce then decryptGCM ce cek iv ciphertext tag aad
      else decryptCBCHMAC ce cek iv ciphertext tag aad)"

section \<open>Lemmas on the modes\<close>

lemma length_cbc [simp]: "length (cbc_enc enc iv bs) = length bs" "length (cbc_dec dec iv bs) = length bs"
  by (induction bs arbitrary: iv) (simp_all add: Let_def)

context block_cipher
begin

lemma cbc_enc_blocks:
  assumes "key_ok k" "\<forall>b \<in> set bs. length b = 16" "length iv = 16"
  shows "(\<forall>b \<in> set (cbc_enc (enc k) iv bs). length b = 16) \<and>
         cbc_dec (dec k) iv (cbc_enc (enc k) iv bs) = bs"
  using assms(2,3)
proof (induction bs arbitrary: iv)
  case Nil
  then show ?case by simp
next
  case (Cons b bs)
  then have c: "length (enc k (xor_bytes b iv)) = 16"
      "xor_bytes (dec k (enc k (xor_bytes b iv))) iv = b"
    using assms(1) by (simp_all add: block_laws)
  with Cons show ?case by (simp add: Let_def)
qed

lemma cbc_dec_blocks:
  assumes "key_ok k" "\<forall>b \<in> set bs. length b = 16" "length iv = 16"
  shows "(\<forall>b \<in> set (cbc_dec (dec k) iv bs). length b = 16) \<and>
         cbc_enc (enc k) iv (cbc_dec (dec k) iv bs) = bs"
  using assms(2,3)
proof (induction bs arbitrary: iv)
  case Nil
  then show ?case by simp
next
  case (Cons c bs)
  then have d: "length (dec k c) = 16" "enc k (xor_bytes (xor_bytes (dec k c) iv) iv) = c"
    using assms(1) by (simp_all add: block_laws)
  with Cons.IH [of c] Cons.prems show ?case by (simp add: Let_def)
qed

lemma cbc_inverse:
  assumes "key_ok k" "length p mod 16 = 0" "length iv = 16"
  shows "cbc_decrypt (dec k) iv (cbc_encrypt (enc k) iv p) = p"
    and "cbc_encrypt (enc k) iv (cbc_decrypt (dec k) iv p) = p"
    and "length (cbc_encrypt (enc k) iv p) = length p"
    and "length (cbc_decrypt (dec k) iv p) = length p"
proof -
  from assms(2) obtain m where m: "length p = 16 * m" by (meson dvdE mod_0_imp_dvd)
  have bs: "\<forall>b \<in> set (chunks 16 p). length b = 16" "length (chunks 16 p) = m"
    using chunks_even [of 16 p m] m by auto
  note l = cbc_enc_blocks [OF assms(1) bs(1) assms(3)] cbc_dec_blocks [OF assms(1) bs(1) assms(3)]
  show "cbc_decrypt (dec k) iv (cbc_encrypt (enc k) iv p) = p"
    "cbc_encrypt (enc k) iv (cbc_decrypt (dec k) iv p) = p"
    using l by (simp_all add: cbc_decrypt_def cbc_encrypt_def chunks_concat)
  have "length (concat xs) = 16 * length xs" if "\<forall>b \<in> set xs. length b = 16" for xs :: "bytes list"
    using that by (induction xs) simp_all
  then show "length (cbc_encrypt (enc k) iv p) = length p"
    "length (cbc_decrypt (dec k) iv p) = length p"
    using l bs(2) m by (simp_all add: cbc_decrypt_def cbc_encrypt_def)
qed

end

lemma length_gcm_keystream:
  "aes_key_ok k \<Longrightarrow> length iv = 12 \<Longrightarrow> length (gcm_keystream (aes_encrypt k) iv n) = n"
proof -
  assume k: "aes_key_ok k" "length iv = 12"
  then have "length (aes_encrypt k (iv @ be_bytes 4 v)) = 16" for v
    by (simp add: aes.block_laws)
  then have "length (concat (map (\<lambda>i. aes_encrypt k (iv @ be_bytes 4 (i + 2))) xs)) = 16 * length xs" for xs
    by (induction xs) simp_all
  moreover have "n \<le> 16 * ((n + 15) div 16)" by simp
  ultimately show ?thesis by (simp add: gcm_keystream_def min_absorb2)
qed

lemma gcm_open_seal:
  assumes "aes_key_ok k" "length iv = 12"
  shows "gcm_open k iv c t aad = Some p \<longleftrightarrow> gcm_seal k iv p aad = (c, t)"
proof -
  note ks = length_gcm_keystream [OF assms]
  have "xor_bytes (xor_bytes x (gcm_keystream (aes_encrypt k) iv (length x)))
      (gcm_keystream (aes_encrypt k) iv (length x)) = x" for x by (simp add: ks)
  moreover have "length (xor_bytes x (gcm_keystream (aes_encrypt k) iv (length x))) = length x" for x
    by (simp add: ks)
  ultimately show ?thesis by (auto simp: gcm_open_def gcm_seal_def Let_def)
qed

lemma length_gcm_tag:
  "aes_key_ok k \<Longrightarrow> length iv = 12 \<Longrightarrow> length (gcm_tag (aes_encrypt k) iv c aad) = 16"
  by (simp add: gcm_tag_def aes.block_laws)

section \<open>Lemmas on the padding\<close>

lemma foldl_or_zero:
  "foldl (\<lambda>acc x. or acc (f x)) a xs = (0 :: u8) \<longleftrightarrow> a = 0 \<and> (\<forall>x \<in> set xs. f x = 0)"
  by (induction xs arbitrary: a) (auto simp: or_eq_0_iff)

lemma xor_eq_0: "xor a b = (0 :: u8) \<longleftrightarrow> a = b"
  by (metis xor.right_neutral xor_self_eq xor.assoc)

lemma length_pkcs7Pad:
  "0 < blockSize \<Longrightarrow> length (pkcs7Pad p blockSize) mod blockSize = 0"
  "0 < blockSize \<Longrightarrow> length p < length (pkcs7Pad p blockSize)"
  "0 < blockSize \<Longrightarrow> length (pkcs7Pad p blockSize) \<le> length p + blockSize"
proof -
  assume b: "0 < blockSize"
  have "length p mod blockSize < blockSize" using b by simp
  then have "length p + (blockSize - length p mod blockSize) = length p - length p mod blockSize + blockSize"
    by (simp add: mod_less_eq_dividend)
  then have "length p + (blockSize - length p mod blockSize) = length p div blockSize * blockSize + blockSize"
    by (simp only: minus_mod_eq_div_mult)
  then show "length (pkcs7Pad p blockSize) mod blockSize = 0"
    by (simp add: pkcs7Pad_def Let_def)
  show "length p < length (pkcs7Pad p blockSize)" "length (pkcs7Pad p blockSize) \<le> length p + blockSize"
    using \<open>length p mod blockSize < blockSize\<close>
    unfolding pkcs7Pad_def Let_def length_append length_replicate by linarith+
qed

lemma pkcs7Unpad_iff:
  assumes "0 < blockSize" "blockSize < 256"
  shows "pkcs7Unpad b blockSize = Some p \<longleftrightarrow> b = pkcs7Pad p blockSize"
proof
  assume u: "pkcs7Unpad b blockSize = Some p"
  define n where "n = unat (last b)"
  from u have b: "length b mod blockSize = 0" "0 < n" "n \<le> blockSize" "n \<le> length b"
    and bad: "\<forall>x \<in> set (drop (length b - n) b). x = octet n"
    and p: "p = take (length b - n) b"
    by (auto simp: pkcs7Unpad_def Let_def n_def foldl_or_zero xor_eq_0 split: if_splits)
  have "drop (length b - n) b = replicate n (octet n)"
    using bad b by (intro replicate_eqI) auto
  moreover have "blockSize - length p mod blockSize = n"
  proof -
    from b(1) obtain m where m: "length b = blockSize * m" by (meson dvdE mod_0_imp_dvd)
    with b have "0 < m" by (cases m) auto
    then obtain m' where "m = Suc m'" by (cases m) auto
    with m b have lp: "length p = blockSize * m' + (blockSize - n)" by (simp add: p)
    have "length p mod blockSize = blockSize - n"
      unfolding lp mod_mult_self4 using b by simp
    then show ?thesis using b by simp
  qed
  ultimately show "b = pkcs7Pad p blockSize"
    by (simp add: pkcs7Pad_def p) (metis append_take_drop_id)
next
  assume b: "b = pkcs7Pad p blockSize"
  define n where "n = blockSize - length p mod blockSize"
  have n: "0 < n" "n \<le> blockSize" using assms by (simp_all add: n_def)
  have e: "b = p @ replicate n (octet n)" by (simp add: b pkcs7Pad_def n_def Let_def)
  have "length b mod blockSize = 0" using assms by (simp add: b length_pkcs7Pad)
  moreover have "unat (last b) = n" using n assms by (simp add: e)
  ultimately show "pkcs7Unpad b blockSize = Some p"
    using n by (auto simp: pkcs7Unpad_def Let_def foldl_or_zero xor_eq_0 e)
qed

section \<open>The two constructions meet the contract\<close>

lemma gcm_seal_tag: "aes_key_ok k \<Longrightarrow> length iv = 12 \<Longrightarrow> gcm_seal k iv p aad = (c, t) \<Longrightarrow> length t = 16"
  by (auto simp: gcm_seal_def Let_def length_gcm_tag)

lemma decryptGCM_seal:
  assumes "aes_key_ok k" "length iv = 12"
  shows "decryptGCM ce k iv c t aad = Inr p \<longleftrightarrow> gcm_seal k iv p aad = (c, t)"
  using assms gcm_open_seal [OF assms, of c t aad p] gcm_seal_tag [OF assms, of p aad c t]
  by (auto simp: decryptGCM_def split: option.splits)

interpretation gcm: aead aes_key_ok "\<lambda>iv. length iv = 12" gcm_seal "decryptGCM ce" for ce
  by unfold_locales (simp_all add: decryptGCM_seal)

lemma cbc_seal_open:
  assumes k: "aes_key_ok (snd (cbcSplit k))" and iv: "length iv = 16"
    and c: "length c mod 16 = 0"
  shows "cbc_open h k iv c t aad = Inr p \<longleftrightarrow> cbc_seal h k iv p aad = (c, t)"
proof -
  obtain mk ek where s: "cbcSplit k = (mk, ek)" by (cases "cbcSplit k")
  with k have ek: "aes_key_ok ek" by simp
  note inv = aes.cbc_inverse [OF ek _ iv]
  have "cbc_decrypt (aes_decrypt ek) iv c = pkcs7Pad p 16 \<longleftrightarrow>
      cbc_encrypt (aes_encrypt ek) iv (pkcs7Pad p 16) = c"
    using inv [OF c] inv [OF length_pkcs7Pad(1) [of 16 p]] by auto
  then show ?thesis
    using ek pkcs7Unpad_iff [of 16 "cbc_decrypt (aes_decrypt ek) iv c" p]
    by (auto simp: cbc_open_def cbc_seal_def s Let_def split: option.splits if_splits)
qed

lemma cbc_seal_length:
  assumes "aes_key_ok (snd (cbcSplit k))" "length iv = 16" "cbc_seal h k iv p aad = (c, t)"
  shows "length c mod 16 = 0 \<and> c \<noteq> []"
proof -
  obtain mk ek where s: "cbcSplit k = (mk, ek)" by (cases "cbcSplit k")
  then have "length c = length (pkcs7Pad p 16)"
    using assms aes.cbc_inverse(3) [of ek "pkcs7Pad p 16" iv] length_pkcs7Pad(1) [of 16 p]
    by (auto simp: cbc_seal_def Let_def)
  then show ?thesis using length_pkcs7Pad [of 16 p] by (metis length_greater_0_conv less_zeroE
        list.size(3) zero_less_numeral)
qed

interpretation cbc: aead "\<lambda>k. aes_key_ok (snd (cbcSplit k))" "\<lambda>iv. length iv = 16" "cbc_seal h"
    "decryptCBCHMAC (ce\<lparr>ce_newHash := Some h\<rparr>)" for ce h
  by unfold_locales
    (auto simp: decryptCBCHMAC_def cbc_seal_open dest: cbc_seal_length split: if_splits)

section \<open>The supported algorithms\<close>

lemma contentEncs_cases:
  assumes "lookupEnc name = Inr ce"
  obtains h where "ce_gcm ce = False" "ce_newHash ce = Some h" "ce_keySize ce = 2 * hash_size h div 2"
      "ce_keySize ce \<in> {32, 48, 64}"
    | "ce_gcm ce = True" "ce_keySize ce \<in> {16, 24, 32}"
  using assms
  by (auto simp: lookupEnc_def contentEncs_def split: option.splits if_splits)

lemma lookupEnc_name: "lookupEnc name = Inr ce \<Longrightarrow> ce_name ce = name"
  by (auto simp: lookupEnc_def contentEncs_def split: option.splits if_splits)

lemma lookupEnc_keySize: "lookupEnc name = Inr ce \<Longrightarrow> 16 \<le> ce_keySize ce \<and> ce_keySize ce mod 8 = 0"
  by (auto simp: lookupEnc_def contentEncs_def split: option.splits if_splits)

lemma cbc_key: "length cek \<in> {32, 48, 64} \<Longrightarrow> aes_key_ok (snd (cbcSplit cek))"
  by (auto simp: cbcSplit_def Let_def aes_key_ok_def)

lemma gcm_key: "length cek \<in> {16, 24, 32} \<Longrightarrow> aes_key_ok cek"
  by (auto simp: aes_key_ok_def)

lemma rand_read_iv: "rand_read (length iv) (\<lambda>i. iv ! i) = (iv, \<lambda>i. iv ! (length iv + i))"
  by (simp add: rand_read_def map_nth)

lemma ce_newHash_id: "ce_newHash ce = Some h \<Longrightarrow> ce\<lparr>ce_newHash := Some h\<rparr> = (ce :: contentEnc)"
  by (cases ce) simp

lemma rand_read_ex: "(\<exists>w w'. rand_read n w = (iv, w')) \<longleftrightarrow> length iv = n"
  using rand_read_iv [of iv] length_rand_read [of n] by (metis fst_conv)

lemma encryptCBCHMAC_iff:
  assumes "aes_key_ok (snd (cbcSplit cek))" "ce_newHash ce = Some h"
  shows "encryptCBCHMAC ce cek p aad w = Inr ((iv, c, t), w') \<longleftrightarrow>
    rand_read 16 w = (iv, w') \<and> cbc_seal h cek iv p aad = (c, t)"
  using assms by (cases "rand_read 16 w") (auto simp: encryptCBCHMAC_def Let_def split: prod.splits)

lemma encryptGCM_iff:
  assumes "aes_key_ok cek"
  shows "encryptGCM ce cek p aad w = Inr ((iv, c, t), w') \<longleftrightarrow>
    rand_read 12 w = (iv, w') \<and> gcm_seal cek iv p aad = (c, t)"
  using assms by (cases "rand_read 12 w") (auto simp: encryptGCM_def Let_def split: prod.splits)

lemma decryptCBCHMAC_iff:
  assumes "aes_key_ok (snd (cbcSplit cek))" "ce_newHash ce = Some h"
  shows "decryptCBCHMAC ce cek iv c t aad = Inr p \<longleftrightarrow>
    length iv = 16 \<and> cbc_seal h cek iv p aad = (c, t)"
proof (cases "length iv = 16")
  case True
  then show ?thesis
    using cbc.unseal_iff [OF assms(1) True, where ce = ce and h = h and c = c and t = t
        and aad = aad and p = p] by (simp add: ce_newHash_id [OF assms(2)])
next
  case False
  then show ?thesis by (simp add: decryptCBCHMAC_def)
qed

lemma decryptGCM_iff:
  assumes "aes_key_ok cek"
  shows "decryptGCM ce cek iv c t aad = Inr p \<longleftrightarrow>
    length iv = 12 \<and> gcm_seal cek iv p aad = (c, t)"
proof (cases "length iv = 12")
  case True
  then show ?thesis
    using gcm.unseal_iff [OF assms True, where ce = ce and c = c and t = t and aad = aad and p = p]
    by simp
next
  case False
  with assms show ?thesis by (simp add: decryptGCM_def)
qed

lemma decrypt_iff_encrypt:
  assumes ce: "lookupEnc name = Inr ce" and len: "length cek = ce_keySize ce"
  shows "decrypt ce cek iv c t aad = Inr p \<longleftrightarrow>
    (\<exists>w w'. encrypt ce cek p aad w = Inr ((iv, c, t), w'))"
  using ce
proof (cases rule: contentEncs_cases)
  case (1 h)
  with len have k: "aes_key_ok (snd (cbcSplit cek))" by (simp add: cbc_key)
  show ?thesis
    using 1 len encryptCBCHMAC_iff [OF k 1(2)] decryptCBCHMAC_iff [OF k 1(2)] rand_read_ex [of 16 iv]
    by (simp add: decrypt_def encrypt_def)
next
  case 2
  with len have k: "aes_key_ok cek" by (simp add: gcm_key)
  show ?thesis
    using 2 len encryptGCM_iff [OF k] decryptGCM_iff [OF k] rand_read_ex [of 12 iv]
    by (simp add: decrypt_def encrypt_def)
qed

lemma encrypt_total:
  assumes ce: "lookupEnc name = Inr ce" and len: "length cek = ce_keySize ce"
  obtains iv c t w' where "encrypt ce cek p aad w = Inr ((iv, c, t), w')"
proof -
  have "\<exists>iv c t w'. encrypt ce cek p aad w = Inr ((iv, c, t), w')"
    using ce
  proof (cases rule: contentEncs_cases)
    case (1 h)
    with len show ?thesis
      by (auto simp: encrypt_def encryptCBCHMAC_def cbc_key split: prod.splits)
  next
    case 2
    with len show ?thesis by (auto simp: encrypt_def encryptGCM_def gcm_key split: prod.splits)
  qed
  with that show thesis by blast
qed

lemma decrypt_error:
  assumes ce: "lookupEnc name = Inr ce" and len: "length cek = ce_keySize ce"
    and e: "decrypt ce cek iv c t aad = Inl e"
  shows "e = ErrDecryptFailed"
  using ce
proof (cases rule: contentEncs_cases)
  case (1 h)
  then have "aes_key_ok (snd (cbcSplit cek))" using len by (simp add: cbc_key)
  with 1 e len show ?thesis
    by (auto simp: decrypt_def decryptCBCHMAC_def cbc_open_def Let_def split: if_splits option.splits prod.splits)
next
  case 2
  then have "aes_key_ok cek" using len by (simp add: gcm_key)
  with 2 e len show ?thesis
    by (auto simp: decrypt_def decryptGCM_def split: if_splits option.splits)
qed

section \<open>Properties\<close>

text \<open>
  (C9) Content encryption is exact for all six \<^verbatim>\<open>enc\<close> algorithms: with a key of the right
  length, a tuple decrypts to \<open>p\<close> if and only if encrypting \<open>p\<close>, with some random source,
  produces that very tuple. In particular decryption inverts encryption and no other tuple
  (another tag, IV, padding or additional data) is accepted for \<open>p\<close>.
\<close>

theorem content_decrypt_iff_encrypt:
  assumes "lookupEnc name = Inr ce" "length cek = ce_keySize ce"
  shows "decrypt ce cek iv c t aad = Inr p \<longleftrightarrow>
    (\<exists>w w'. encrypt ce cek p aad w = Inr ((iv, c, t), w'))"
  using assms by (rule decrypt_iff_encrypt)

lemma content_decrypt_iff_encrypt_witness:
  "\<exists>ce. lookupEnc ''A128CBC-HS256'' = Inr ce \<and>
    (\<forall>iv c t. decrypt ce (replicate 32 1) iv c t [9] = Inr [1, 2] \<longleftrightarrow>
      (\<exists>w w'. encrypt ce (replicate 32 1) [1, 2] [9] w = Inr ((iv, c, t), w')))"
proof -
  obtain ce where "lookupEnc ''A128CBC-HS256'' = Inr ce" "ce_keySize ce = 32"
    by (simp add: lookupEnc_def contentEncs_def enc_names)
  with content_decrypt_iff_encrypt [of "''A128CBC-HS256''" ce "replicate 32 1"] show ?thesis by auto
qed



text \<open>
  (C15) PKCS #7 unpadding inverts padding and accepts nothing else, for every block size below
  256.
\<close>

theorem pkcs7_exact:
  assumes "0 < blockSize" "blockSize < 256"
  shows "pkcs7Unpad b blockSize = Some p \<longleftrightarrow> b = pkcs7Pad p blockSize"
  using assms by (rule pkcs7Unpad_iff)

lemma pkcs7_exact_witness:
  "pkcs7Unpad [1, 2, 2, 2] 4 = Some [1, 2] \<and> pkcs7Pad [1, 2] 4 = [1, 2, 2, 2]"
  using pkcs7_exact [of 4 "[1, 2, 2, 2]" "[1, 2]"]
  by (simp add: pkcs7Pad_def octet_def numeral_2_eq_2)

end
