(* ===== verification/GoJson.thy ===== *)
theory GoJson
  imports Errors
begin

text \<open>
  Go's \<^verbatim>\<open>encoding/json\<close>, as far as the package uses it: the syntax tree of a document
  (\<open>json\<close>, members in document order, duplicates kept), the parser \<open>json_parse\<close> over octets,
  the dynamic values a \<^verbatim>\<open>map[string]any\<close> header holds (\<open>gval\<close>), the decoding of a tree into
  such a value (\<open>to_any\<close>) and the encoder \<open>json_marshal\<close>. A Go map is a list of pairs with
  strictly ascending keys, so equal maps are equal lists; \<open>map_put\<close> stores a member.
  Numbers decode to the nearest binary64 value, written \<open>F64 sign mantissa exponent\<close> with
  the mantissa odd or zero.
\<close>

section \<open>Maps with string keys\<close>

fun map_put :: "string \<Rightarrow> 'a \<Rightarrow> (string \<times> 'a) list \<Rightarrow> (string \<times> 'a) list" where
  "map_put k v [] = [(k, v)]"
| "map_put k v ((k', v') # m) =
     (if k < k' then (k, v) # (k', v') # m
      else if k = k' then (k, v) # m
      else (k', v') # map_put k v m)"

definition map_wf :: "(string \<times> 'a) list \<Rightarrow> bool" where
  "map_wf m \<longleftrightarrow> sorted_wrt (<) (map fst m)"

lemma map_of_map_put [simp]: "map_of (map_put k v m) = (map_of m)(k \<mapsto> v)"
  by (induction k v m rule: map_put.induct) (auto simp: fun_eq_iff)

lemma keys_map_put: "set (map fst (map_put k v m)) = insert k (set (map fst m))"
  by (induction k v m rule: map_put.induct) auto

lemma map_wf_Nil [simp]: "map_wf []"
  by (simp add: map_wf_def)

lemma map_wf_put [simp]: "map_wf m \<Longrightarrow> map_wf (map_put k v m)"
proof (induction k v m rule: map_put.induct)
  case (2 k v k' v' m)
  then show ?case
    using keys_map_put [of k v m] by (auto simp: map_wf_def dest: less_trans)
qed (simp add: map_wf_def)

lemma map_wf_ext:
  assumes "map_wf m" "map_wf m'" "map_of m = map_of m'"
  shows "m = m'"
proof -
  have keys: "map fst m = map fst m'"
  proof (rule sorted_distinct_set_unique)
    show "sorted (map fst m)" "distinct (map fst m)" "sorted (map fst m')" "distinct (map fst m')"
      using assms(1,2) by (auto simp: map_wf_def strict_sorted_iff)
    show "set (map fst m) = set (map fst m')"
      using assms(3) by (metis dom_map_of_conv_image_fst set_map)
  qed
  have d: "distinct (map fst m)" using assms(1) by (simp add: map_wf_def strict_sorted_iff)
  show ?thesis
  proof (rule nth_equalityI)
    show l: "length m = length m'" using keys by (metis length_map)
    fix i assume i: "i < length m"
    then have f: "fst (m ! i) = fst (m' ! i)" using keys l by (metis nth_map)
    have "map_of m (fst (m ! i)) = Some (snd (m ! i))" using d i by (simp add: map_of_eq_Some_iff)
    moreover have "map_of m' (fst (m' ! i)) = Some (snd (m' ! i))"
      using d keys i l by (simp add: map_of_eq_Some_iff)
    ultimately show "m ! i = m' ! i" using f assms(3) by (simp add: prod_eq_iff)
  qed
qed

section \<open>Floating-point numbers\<close>

datatype f64 = F64 bool nat int | FInf bool | FNaN

function f64_norm :: "nat \<Rightarrow> int \<Rightarrow> nat \<times> int" where
  "f64_norm m e = (if m = 0 then (0, 0) else if even m then f64_norm (m div 2) (e + 1) else (m, e))"
  by pat_completeness auto
termination
  by (relation "measure fst") auto

declare f64_norm.simps [simp del]

fun bit_length :: "nat \<Rightarrow> nat" where
  "bit_length n = (if n = 0 then 0 else Suc (bit_length (n div 2)))"

declare bit_length.simps [simp del]

text \<open>\<open>num / den * 2 ^ (- e)\<close>, rounded to an integer, ties to even.\<close>

definition scale_round :: "nat \<Rightarrow> nat \<Rightarrow> int \<Rightarrow> nat" where
  "scale_round num den e =
     (let n = (if e < 0 then num * 2 ^ nat (- e) else num);
          d = (if e < 0 then den else den * 2 ^ nat e);
          q = n div d;
          r = n mod d
      in if 2 * r > d \<or> 2 * r = d \<and> odd q then q + 1 else q)"

text \<open>The binary64 value nearest to \<open>num / den\<close>; \<open>None\<close> when it is out of range.\<close>

definition f64_of_ratio :: "bool \<Rightarrow> nat \<Rightarrow> nat \<Rightarrow> f64 option" where
  "f64_of_ratio neg num den =
     (if num = 0 then Some (F64 neg 0 0)
      else
        let e0 = int (bit_length num) - int (bit_length den);
            ge = (if e0 \<ge> 0 then num \<ge> den * 2 ^ nat e0 else num * 2 ^ nat (- e0) \<ge> den);
            lg = (if ge then e0 else e0 - 1);
            e = max (lg - 52) (- 1074);
            q = scale_round num den e
        in if bit_length q + nat (e + 1074) > 1024 + 1074 then None
           else let (m, x) = f64_norm q e in Some (F64 neg m x))"

definition f64_of_decimal :: "bool \<Rightarrow> nat \<Rightarrow> int \<Rightarrow> f64 option" where
  "f64_of_decimal neg d x =
     (if x \<ge> 0 then f64_of_ratio neg (d * 10 ^ nat x) 1 else f64_of_ratio neg d (10 ^ nat (- x)))"

text \<open>Is the value an integer, and which one.\<close>

fun f64_int :: "f64 \<Rightarrow> int option" where
  "f64_int (F64 neg m e) =
     (if e < 0 then None else Some ((if neg then - 1 else 1) * int m * 2 ^ nat e))"
| "f64_int _ = None"

section \<open>Characters\<close>

definition code :: "char \<Rightarrow> nat" where
  "code c = of_char c"

definition is_digit :: "char \<Rightarrow> bool" where
  "is_digit c \<longleftrightarrow> 48 \<le> code c \<and> code c \<le> 57"

definition is_ws :: "char \<Rightarrow> bool" where
  "is_ws c \<longleftrightarrow> c = CHR '' '' \<or> c = CHR 0x09 \<or> c = CHR 0x0D \<or> c = CHR 0x0A"

definition skip_ws :: "string \<Rightarrow> string" where
  "skip_ws s = dropWhile is_ws s"

text \<open>The length of the well-formed multi-octet UTF-8 sequence a string starts with, or 0.\<close>

definition is_cont :: "char \<Rightarrow> bool" where
  "is_cont c \<longleftrightarrow> 0x80 \<le> code c \<and> code c \<le> 0xBF"

definition utf8_two :: "char \<Rightarrow> char \<Rightarrow> bool" where
  "utf8_two c1 c2 \<longleftrightarrow> 0xC2 \<le> code c1 \<and> code c1 \<le> 0xDF \<and> is_cont c2"

definition utf8_three :: "char \<Rightarrow> char \<Rightarrow> char \<Rightarrow> bool" where
  "utf8_three c1 c2 c3 \<longleftrightarrow>
     0xE0 \<le> code c1 \<and> code c1 \<le> 0xEF \<and>
     (if code c1 = 0xE0 then 0xA0 else 0x80) \<le> code c2 \<and>
     code c2 \<le> (if code c1 = 0xED then 0x9F else 0xBF) \<and> is_cont c3"

definition utf8_four :: "char \<Rightarrow> char \<Rightarrow> char \<Rightarrow> char \<Rightarrow> bool" where
  "utf8_four c1 c2 c3 c4 \<longleftrightarrow>
     0xF0 \<le> code c1 \<and> code c1 \<le> 0xF4 \<and>
     (if code c1 = 0xF0 then 0x90 else 0x80) \<le> code c2 \<and>
     code c2 \<le> (if code c1 = 0xF4 then 0x8F else 0xBF) \<and> is_cont c3 \<and> is_cont c4"

fun utf8_take :: "string \<Rightarrow> nat" where
  "utf8_take (c1 # c2 # c3 # c4 # r) =
     (if utf8_two c1 c2 then 2 else if utf8_three c1 c2 c3 then 3
      else if utf8_four c1 c2 c3 c4 then 4 else 0)"
| "utf8_take [c1, c2, c3] = (if utf8_two c1 c2 then 2 else if utf8_three c1 c2 c3 then 3 else 0)"
| "utf8_take [c1, c2] = (if utf8_two c1 c2 then 2 else 0)"
| "utf8_take _ = 0"

definition utf8_encode :: "nat \<Rightarrow> string" where
  "utf8_encode r =
     map char_of
       (if r < 0x80 then [r]
        else if r < 0x800 then [0xC0 + r div 64, 0x80 + r mod 64]
        else if r < 0x10000 then [0xE0 + r div 4096, 0x80 + r div 64 mod 64, 0x80 + r mod 64]
        else [0xF0 + r div 262144, 0x80 + r div 4096 mod 64, 0x80 + r div 64 mod 64, 0x80 + r mod 64])"

section \<open>The parser\<close>

datatype json =
    JNull
  | JBool bool
  | JNum string
  | JStr string
  | JArr "json list"
  | JObj "(string \<times> json) list"

definition hex_digit :: "char \<Rightarrow> nat option" where
  "hex_digit c =
     (let n = code c in
      if 48 \<le> n \<and> n \<le> 57 then Some (n - 48)
      else if 97 \<le> n \<and> n \<le> 102 then Some (n - 87)
      else if 65 \<le> n \<and> n \<le> 70 then Some (n - 55)
      else None)"

fun hex4 :: "string \<Rightarrow> (nat \<times> string) option" where
  "hex4 (a # b # c # d # r) =
     (case (hex_digit a, hex_digit b, hex_digit c, hex_digit d) of
        (Some w, Some x, Some y, Some z) \<Rightarrow> Some (((w * 16 + x) * 16 + y) * 16 + z, r)
      | _ \<Rightarrow> None)"
| "hex4 _ = None"

text \<open>A \<open>\<^verbatim>\<open>\u\<close>\<close> escape: a surrogate pair is one rune, a lone surrogate the replacement rune.\<close>

definition rune_of :: "nat \<Rightarrow> string \<Rightarrow> nat \<times> string" where
  "rune_of u r =
     (if 0xD800 \<le> u \<and> u < 0xE000 then
        (case r of
           b # v # r' \<Rightarrow>
             if b = CHR 0x5C \<and> v = CHR ''u'' then
               (case hex4 r' of
                  Some (u', r'') \<Rightarrow>
                    if u < 0xDC00 \<and> 0xDC00 \<le> u' \<and> u' < 0xE000
                    then ((u - 0xD800) * 1024 + (u' - 0xDC00) + 0x10000, r'')
                    else (0xFFFD, r)
                | None \<Rightarrow> (0xFFFD, r))
             else (0xFFFD, r)
         | _ \<Rightarrow> (0xFFFD, r))
      else (u, r))"

definition simple_escape :: "char \<Rightarrow> char option" where
  "simple_escape e =
     (if e = CHR 0x22 \<or> e = CHR 0x5C \<or> e = CHR ''/'' then Some e
      else if e = CHR ''b'' then Some (CHR 0x08)
      else if e = CHR ''f'' then Some (CHR 0x0C)
      else if e = CHR ''n'' then Some (CHR 0x0A)
      else if e = CHR ''r'' then Some (CHR 0x0D)
      else if e = CHR ''t'' then Some (CHR 0x09)
      else None)"

text \<open>One piece of a string literal: its decoded octets and the rest of the input.\<close>

definition str_piece :: "string \<Rightarrow> (string \<times> string) option" where
  "str_piece s =
     (case s of [] \<Rightarrow> None | c # r \<Rightarrow>
        if c = CHR 0x5C then
          (case r of [] \<Rightarrow> None | e # r' \<Rightarrow>
             if e = CHR ''u'' then
               (case hex4 r' of
                  None \<Rightarrow> None
                | Some (u, r'') \<Rightarrow> let (v, t) = rune_of u r'' in Some (utf8_encode v, t))
             else
               (case simple_escape e of None \<Rightarrow> None | Some c' \<Rightarrow> Some ([c'], r')))
        else if code c < 0x20 then None
        else if code c < 0x80 then Some ([c], r)
        else
          let n = utf8_take s in
          if n = 0 then Some (utf8_encode 0xFFFD, r) else Some (take n s, drop n s))"

text \<open>The rest of a string literal after its opening quote.\<close>

function parse_string :: "string \<Rightarrow> (string \<times> string) option" where
  "parse_string s =
     (case s of [] \<Rightarrow> None | c # r \<Rightarrow>
        if c = CHR 0x22 then Some ([], r)
        else case str_piece s of None \<Rightarrow> None | Some (p, t) \<Rightarrow>
          if length t < length s then
            (case parse_string t of None \<Rightarrow> None | Some (q, t') \<Rightarrow> Some (p @ q, t'))
          else None)"
  by pat_completeness auto
termination
  by (relation "measure length") auto

declare parse_string.simps [simp del]

definition parse_digits :: "string \<Rightarrow> (string \<times> string) option" where
  "parse_digits s =
     (let d = takeWhile is_digit s in if d = [] then None else Some (d, dropWhile is_digit s))"

text \<open>A number literal: sign, integer part, fraction, exponent, each with the rest of the input.\<close>

definition num_sign :: "string \<Rightarrow> string \<times> string" where
  "num_sign s =
     (case s of c # r \<Rightarrow> if c = CHR ''-'' then ([c], r) else ([], s) | [] \<Rightarrow> ([], s))"

definition num_int :: "string \<Rightarrow> (string \<times> string) option" where
  "num_int s =
     (case s of c # r \<Rightarrow> if c = CHR ''0'' then Some ([c], r) else parse_digits s | [] \<Rightarrow> None)"

definition num_frac :: "string \<Rightarrow> (string \<times> string) option" where
  "num_frac s =
     (case s of
        c # r \<Rightarrow> if c = CHR ''.'' then map_option (\<lambda>(d, t). (c # d, t)) (parse_digits r) else Some ([], s)
      | [] \<Rightarrow> Some ([], s))"

definition num_exp :: "string \<Rightarrow> (string \<times> string) option" where
  "num_exp s =
     (case s of
        c # r \<Rightarrow>
          if c = CHR ''e'' \<or> c = CHR ''E'' then
            (case r of
               c' # r' \<Rightarrow>
                 if c' = CHR ''+'' \<or> c' = CHR ''-''
                 then map_option (\<lambda>(d, t). (c # c' # d, t)) (parse_digits r')
                 else map_option (\<lambda>(d, t). (c # d, t)) (parse_digits r)
             | [] \<Rightarrow> None)
          else Some ([], s)
      | [] \<Rightarrow> Some ([], s))"

definition parse_number :: "string \<Rightarrow> (string \<times> string) option" where
  "parse_number s =
     (let (sg, s1) = num_sign s
      in case num_int s1 of None \<Rightarrow> None | Some (i, s2) \<Rightarrow>
         case num_frac s2 of None \<Rightarrow> None | Some (f, s3) \<Rightarrow>
         case num_exp s3 of None \<Rightarrow> None | Some (x, s4) \<Rightarrow> Some (sg @ i @ f @ x, s4))"

lemma length_skip_ws: "length (skip_ws s) \<le> length s"
  by (simp add: skip_ws_def length_dropWhile_le)

lemma skip_ws_Cons: "skip_ws s = c # r \<Longrightarrow> length r < length s"
  using length_skip_ws [of s] by simp

text \<open>
  Values, array elements and object members; \<open>d\<close> is the nesting depth still allowed. The
  guards \<open>length t < length s\<close> always hold (lemma \<open>parse_consumes\<close> below).
\<close>

function parse_value :: "nat \<Rightarrow> string \<Rightarrow> (json \<times> string) option"
  and parse_elems :: "nat \<Rightarrow> string \<Rightarrow> (json list \<times> string) option"
  and parse_members :: "nat \<Rightarrow> string \<Rightarrow> ((string \<times> json) list \<times> string) option" where
  "parse_value d s =
     (case skip_ws s of [] \<Rightarrow> None | c # r \<Rightarrow>
        if c = CHR ''{'' then
          if d = 0 then None
          else if (case skip_ws r of c' # _ \<Rightarrow> c' = CHR ''}'' | [] \<Rightarrow> False)
          then Some (JObj [], tl (skip_ws r))
          else (case parse_members (d - 1) r of None \<Rightarrow> None | Some (ms, t) \<Rightarrow> Some (JObj ms, t))
        else if c = CHR ''['' then
          if d = 0 then None
          else if (case skip_ws r of c' # _ \<Rightarrow> c' = CHR '']'' | [] \<Rightarrow> False)
          then Some (JArr [], tl (skip_ws r))
          else (case parse_elems (d - 1) r of None \<Rightarrow> None | Some (vs, t) \<Rightarrow> Some (JArr vs, t))
        else if c = CHR 0x22 then
          (case parse_string r of None \<Rightarrow> None | Some (x, t) \<Rightarrow> Some (JStr x, t))
        else if take 4 (c # r) = ''true'' then Some (JBool True, drop 4 (c # r))
        else if take 5 (c # r) = ''false'' then Some (JBool False, drop 5 (c # r))
        else if take 4 (c # r) = ''null'' then Some (JNull, drop 4 (c # r))
        else (case parse_number (c # r) of None \<Rightarrow> None | Some (x, t) \<Rightarrow> Some (JNum x, t)))"
| "parse_elems d s =
     (case parse_value d s of None \<Rightarrow> None | Some (v, t) \<Rightarrow>
        case skip_ws t of [] \<Rightarrow> None | c # r \<Rightarrow>
          if c = CHR '']'' then Some ([v], r)
          else if c = CHR '','' \<and> length r < length s then
            (case parse_elems d r of None \<Rightarrow> None | Some (vs, t') \<Rightarrow> Some (v # vs, t'))
          else None)"
| "parse_members d s =
     (case skip_ws s of [] \<Rightarrow> None | c # r \<Rightarrow>
        if c \<noteq> CHR 0x22 then None
        else case parse_string r of None \<Rightarrow> None | Some (k, t) \<Rightarrow>
          case skip_ws t of [] \<Rightarrow> None | c' # r' \<Rightarrow>
            if c' \<noteq> CHR '':'' \<or> \<not> length r' < length s then None
            else case parse_value d r' of None \<Rightarrow> None | Some (v, t') \<Rightarrow>
              case skip_ws t' of [] \<Rightarrow> None | c'' # r'' \<Rightarrow>
                if c'' = CHR ''}'' then Some ([(k, v)], r'')
                else if c'' = CHR '','' \<and> length r'' < length s then
                  (case parse_members d r'' of None \<Rightarrow> None | Some (ms, u) \<Rightarrow> Some ((k, v) # ms, u))
                else None)"
  by pat_completeness auto
termination
  by (relation "measure (\<lambda>x. case x of
         Inl (d, s) \<Rightarrow> 2 * length s
       | Inr (Inl (d, s)) \<Rightarrow> 2 * length s + 1
       | Inr (Inr (d, s)) \<Rightarrow> 2 * length s + 1)")
    (auto dest: skip_ws_Cons)

declare parse_value.simps [simp del] parse_elems.simps [simp del] parse_members.simps [simp del]

text \<open>The scanner's nesting limit is 10000.\<close>

definition json_parse :: "string \<Rightarrow> json option" where
  "json_parse s =
     (case parse_value 10000 s of
        Some (v, t) \<Rightarrow> if skip_ws t = [] then Some v else None
      | None \<Rightarrow> None)"

section \<open>Dynamic values\<close>

text \<open>
  What a \<^verbatim>\<open>map[string]any\<close> header can hold: the types \<^verbatim>\<open>encoding/json\<close> produces (\<open>GNil\<close>,
  \<open>GBool\<close>, \<open>GStr\<close>, \<open>GFloat\<close>, \<open>GArr\<close>, \<open>GMap\<close>), those a Go caller may put there
  (\<open>GInt\<close>, \<open>GInt64\<close>, \<^verbatim>\<open>json.Number\<close> as \<open>GNumber\<close>, \<^verbatim>\<open>[]string\<close> as \<open>GStrs\<close>), and \<open>GOther\<close>
  for a value \<^verbatim>\<open>json.Marshal\<close> refuses (a channel, a function).
\<close>

datatype gval =
    GNil
  | GBool bool
  | GStr string
  | GFloat f64
  | GInt int
  | GInt64 int
  | GNumber string
  | GStrs "string list"
  | GArr "gval list"
  | GMap "(string \<times> gval) list"
  | GOther

type_synonym header = "(string \<times> gval) list"

text \<open>A number literal as a binary64 value: \<^verbatim>\<open>strconv.ParseFloat\<close> on the JSON grammar.\<close>

definition digits_value :: "string \<Rightarrow> nat" where
  "digits_value s = foldl (\<lambda>a c. a * 10 + (code c - 48)) 0 s"

definition number_f64 :: "string \<Rightarrow> f64 option" where
  "number_f64 s =
     (let neg = (s \<noteq> [] \<and> hd s = CHR ''-'');
          s1 = (if neg then tl s else s);
          ip = takeWhile is_digit s1;
          s2 = dropWhile is_digit s1;
          fp = (if s2 \<noteq> [] \<and> hd s2 = CHR ''.'' then takeWhile is_digit (tl s2) else []);
          s3 = (if s2 \<noteq> [] \<and> hd s2 = CHR ''.'' then dropWhile is_digit (tl s2) else s2);
          x = (case s3 of [] \<Rightarrow> 0 | _ # r \<Rightarrow>
                 (case r of [] \<Rightarrow> 0 | c # r' \<Rightarrow>
                    if c = CHR ''-'' then - int (digits_value r')
                    else if c = CHR ''+'' then int (digits_value r')
                    else int (digits_value r)))
      in f64_of_decimal neg (digits_value (ip @ fp)) (x - int (length fp)))"

text \<open>Decoding into an empty interface: the last of two equal member names wins.\<close>

fun to_any :: "json \<Rightarrow> gval option"
  and to_any_list :: "json list \<Rightarrow> gval list option"
  and to_any_members :: "(string \<times> gval) list \<Rightarrow> (string \<times> json) list \<Rightarrow> (string \<times> gval) list option" where
  "to_any JNull = Some GNil"
| "to_any (JBool b) = Some (GBool b)"
| "to_any (JNum n) = map_option GFloat (number_f64 n)"
| "to_any (JStr s) = Some (GStr s)"
| "to_any (JArr vs) = map_option GArr (to_any_list vs)"
| "to_any (JObj ms) = map_option GMap (to_any_members [] ms)"
| "to_any_list [] = Some []"
| "to_any_list (v # vs) =
     (case to_any v of None \<Rightarrow> None | Some x \<Rightarrow> map_option (\<lambda>xs. x # xs) (to_any_list vs))"
| "to_any_members m [] = Some m"
| "to_any_members m ((k, v) # ms) =
     (case to_any v of None \<Rightarrow> None | Some x \<Rightarrow> to_any_members (map_put k x m) ms)"

section \<open>Decoding into struct fields\<close>

text \<open>
  A member name matches a field by its exact name, or else by its folded name: ASCII letters
  in upper case, the long s and the Kelvin sign as S and K.
\<close>

function fold_name :: "string \<Rightarrow> string" where
  "fold_name s =
     (case s of [] \<Rightarrow> [] | c # r \<Rightarrow>
        if 97 \<le> code c \<and> code c \<le> 122 then char_of (code c - 32) # fold_name r
        else if take 2 s = [CHR 0xC5, CHR 0xBF] then CHR ''S'' # fold_name (drop 2 s)
        else if take 3 s = [CHR 0xE2, CHR 0x84, CHR 0xAA] then CHR ''K'' # fold_name (drop 3 s)
        else c # fold_name r)"
  by pat_completeness auto
termination
  by (relation "measure length") auto

declare fold_name.simps [simp del]

definition match_field :: "string list \<Rightarrow> string \<Rightarrow> string option" where
  "match_field names key =
     (if key \<in> set names then Some key
      else find (\<lambda>n. fold_name n = fold_name key) names)"

text \<open>
  A field keeps its old value on \<^verbatim>\<open>null\<close> when it is a string; a map or slice becomes nil.
  A value of the wrong type makes \<^verbatim>\<open>Unmarshal\<close> fail, which is \<open>None\<close>.
\<close>

definition dec_string :: "string \<Rightarrow> json \<Rightarrow> string option" where
  "dec_string old v = (case v of JStr s \<Rightarrow> Some s | JNull \<Rightarrow> Some old | _ \<Rightarrow> None)"

definition dec_map :: "header option \<Rightarrow> json \<Rightarrow> header option option" where
  "dec_map old v =
     (case v of
        JObj ms \<Rightarrow> map_option Some (to_any_members (case old of None \<Rightarrow> [] | Some m \<Rightarrow> m) ms)
      | JNull \<Rightarrow> Some None
      | _ \<Rightarrow> None)"

text \<open>Elements of a slice are decoded over the elements that are already there.\<close>

fun dec_elems :: "('a \<Rightarrow> json \<Rightarrow> 'a option) \<Rightarrow> 'a \<Rightarrow> 'a list \<Rightarrow> json list \<Rightarrow> 'a list option" where
  "dec_elems f z old [] = Some []"
| "dec_elems f z old (v # vs) =
     (case f (case old of [] \<Rightarrow> z | x # _ \<Rightarrow> x) v of
        None \<Rightarrow> None
      | Some x \<Rightarrow> map_option (\<lambda>xs. x # xs) (dec_elems f z (tl old) vs))"

definition dec_slice :: "('a \<Rightarrow> json \<Rightarrow> 'a option) \<Rightarrow> 'a \<Rightarrow> 'a list \<Rightarrow> json \<Rightarrow> 'a list option" where
  "dec_slice f z old v =
     (case v of JArr vs \<Rightarrow> dec_elems f z old vs | JNull \<Rightarrow> Some [] | _ \<Rightarrow> None)"

text \<open>The members of an object, in document order, each stored by \<open>upd\<close>; \<^verbatim>\<open>null\<close> is a no-op.\<close>

fun dec_fields :: "('r \<Rightarrow> string \<Rightarrow> json \<Rightarrow> 'r option) \<Rightarrow> string list \<Rightarrow> 'r \<Rightarrow>
    (string \<times> json) list \<Rightarrow> 'r option" where
  "dec_fields upd names r [] = Some r"
| "dec_fields upd names r ((k, v) # ms) =
     (case match_field names k of
        None \<Rightarrow> dec_fields upd names r ms
      | Some n \<Rightarrow> (case upd r n v of None \<Rightarrow> None | Some r' \<Rightarrow> dec_fields upd names r' ms))"

definition dec_struct :: "('r \<Rightarrow> string \<Rightarrow> json \<Rightarrow> 'r option) \<Rightarrow> string list \<Rightarrow> 'r \<Rightarrow> json \<Rightarrow> 'r option" where
  "dec_struct upd names r v =
     (case v of JObj ms \<Rightarrow> dec_fields upd names r ms | JNull \<Rightarrow> Some r | _ \<Rightarrow> None)"

section \<open>The encoder\<close>

definition hex_char :: "nat \<Rightarrow> char" where
  "hex_char n = ''0123456789abcdef'' ! n"

text \<open>One octet below 0x80, with HTML escaping on, as \<^verbatim>\<open>json.Marshal\<close> writes it.\<close>

definition quote_char :: "char \<Rightarrow> string" where
  "quote_char c =
     (if c = CHR 0x22 \<or> c = CHR 0x5C then [CHR 0x5C, c]
      else if c = CHR 0x08 then [CHR 0x5C, CHR ''b'']
      else if c = CHR 0x0C then [CHR 0x5C, CHR ''f'']
      else if c = CHR 0x0A then [CHR 0x5C, CHR ''n'']
      else if c = CHR 0x0D then [CHR 0x5C, CHR ''r'']
      else if c = CHR 0x09 then [CHR 0x5C, CHR ''t'']
      else if code c < 0x20 \<or> c = CHR ''<'' \<or> c = CHR ''>'' \<or> c = CHR ''&''
      then [CHR 0x5C, CHR ''u'', CHR ''0'', CHR ''0'', hex_char (code c div 16), hex_char (code c mod 16)]
      else [c])"

definition quote_piece :: "string \<Rightarrow> string \<times> string" where
  "quote_piece s =
     (if code (hd s) < 0x80 then (quote_char (hd s), tl s)
      else
        let n = utf8_take s in
        if n = 0 then ([CHR 0x5C] @ ''ufffd'', tl s)
        else if take 3 s = [CHR 0xE2, CHR 0x80, CHR 0xA8] then ([CHR 0x5C] @ ''u2028'', drop 3 s)
        else if take 3 s = [CHR 0xE2, CHR 0x80, CHR 0xA9] then ([CHR 0x5C] @ ''u2029'', drop 3 s)
        else (take n s, drop n s))"

function quote_body :: "string \<Rightarrow> string" where
  "quote_body s =
     (if s = [] then []
      else let (p, r) = quote_piece s in p @ quote_body (if length r < length s then r else []))"
  by pat_completeness auto
termination
  by (relation "measure length") auto

declare quote_body.simps [simp del]

definition json_quote :: "string \<Rightarrow> string" where
  "json_quote s = [CHR 0x22] @ quote_body s @ [CHR 0x22]"

fun show_nat :: "nat \<Rightarrow> string" where
  "show_nat n = (if n < 10 then [char_of (48 + n)] else show_nat (n div 10) @ [char_of (48 + n mod 10)])"

declare show_nat.simps [simp del]

definition show_int :: "int \<Rightarrow> string" where
  "show_int n = (if n < 0 then [CHR ''-''] @ show_nat (nat (- n)) else show_nat (nat n))"

text \<open>
  The shortest decimal that reads back as the value (\<^verbatim>\<open>strconv.AppendFloat\<close> with precision
  -1): for a digit count, the nearer of the two neighbours that reads back, if one does.
\<close>

definition f64_ratio :: "nat \<Rightarrow> int \<Rightarrow> nat \<times> nat" where
  "f64_ratio m e = (if e \<ge> 0 then (m * 2 ^ nat e, 1) else (m, 2 ^ nat (- e)))"

definition ratio_log10 :: "nat \<Rightarrow> nat \<Rightarrow> int" where
  "ratio_log10 num den =
     (if num \<ge> den then int (length (show_nat (num div den))) - 1
      else case find (\<lambda>j. num * 10 ^ j \<ge> den) [1..<length (show_nat den) + 2] of
          Some j \<Rightarrow> - int j
        | None \<Rightarrow> 0)"

definition decimal_candidates :: "nat \<Rightarrow> nat \<Rightarrow> int \<Rightarrow> (nat \<times> int) list" where
  "decimal_candidates num den x =
     (let n = (if x < 0 then num * 10 ^ nat (- x) else num);
          d = (if x < 0 then den else den * 10 ^ nat x);
          q = n div d
      in if 2 * (n mod d) \<le> d then [(q, x), (q + 1, x)] else [(q + 1, x), (q, x)])"

definition shortest_decimal :: "nat \<Rightarrow> int \<Rightarrow> (nat \<times> int) option" where
  "shortest_decimal m e =
     (let (num, den) = f64_ratio m e;
          k = ratio_log10 num den
      in find (\<lambda>(c, x). f64_of_decimal False c x = Some (F64 False m e))
           (concat (map (\<lambda>d. decimal_candidates num den (k - int d + 1)) [1..<18])))"

definition f64_format :: "f64 \<Rightarrow> string option" where
  "f64_format f =
     (case f of
        F64 neg m e \<Rightarrow>
          (if m = 0 then Some (if neg then ''-0'' else ''0'')
           else case shortest_decimal m e of
               None \<Rightarrow> None
             | Some (c, x) \<Rightarrow>
                 let ds = show_nat c;
                     z = length (takeWhile (\<lambda>a. a = CHR ''0'') (rev ds));
                     ds = take (length ds - z) ds;
                     x = x + int z;
                     p = int (length ds) + x;
                     sg = (if neg then ''-'' else [])
                 in if - 5 \<le> p \<and> p \<le> 21 then
                      Some (sg @ (if x \<ge> 0 then ds @ replicate (nat x) (CHR ''0'')
                                  else if p \<le> 0 then ''0.'' @ replicate (nat (- p)) (CHR ''0'') @ ds
                                  else take (nat p) ds @ ''.'' @ drop (nat p) ds))
                    else
                      Some (sg @ take 1 ds @ (if length ds = 1 then [] else ''.'' @ drop 1 ds) @
                            ''e'' @ (if p - 1 < 0 then ''-'' else ''+'') @ show_nat (nat \<bar>p - 1\<bar>)))
      | _ \<Rightarrow> None)"

fun commas :: "string list \<Rightarrow> string" where
  "commas [] = []"
| "commas [x] = x"
| "commas (x # xs) = x @ '','' @ commas xs"

fun json_marshal :: "gval \<Rightarrow> string option"
  and marshal_list :: "gval list \<Rightarrow> string list option"
  and marshal_members :: "(string \<times> gval) list \<Rightarrow> string list option" where
  "json_marshal GNil = Some ''null''"
| "json_marshal (GBool b) = Some (if b then ''true'' else ''false'')"
| "json_marshal (GStr s) = Some (json_quote s)"
| "json_marshal (GFloat f) = f64_format f"
| "json_marshal (GInt n) = Some (show_int n)"
| "json_marshal (GInt64 n) = Some (show_int n)"
| "json_marshal (GNumber s) =
     (if s = [] then Some ''0''
      else case parse_number s of Some (_, []) \<Rightarrow> Some s | _ \<Rightarrow> None)"
| "json_marshal (GStrs ss) = Some (''['' @ commas (map json_quote ss) @ '']'')"
| "json_marshal (GArr vs) =
     (case marshal_list vs of None \<Rightarrow> None | Some ts \<Rightarrow> Some (''['' @ commas ts @ '']''))"
| "json_marshal (GMap ms) =
     (case marshal_members ms of None \<Rightarrow> None | Some ts \<Rightarrow> Some (''{'' @ commas ts @ ''}''))"
| "json_marshal GOther = None"
| "marshal_list [] = Some []"
| "marshal_list (v # vs) =
     (case json_marshal v of None \<Rightarrow> None | Some t \<Rightarrow> map_option (\<lambda>ts. t # ts) (marshal_list vs))"
| "marshal_members [] = Some []"
| "marshal_members ((k, v) # ms) =
     (case json_marshal v of None \<Rightarrow> None
      | Some t \<Rightarrow> map_option (\<lambda>ts. (json_quote k @ '':'' @ t) # ts) (marshal_members ms))"

end
