(* ===== verification/JsonFacts.thy ===== *)
theory JsonFacts
  imports GoJson
begin

text \<open>
  The round trip of the JSON layer: what \<open>json_marshal\<close> writes, \<open>json_parse\<close> and \<open>to_any\<close> read
  back. \<open>clean\<close> is what makes a value survive (well-formed UTF-8, integers below \<open>2 ^ 53\<close>,
  number texts that are JSON numbers, maps with ascending keys), \<open>received\<close> is the value the
  reader gets: integers become floats and string slices become arrays.
\<close>

section \<open>The parser consumes input\<close>

lemma hex4_length: "hex4 s = Some (u, t) \<Longrightarrow> length s = length t + 4"
  by (cases s rule: hex4.cases) (auto split: option.splits)

lemma rune_of_length: "rune_of u r = (v, t) \<Longrightarrow> length t \<le> length r"
  by (auto simp: rune_of_def split: if_splits list.splits option.splits dest!: hex4_length)

lemma utf8_take_le: "utf8_take s \<le> length s"
  by (cases s rule: utf8_take.cases) simp_all

lemma str_piece_length: "str_piece s = Some (p, t) \<Longrightarrow> length t < length s"
  by (auto simp: str_piece_def Let_def split: list.splits if_splits option.splits prod.splits
      dest!: hex4_length rune_of_length)

lemma parse_string_length: "parse_string s = Some (x, t) \<Longrightarrow> length t < length s"
proof (induction s arbitrary: x t rule: parse_string.induct)
  case (1 s)
  from "1.prems" obtain c r where s: "s = c # r" by (subst (asm) parse_string.simps) (cases s; simp)
  show ?case
  proof (cases "c = CHR 0x22")
    case True
    with "1.prems" s show ?thesis by (subst (asm) parse_string.simps) simp
  next
    case False
    with "1.prems" s obtain p u q where u: "str_piece s = Some (p, u)" "length u < length s"
        "parse_string u = Some (q, t)"
      by (subst (asm) parse_string.simps) (auto split: option.splits prod.splits if_splits)
    with "1.IH" [OF s False u(1) refl u(2,3)] show ?thesis by simp
  qed
qed

lemma parse_digits_length:
  assumes "parse_digits s = Some (d, t)"
  shows "length t < length s"
proof -
  have "0 < length (takeWhile is_digit s)" and t: "t = dropWhile is_digit s"
    using assms by (auto simp: parse_digits_def Let_def split: if_splits)
  moreover have "length (takeWhile is_digit s) + length (dropWhile is_digit s) = length s"
    by (metis length_append takeWhile_dropWhile_id)
  ultimately show ?thesis unfolding t by linarith
qed

text \<open>A number literal is cut off the front of the input.\<close>

lemma parse_digits_append: "parse_digits s = Some (d, t) \<Longrightarrow> s = d @ t \<and> d \<noteq> []"
  by (auto simp: parse_digits_def Let_def split: if_splits)

lemma num_sign_append: "num_sign s = (x, t) \<Longrightarrow> s = x @ t"
  by (auto simp: num_sign_def split: list.splits if_splits)

lemma num_int_append: "num_int s = Some (x, t) \<Longrightarrow> s = x @ t \<and> x \<noteq> []"
  by (auto simp: num_int_def split: list.splits if_splits dest: parse_digits_append)

lemma num_frac_append: "num_frac s = Some (x, t) \<Longrightarrow> s = x @ t"
  by (auto simp: num_frac_def split: list.splits if_splits dest: parse_digits_append)

lemma num_exp_append: "num_exp s = Some (x, t) \<Longrightarrow> s = x @ t"
  by (auto simp: num_exp_def split: list.splits if_splits dest: parse_digits_append)

lemma parse_number_parts:
  assumes "parse_number s = Some (x, t)"
  obtains sg s1 i s2 f s3 e where "num_sign s = (sg, s1)" "num_int s1 = Some (i, s2)"
    "num_frac s2 = Some (f, s3)" "num_exp s3 = Some (e, t)" "x = sg @ i @ f @ e"
  using assms by (auto simp: parse_number_def split: prod.splits option.splits)

lemma parse_number_append: "parse_number s = Some (x, t) \<Longrightarrow> s = x @ t \<and> x \<noteq> []"
  by (elim parse_number_parts)
    (auto dest!: num_sign_append num_int_append num_frac_append num_exp_append)

lemma parse_number_length: "parse_number s = Some (x, t) \<Longrightarrow> length t < length s"
  by (auto dest!: parse_number_append)

text \<open>The guards in \<open>parse_elems\<close> and \<open>parse_members\<close> never refuse a document.\<close>

lemma parse_consumes:
  "parse_value d s = Some (v, t) \<Longrightarrow> length t < length s"
  "parse_elems d s = Some (vs, t) \<Longrightarrow> length t < length s"
  "parse_members d s = Some (ms, t) \<Longrightarrow> length t < length s"
proof (induction d s and d s and d s arbitrary: v t and vs t and ms t
    rule: parse_value_parse_elems_parse_members.induct)
  case (1 d s)
  from "1.prems" obtain c r where c: "skip_ws s = c # r"
    by (subst (asm) parse_value.simps) (cases "skip_ws s"; simp)
  then have l: "length r < length s" "length (c # r) \<le> length s" "length (tl (skip_ws r)) \<le> length r"
    using skip_ws_Cons [OF c] length_skip_ws [of s] length_skip_ws [of r] by auto
  note p = "1.prems" [unfolded parse_value.simps [of d s] c list.case]
  consider (brace) "c = CHR ''{''" | (bracket) "c = CHR ''[''" | (other) "c \<noteq> CHR ''{''" "c \<noteq> CHR ''[''"
    by blast
  then show ?case
  proof cases
    case brace
    then have "t = tl (skip_ws r) \<or> \<not> (case skip_ws r of c' # _ \<Rightarrow> c' = CHR ''}'' | [] \<Rightarrow> False) \<and> (\<exists>ms. parse_members (d - 1) r = Some (ms, t))"
      using p by (auto split: if_splits option.splits)
    then show ?thesis
    proof
      assume "\<not> (case skip_ws r of c' # _ \<Rightarrow> c' = CHR ''}'' | [] \<Rightarrow> False) \<and> (\<exists>ms. parse_members (d - 1) r = Some (ms, t))"
      then have "length t < length r" using "1.IH"(1) [OF c brace] p brace
        by (auto split: if_splits option.splits)
      with l show ?thesis by simp
    qed (use l in simp)
  next
    case bracket
    then have "t = tl (skip_ws r) \<or> \<not> (case skip_ws r of c' # _ \<Rightarrow> c' = CHR '']'' | [] \<Rightarrow> False) \<and> (\<exists>vs. parse_elems (d - 1) r = Some (vs, t))"
      using p by (auto split: if_splits option.splits)
    then show ?thesis
    proof
      assume "\<not> (case skip_ws r of c' # _ \<Rightarrow> c' = CHR '']'' | [] \<Rightarrow> False) \<and> (\<exists>vs. parse_elems (d - 1) r = Some (vs, t))"
      then have "length t < length r" using "1.IH"(2) [OF c _ bracket] p bracket
        by (auto split: if_splits option.splits)
      with l show ?thesis by simp
    qed (use l in simp)
  next
    case other
    then have "(\<exists>x. parse_string r = Some (x, t)) \<or> (\<exists>n. 0 < n \<and> t = drop n (c # r)) \<or>
        (\<exists>x. parse_number (c # r) = Some (x, t))"
      using p by (auto split: if_splits option.splits)
    then show ?thesis
      using l parse_string_length [of r] parse_number_length [of "c # r"] by fastforce
  qed
next
  case (2 d s)
  from "2.prems" obtain v1 t1 c r where v: "parse_value d s = Some (v1, t1)" and c: "skip_ws t1 = c # r"
    and t: "t = r \<or> c \<noteq> CHR '']'' \<and> c = CHR '','' \<and> length r < length s \<and> (\<exists>vs'. parse_elems d r = Some (vs', t))"
    by (subst (asm) parse_elems.simps) (auto split: option.splits list.splits if_splits)
  have "length t1 < length s" using "2.IH"(1) v by blast
  moreover have "length r < length t1" using c by (rule skip_ws_Cons)
  moreover have "length t \<le> length r" using t "2.IH"(2) [OF v refl c] by auto
  ultimately show ?case by simp
next
  case (3 d s)
  from "3.prems" obtain c r k u c1 r1 v w c2 r2 where c: "skip_ws s = c # r" "\<not> c \<noteq> CHR 0x22"
    and k: "parse_string r = Some (k, u)" and c1: "skip_ws u = c1 # r1"
    and g: "\<not> (c1 \<noteq> CHR '':'' \<or> \<not> length r1 < length s)"
    and v: "parse_value d r1 = Some (v, w)" and c2: "skip_ws w = c2 # r2"
    and t: "t = r2 \<or> c2 \<noteq> CHR ''}'' \<and> c2 = CHR '','' \<and> length r2 < length s \<and>
        (\<exists>ms'. parse_members d r2 = Some (ms', t))"
    by (subst (asm) parse_members.simps) (auto split: option.splits list.splits if_splits)
  have "length w < length r1" using "3.IH"(1) [OF c k refl c1 g v] by blast
  moreover have "length r2 < length w" using c2 by (rule skip_ws_Cons)
  moreover have "length t \<le> length r2" using t "3.IH"(2) [OF c k refl c1 g v refl c2] by auto
  ultimately show ?case using g by simp
qed

section \<open>String literals\<close>

text \<open>Well-formed UTF-8: what the encoder writes unchanged, up to escaping.\<close>

function utf8_ok :: "string \<Rightarrow> bool" where
  "utf8_ok s =
     (case s of [] \<Rightarrow> True | c # r \<Rightarrow>
        if code c < 0x80 then utf8_ok r
        else if utf8_take s = 0 then False else utf8_ok (drop (utf8_take s) s))"
  by pat_completeness auto
termination
  by (relation "measure length") auto

declare utf8_ok.simps [simp del]

lemma utf8_ok_Nil [simp]: "utf8_ok []"
  by (subst utf8_ok.simps) simp

lemma utf8_ok_ascii: "\<forall>c \<in> set s. code c < 0x80 \<Longrightarrow> utf8_ok s"
  by (induction s) (subst utf8_ok.simps, simp)+

lemma code_char_of: "n < 256 \<Longrightarrow> code (char_of n) = n"
  by (simp add: code_def)

lemma code_less: "code c < 256"
  by (simp add: code_def nat_of_char_less_256)

lemma char_of_code [simp]: "char_of (code c) = c"
  by (simp add: code_def)

lemma code_eq_iff: "code c = code c' \<longleftrightarrow> c = c'"
  by (metis char_of_code)

lemma hex_digit_char: "n < 16 \<Longrightarrow> hex_digit (hex_char n) = Some n"
proof -
  assume "n < 16"
  then have "n \<in> {0, 1, 2, 3, 4, 5, 6, 7, 8, 9, 10, 11, 12, 13, 14, 15}" by auto presburger
  then show ?thesis
    by (elim insertE emptyE) (simp_all add: hex_char_def hex_digit_def code_def)
qed

text \<open>One escaped ASCII octet reads back as itself.\<close>

lemma quote_short:
  "quote_char (CHR 0x22) = [CHR 0x5C, CHR 0x22]" "quote_char (CHR 0x5C) = [CHR 0x5C, CHR 0x5C]"
  "quote_char (CHR 0x08) = [CHR 0x5C, CHR ''b'']" "quote_char (CHR 0x0C) = [CHR 0x5C, CHR ''f'']"
  "quote_char (CHR 0x0A) = [CHR 0x5C, CHR ''n'']" "quote_char (CHR 0x0D) = [CHR 0x5C, CHR ''r'']"
  "quote_char (CHR 0x09) = [CHR 0x5C, CHR ''t'']"
  by (simp_all add: quote_char_def)

lemma simple_short:
  "simple_escape (CHR 0x22) = Some (CHR 0x22)" "simple_escape (CHR 0x5C) = Some (CHR 0x5C)"
  "simple_escape (CHR ''b'') = Some (CHR 0x08)" "simple_escape (CHR ''f'') = Some (CHR 0x0C)"
  "simple_escape (CHR ''n'') = Some (CHR 0x0A)" "simple_escape (CHR ''r'') = Some (CHR 0x0D)"
  "simple_escape (CHR ''t'') = Some (CHR 0x09)"
  by (simp_all add: simple_escape_def)

definition short_escaped :: "char list" where
  "short_escaped = [CHR 0x22, CHR 0x5C, CHR 0x08, CHR 0x0C, CHR 0x0A, CHR 0x0D, CHR 0x09]"

lemma str_piece_short: "c \<in> set short_escaped \<Longrightarrow> str_piece (quote_char c @ r) = Some ([c], r)"
  unfolding short_escaped_def list.set
  by (elim insertE emptyE; hypsubst) (simp_all add: quote_short simple_short str_piece_def)

lemma quote_char_long:
  assumes "c \<notin> set short_escaped" "code c < 0x20 \<or> c = CHR ''<'' \<or> c = CHR ''>'' \<or> c = CHR ''&''"
  shows "quote_char c =
    [CHR 0x5C, CHR ''u'', CHR ''0'', CHR ''0'', hex_char (code c div 16), hex_char (code c mod 16)]"
proof -
  have "c \<noteq> CHR 0x22 \<and> c \<noteq> CHR 0x5C \<and> c \<noteq> CHR 0x08 \<and> c \<noteq> CHR 0x0C \<and> c \<noteq> CHR 0x0A \<and> c \<noteq> CHR 0x0D \<and> c \<noteq> CHR 0x09"
    using assms(1) unfolding short_escaped_def by auto
  with assms(2) show ?thesis unfolding quote_char_def by (simp only: if_True if_False simp_thms)
qed

lemma quote_char_plain:
  assumes "c \<notin> set short_escaped" "\<not> (code c < 0x20 \<or> c = CHR ''<'' \<or> c = CHR ''>'' \<or> c = CHR ''&'')"
  shows "quote_char c = [c]"
proof -
  have "c \<noteq> CHR 0x22 \<and> c \<noteq> CHR 0x5C \<and> c \<noteq> CHR 0x08 \<and> c \<noteq> CHR 0x0C \<and> c \<noteq> CHR 0x0A \<and> c \<noteq> CHR 0x0D \<and> c \<noteq> CHR 0x09"
    using assms(1) unfolding short_escaped_def by auto
  with assms(2) show ?thesis unfolding quote_char_def by (simp only: if_True if_False simp_thms)
qed

lemma hex4_byte:
  assumes "n < 256"
  shows "hex4 (CHR ''0'' # CHR ''0'' # hex_char (n div 16) # hex_char (n mod 16) # r) = Some (n, r)"
proof -
  have "hex_digit (hex_char (n div 16)) = Some (n div 16)" "hex_digit (hex_char (n mod 16)) = Some (n mod 16)"
    using assms by (simp_all add: hex_digit_char less_mult_imp_div_less)
  moreover have "hex_digit (CHR ''0'') = Some 0" by (simp add: hex_digit_def code_def)
  ultimately show ?thesis by simp
qed

lemma str_piece_quote_char:
  assumes "code c < 0x80"
  shows "str_piece (quote_char c @ r) = Some ([c], r)"
proof -
  consider (short) "c \<in> set short_escaped"
    | (long) "c \<notin> set short_escaped" "code c < 0x20 \<or> c = CHR ''<'' \<or> c = CHR ''>'' \<or> c = CHR ''&''"
    | (plain) "c \<notin> set short_escaped" "\<not> (code c < 0x20 \<or> c = CHR ''<'' \<or> c = CHR ''>'' \<or> c = CHR ''&'')"
    by blast
  then show ?thesis
  proof cases
    case short
    then show ?thesis by (rule str_piece_short)
  next
    case long
    have "hex4 (CHR ''0'' # CHR ''0'' # hex_char (code c div 16) # hex_char (code c mod 16) # r) =
        Some (code c, r)" by (rule hex4_byte) (rule code_less)
    moreover have "rune_of (code c) r = (code c, r)" using assms by (simp add: rune_of_def)
    moreover have "utf8_encode (code c) = [c]" using assms by (simp add: utf8_encode_def)
    ultimately show ?thesis
      unfolding quote_char_long [OF long] str_piece_def append_Cons append_Nil list.case
      by (simp del: hex4.simps)
  next
    case plain
    then have "c \<noteq> CHR 0x5C" by (auto simp: short_escaped_def)
    then show ?thesis using assms plain quote_char_plain [OF plain] by (simp add: str_piece_def)
  qed
qed

lemma quote_char_start: "\<exists>a l. quote_char c = a # l \<and> a \<noteq> CHR 0x22"
  by (simp add: quote_char_def)

text \<open>A multi-octet sequence depends on its own octets only.\<close>

lemma utf8_take_prefix:
  assumes "utf8_take s = n" "0 < n"
  shows "utf8_take (take n s @ r) = n"
proof -
  have two: "utf8_take (c1 # c2 # u) = 2" if "utf8_two c1 c2" for c1 c2 u
    using that by (cases "c1 # c2 # u" rule: utf8_take.cases) simp_all
  have three: "utf8_take (c1 # c2 # c3 # u) = 3" if "\<not> utf8_two c1 c2" "utf8_three c1 c2 c3" for c1 c2 c3 u
    using that by (cases "c1 # c2 # c3 # u" rule: utf8_take.cases) simp_all
  show ?thesis
    using assms by (cases s rule: utf8_take.cases) (auto simp: two three split: if_splits)
qed

lemma utf8_take_code:
  assumes "0 < utf8_take s"
  shows "s \<noteq> [] \<and> 0xC2 \<le> code (hd s)"
  using assms
  by (cases s rule: utf8_take.cases)
    (auto simp: utf8_two_def utf8_three_def utf8_four_def split: if_splits)

lemma code_quote: "code (CHR 0x22) = 0x22" "code (CHR 0x5C) = 0x5C"
  by (simp_all add: code_def)

text \<open>Reading one piece and then the rest.\<close>

lemma parse_string_piece:
  assumes "str_piece (p @ r) = Some (q, r)" "p \<noteq> []" "hd p \<noteq> CHR 0x22"
  shows "parse_string (p @ r) = (case parse_string r of None \<Rightarrow> None | Some (x, t) \<Rightarrow> Some (q @ x, t))"
proof -
  obtain c p' where p: "p = c # p'" using assms(2) by (cases p) auto
  show ?thesis
    using assms by (subst parse_string.simps) (simp add: p)
qed

lemma quote_body_step:
  "s \<noteq> [] \<Longrightarrow> quote_piece s = (p, r) \<Longrightarrow> length r < length s \<Longrightarrow> quote_body s = p @ quote_body r"
  by (subst quote_body.simps) simp

lemma quote_body_Nil [simp]: "quote_body [] = []"
  by (subst quote_body.simps) simp

lemma parse_string_end [simp]: "parse_string (CHR 0x22 # r) = Some ([], r)"
  by (subst parse_string.simps) simp

lemma utf8_ok_cases:
  assumes "utf8_ok s"
  obtains "s = []"
    | c r where "s = c # r" "code c < 0x80" "utf8_ok r"
    | n where "utf8_take s = n" "0 < n" "0xC2 \<le> code (hd s)" "utf8_ok (drop n s)"
proof (cases s)
  case Nil
  then show thesis by (rule that(1))
next
  case (Cons c r)
  show thesis
  proof (cases "code c < 0x80")
    case True
    with assms Cons that(2) show thesis by (subst (asm) utf8_ok.simps) simp
  next
    case False
    with assms Cons have u: "0 < utf8_take s" "utf8_ok (drop (utf8_take s) s)"
      by (subst (asm) utf8_ok.simps, simp split: if_splits)+
    with that(3) [OF refl] utf8_take_code [OF u(1)] show thesis by blast
  qed
qed

lemma utf8_encode_sep:
  "utf8_encode 0x2028 = [CHR 0xE2, CHR 0x80, CHR 0xA8]" "utf8_encode 0x2029 = [CHR 0xE2, CHR 0x80, CHR 0xA9]"
  by (simp_all add: utf8_encode_def char_of_def bit_0)

lemma hex4_sep: "hex4 (''2028'' @ r) = Some (0x2028, r)" "hex4 (''2029'' @ r) = Some (0x2029, r)"
proof -
  have "hex_digit (CHR ''0'') = Some 0" "hex_digit (CHR ''2'') = Some 2" "hex_digit (CHR ''8'') = Some 8"
    "hex_digit (CHR ''9'') = Some 9" by (simp_all add: hex_digit_def code_def)
  then show "hex4 (''2028'' @ r) = Some (0x2028, r)" "hex4 (''2029'' @ r) = Some (0x2029, r)"
    by simp_all
qed

lemma str_piece_sep:
  "str_piece (([CHR 0x5C] @ ''u2028'') @ r) = Some ([CHR 0xE2, CHR 0x80, CHR 0xA8], r)"
  "str_piece (([CHR 0x5C] @ ''u2029'') @ r) = Some ([CHR 0xE2, CHR 0x80, CHR 0xA9], r)"
  using hex4_sep [of r]
  by (simp_all add: str_piece_def rune_of_def utf8_encode_sep del: hex4.simps)

text \<open>The pieces the encoder writes, and what the parser makes of them.\<close>

lemma quote_piece_parse:
  assumes "utf8_ok s" "s \<noteq> []"
  obtains p q r where "quote_piece s = (p, r)" "s = q @ r" "length r < length s" "utf8_ok r"
    "p \<noteq> []" "hd p \<noteq> CHR 0x22" "\<And>u. str_piece (p @ u) = Some (q, u)"
  using assms(1)
proof (cases rule: utf8_ok_cases)
  case 1
  with assms(2) show thesis by simp
next
  case (2 c r)
  have "quote_char c \<noteq> []" "hd (quote_char c) \<noteq> CHR 0x22" using quote_char_start [of c] by auto
  with 2 show thesis
    by (intro that [of "quote_char c" r "[c]"]) (simp_all add: quote_piece_def str_piece_quote_char)
next
  case (3 n)
  let ?q = "take n s" and ?r = "drop n s"
  have big: "\<not> code (hd s) < 0x80" using 3 by simp
  have r: "s = ?q @ ?r" "length ?r < length s" using 3(2) assms(2) by simp_all
  have l: "s = [a, b, c] @ drop 3 s \<and> n = 3" if "take 3 s = [a, b, c]" "a = CHR 0xE2" "is_cont b" "is_cont c" for a b c
  proof -
    have s: "s = a # b # c # drop 3 s" using that(1) by (metis append_Cons append_Nil append_take_drop_id)
    have "\<not> utf8_two a b" "utf8_three a b c"
      using that(2-4) by (auto simp: utf8_two_def utf8_three_def is_cont_def code_def)
    then have "utf8_take (a # b # c # drop 3 s) = 3"
      by (cases "a # b # c # drop 3 s" rule: utf8_take.cases) simp_all
    then show ?thesis using s 3(1) by simp
  qed
  have cont: "is_cont (CHR 0x80)" "is_cont (CHR 0xA8)" "is_cont (CHR 0xA9)"
    by (simp_all add: is_cont_def code_def)
  consider (ls) "take 3 s = [CHR 0xE2, CHR 0x80, CHR 0xA8]" | (ps) "take 3 s = [CHR 0xE2, CHR 0x80, CHR 0xA9]"
    | (raw) "take 3 s \<noteq> [CHR 0xE2, CHR 0x80, CHR 0xA8]" "take 3 s \<noteq> [CHR 0xE2, CHR 0x80, CHR 0xA9]"
    by blast
  then show thesis
  proof cases
    case ls
    then have "n = 3" using l cont by blast
    then show thesis using 3 r ls big
      by (intro that [of "[CHR 0x5C] @ ''u2028''" ?r ?q]) (simp_all add: quote_piece_def str_piece_sep [simplified])
  next
    case ps
    then have "n = 3" using l cont by blast
    then show thesis using 3 r ps big
      by (intro that [of "[CHR 0x5C] @ ''u2029''" ?r ?q]) (simp_all add: quote_piece_def str_piece_sep [simplified])
  next
    case raw
    have hd: "hd ?q = hd s" using 3(2) by (simp add: hd_take)
    have "str_piece (?q @ u) = Some (?q, u)" for u
    proof -
      obtain c q' where q: "?q = c # q'" using 3(2) assms(2) by (cases ?q) auto
      have "length ?q = n" using utf8_take_le [of s] 3(1) by simp
      then have "take n (?q @ u) = ?q" "drop n (?q @ u) = u" by simp_all
      moreover have "utf8_take (?q @ u) = n" by (rule utf8_take_prefix [OF 3(1,2)])
      moreover have "c \<noteq> CHR 0x5C" "\<not> code c < 0x20" "\<not> code c < 0x80"
        using hd q 3(3) by (auto simp: code_quote)
      ultimately show ?thesis using 3(2) q by (simp add: str_piece_def Let_def del: take_eq_Nil)
    qed
    moreover have "hd ?q \<noteq> CHR 0x22" using hd 3(3) by (auto simp: code_quote)
    ultimately show thesis using 3 r raw big assms(2)
      by (intro that [of ?q ?r ?q]) (simp_all add: quote_piece_def)
  qed
qed

lemma parse_quote_body: "utf8_ok s \<Longrightarrow> parse_string (quote_body s @ CHR 0x22 # r) = Some (s, r)"
proof (induction "length s" arbitrary: s rule: less_induct)
  case less
  show ?case
  proof (cases "s = []")
    case True
    then show ?thesis by simp
  next
    case False
    from less.prems False obtain p q t where p: "quote_piece s = (p, t)" "s = q @ t" "length t < length s"
      "utf8_ok t" "p \<noteq> []" "hd p \<noteq> CHR 0x22" "\<And>u. str_piece (p @ u) = Some (q, u)"
      by (rule quote_piece_parse) blast
    have "parse_string (quote_body t @ CHR 0x22 # r) = Some (t, r)"
      using less.hyps p(3,4) by blast
    then show ?thesis
      using parse_string_piece [OF p(7) p(5,6)] quote_body_step [OF False p(1,3)] p(2) by simp
  qed
qed

section \<open>Numbers\<close>

text \<open>What may follow a value inside a document.\<close>

definition value_end :: "string \<Rightarrow> bool" where
  "value_end r \<longleftrightarrow>
     (case r of [] \<Rightarrow> True | c # _ \<Rightarrow> \<not> is_digit c \<and> c \<noteq> CHR ''.'' \<and> c \<noteq> CHR ''e'' \<and> c \<noteq> CHR ''E'')"

lemma value_end_simps [simp]:
  "value_end []" "value_end (CHR '','' # r)" "value_end (CHR '']'' # r)" "value_end (CHR ''}'' # r)"
  by (simp_all add: value_end_def is_digit_def code_def)

lemma parse_digits_extend:
  assumes "parse_digits s = Some (d, t)" "value_end r"
  shows "parse_digits (s @ r) = Some (d, t @ r)"
proof (cases "t = []")
  case True
  then have all: "\<forall>c \<in> set s. is_digit c" and d: "d = s" "s \<noteq> []"
    using assms(1) by (auto simp: parse_digits_def Let_def dropWhile_eq_Nil_conv takeWhile_eq_all_conv split: if_splits)
  have "takeWhile is_digit r = []" "dropWhile is_digit r = r"
    using assms(2) by (cases r; simp add: value_end_def)+
  with all d True show ?thesis by (simp add: parse_digits_def)
next
  case False
  have sp: "takeWhile is_digit s = d" "dropWhile is_digit s = t" "d \<noteq> []"
    using assms(1) by (auto simp: parse_digits_def Let_def split: if_splits)
  then obtain c t' where c: "t = c # t'" "\<not> is_digit c"
    using False by (metis dropWhile_eq_Cons_conv list.exhaust)
  have s: "s = d @ c # t'" using sp c(1) by (metis takeWhile_dropWhile_id)
  have "\<forall>x \<in> set d. is_digit x" using sp(1) by (metis set_takeWhileD)
  then have "takeWhile is_digit (s @ r) = d" "dropWhile is_digit (s @ r) = t @ r"
    using c by (simp_all add: s takeWhile_append dropWhile_append)
  with sp(3) show ?thesis by (simp add: parse_digits_def)
qed

lemma parse_digits_Nil [simp]: "parse_digits [] = None"
  by (simp add: parse_digits_def)

lemma num_sign_extend: "num_sign s = (x, t) \<Longrightarrow> s \<noteq> [] \<Longrightarrow> num_sign (s @ r) = (x, t @ r)"
  by (auto simp: num_sign_def split: list.splits if_splits)

lemma num_int_extend: "num_int s = Some (x, t) \<Longrightarrow> value_end r \<Longrightarrow> num_int (s @ r) = Some (x, t @ r)"
  by (cases s) (auto simp: num_int_def dest: parse_digits_extend split: if_splits)

lemma num_frac_extend:
  assumes "num_frac s = Some (x, t)" "value_end r"
  shows "num_frac (s @ r) = Some (x, t @ r)"
proof (cases s)
  case Nil
  with assms show ?thesis by (cases r) (auto simp: num_frac_def value_end_def)
next
  case (Cons c s')
  then show ?thesis
    using assms parse_digits_extend [OF _ assms(2), of s']
    by (cases "c = CHR ''.''") (auto simp: num_frac_def)
qed

lemma num_exp_extend:
  assumes "num_exp s = Some (x, t)" "value_end r"
  shows "num_exp (s @ r) = Some (x, t @ r)"
proof (cases s)
  case Nil
  with assms show ?thesis by (cases r) (auto simp: num_exp_def value_end_def)
next
  case (Cons c s')
  show ?thesis
  proof (cases "c = CHR ''e'' \<or> c = CHR ''E''")
    case False
    with assms Cons show ?thesis by (auto simp: num_exp_def)
  next
    case True
    then obtain c' s'' where s': "s' = c' # s''"
      using assms(1) Cons by (cases s') (auto simp: num_exp_def)
    note ext = parse_digits_extend [OF _ assms(2), of s''] parse_digits_extend [OF _ assms(2), of "c' # s''"]
    show ?thesis
      using True Cons s' assms(1) ext by (cases "c' = CHR ''+'' \<or> c' = CHR ''-''") (auto simp: num_exp_def)
  qed
qed

lemma parse_number_extend:
  assumes "parse_number s = Some (x, t)" "value_end r"
  shows "parse_number (s @ r) = Some (x, t @ r)"
  using assms(1)
proof (rule parse_number_parts)
  fix sg s1 i s2 f s3 e
  assume p: "num_sign s = (sg, s1)" "num_int s1 = Some (i, s2)" "num_frac s2 = Some (f, s3)"
    "num_exp s3 = Some (e, t)" "x = sg @ i @ f @ e"
  have "s \<noteq> []" using p(1,2) by (auto simp: num_sign_def num_int_def)
  then show ?thesis
    using p num_sign_extend [OF p(1)] num_int_extend [OF p(2) assms(2)]
      num_frac_extend [OF p(3) assms(2)] num_exp_extend [OF p(4) assms(2)]
    by (simp add: parse_number_def)
qed

lemma parse_digits_start: "parse_digits s = Some (d, t) \<Longrightarrow> s \<noteq> [] \<and> is_digit (hd s)"
  by (cases s) (auto simp: parse_digits_def split: if_splits)

lemma parse_number_start:
  assumes "parse_number s = Some (x, t)"
  shows "s \<noteq> [] \<and> (hd s = CHR ''-'' \<or> is_digit (hd s))"
  using assms
proof (rule parse_number_parts)
  fix sg s1 i s2 f s3 e
  assume p: "num_sign s = (sg, s1)" "num_int s1 = Some (i, s2)"
  have d0: "is_digit (CHR ''0'')" by (simp add: is_digit_def code_def)
  have "s1 \<noteq> [] \<and> is_digit (hd s1)"
    using p(2) parse_digits_start [of s1] d0
    by (cases s1) (auto simp: num_int_def split: if_splits)
  with p(1) show ?thesis by (auto simp: num_sign_def split: list.splits if_splits)
qed

lemma is_digit_char: "n < 10 \<Longrightarrow> is_digit (char_of (48 + n)) \<and> code (char_of (48 + n)) = 48 + n"
  by (simp add: is_digit_def code_char_of)

lemma show_nat_digits: "show_nat n \<noteq> [] \<and> (\<forall>c \<in> set (show_nat n). is_digit c)"
  by (induction n rule: show_nat.induct) (subst (1 2) show_nat.simps, auto simp: is_digit_char)

lemma digits_value_snoc: "digits_value (s @ [c]) = digits_value s * 10 + (code c - 48)"
  by (simp add: digits_value_def)

lemma digits_value_show [simp]: "digits_value (show_nat n) = n"
proof (induction n rule: show_nat.induct)
  case (1 n)
  show ?case
  proof (cases "n < 10")
    case True
    then show ?thesis
      by (subst show_nat.simps) (simp add: digits_value_def is_digit_char)
  next
    case False
    with 1 have "digits_value (show_nat (n div 10)) = n div 10" by simp
    moreover have "code (char_of (48 + n mod 10)) = 48 + n mod 10" by (simp add: is_digit_char)
    ultimately show ?thesis using False
      by (subst show_nat.simps) (simp add: digits_value_snoc)
  qed
qed

lemma show_nat_no_zero: "0 < n \<Longrightarrow> hd (show_nat n) \<noteq> CHR ''0''"
proof (induction n rule: show_nat.induct)
  case (1 n)
  have z: "code (CHR ''0'') = 48" by (simp add: code_def)
  show ?case
  proof (cases "n < 10")
    case True
    then have "code (char_of (48 + n)) = 48 + n" by (simp add: is_digit_char)
    with True 1 z show ?thesis by (subst show_nat.simps) force
  next
    case False
    with 1 have "hd (show_nat (n div 10)) \<noteq> CHR ''0''" by simp
    with False show_nat_digits [of "n div 10"] show ?thesis by (subst show_nat.simps) simp
  qed
qed

lemma parse_digits_all: "s \<noteq> [] \<Longrightarrow> \<forall>c \<in> set s. is_digit c \<Longrightarrow> parse_digits s = Some (s, [])"
  by (simp add: parse_digits_def dropWhile_eq_Nil_conv takeWhile_eq_all_conv [THEN iffD2])

lemma num_int_show: "num_int (show_nat n) = Some (show_nat n, [])"
proof (cases "n = 0")
  case True
  have "show_nat 0 = ''0''" by (subst show_nat.simps) (simp add: char_of_def bit_0)
  with True show ?thesis by (simp add: num_int_def)
next
  case False
  then show ?thesis
    using show_nat_no_zero [of n] show_nat_digits [of n] parse_digits_all [of "show_nat n"]
    by (cases "show_nat n") (auto simp: num_int_def)
qed

lemma num_sign_digits: "s \<noteq> [] \<Longrightarrow> is_digit (hd s) \<Longrightarrow> num_sign s = ([], s)"
  by (cases s) (auto simp: num_sign_def is_digit_def code_def)

lemma parse_number_show_int: "parse_number (show_int n) = Some (show_int n, [])"
proof -
  have e: "num_frac [] = Some ([], [])" "num_exp [] = Some ([], [])" by (simp_all add: num_frac_def num_exp_def)
  have s: "num_sign (show_nat m) = ([], show_nat m)" for m
    using show_nat_digits [of m] by (intro num_sign_digits) auto
  have m: "num_sign ([CHR ''-''] @ show_nat m) = (''-'', show_nat m)" for m by (simp add: num_sign_def)
  show ?thesis
    using s m by (simp add: parse_number_def show_int_def num_int_show e)
qed

section \<open>What survives the trip, and as what\<close>

fun wire :: "gval \<Rightarrow> json" and wire_list :: "gval list \<Rightarrow> json list"
  and wire_members :: "(string \<times> gval) list \<Rightarrow> (string \<times> json) list" where
  "wire GNil = JNull"
| "wire (GBool b) = JBool b"
| "wire (GStr s) = JStr s"
| "wire (GFloat f) = JNum (the (f64_format f))"
| "wire (GInt n) = JNum (show_int n)"
| "wire (GInt64 n) = JNum (show_int n)"
| "wire (GNumber s) = JNum s"
| "wire (GStrs ss) = JArr (map JStr ss)"
| "wire (GArr vs) = JArr (wire_list vs)"
| "wire (GMap ms) = JObj (wire_members ms)"
| "wire GOther = JNull"
| "wire_list [] = []"
| "wire_list (v # vs) = wire v # wire_list vs"
| "wire_members [] = []"
| "wire_members ((k, v) # ms) = (k, wire v) # wire_members ms"

fun clean :: "gval \<Rightarrow> bool" and clean_list :: "gval list \<Rightarrow> bool"
  and clean_members :: "(string \<times> gval) list \<Rightarrow> bool" where
  "clean GNil \<longleftrightarrow> True"
| "clean (GBool b) \<longleftrightarrow> True"
| "clean (GStr s) \<longleftrightarrow> utf8_ok s"
| "clean (GFloat f) \<longleftrightarrow>
     (case f64_format f of
        None \<Rightarrow> False
      | Some t \<Rightarrow> parse_number t = Some (t, []) \<and> number_f64 t = Some f)"
| "clean (GInt n) \<longleftrightarrow> \<bar>n\<bar> < 2 ^ 53"
| "clean (GInt64 n) \<longleftrightarrow> \<bar>n\<bar> < 2 ^ 53"
| "clean (GNumber s) \<longleftrightarrow> parse_number s = Some (s, []) \<and> number_f64 s \<noteq> None"
| "clean (GStrs ss) \<longleftrightarrow> list_all utf8_ok ss"
| "clean (GArr vs) \<longleftrightarrow> clean_list vs"
| "clean (GMap ms) \<longleftrightarrow> map_wf ms \<and> clean_members ms"
| "clean GOther \<longleftrightarrow> False"
| "clean_list [] \<longleftrightarrow> True"
| "clean_list (v # vs) \<longleftrightarrow> clean v \<and> clean_list vs"
| "clean_members [] \<longleftrightarrow> True"
| "clean_members ((k, v) # ms) \<longleftrightarrow> utf8_ok k \<and> clean v \<and> clean_members ms"

text \<open>The integer \<open>n\<close> as the float the reader gets.\<close>

definition f64_of_int :: "int \<Rightarrow> f64" where
  "f64_of_int n = (case f64_of_ratio (n < 0) (nat \<bar>n\<bar>) 1 of Some f \<Rightarrow> f | None \<Rightarrow> FNaN)"

fun received :: "gval \<Rightarrow> gval" and received_list :: "gval list \<Rightarrow> gval list"
  and received_members :: "(string \<times> gval) list \<Rightarrow> (string \<times> gval) list" where
  "received GNil = GNil"
| "received (GBool b) = GBool b"
| "received (GStr s) = GStr s"
| "received (GFloat f) = GFloat f"
| "received (GInt n) = GFloat (f64_of_int n)"
| "received (GInt64 n) = GFloat (f64_of_int n)"
| "received (GNumber s) = GFloat (the (number_f64 s))"
| "received (GStrs ss) = GArr (map GStr ss)"
| "received (GArr vs) = GArr (received_list vs)"
| "received (GMap ms) = GMap (received_members ms)"
| "received GOther = GNil"
| "received_list [] = []"
| "received_list (v # vs) = received v # received_list vs"
| "received_members [] = []"
| "received_members ((k, v) # ms) = (k, received v) # received_members ms"

text \<open>The nesting depth of the text.\<close>

fun gdepth :: "gval \<Rightarrow> nat" and gdepth_list :: "gval list \<Rightarrow> nat"
  and gdepth_members :: "(string \<times> gval) list \<Rightarrow> nat" where
  "gdepth (GStrs ss) = 1"
| "gdepth (GArr vs) = Suc (gdepth_list vs)"
| "gdepth (GMap ms) = Suc (gdepth_members ms)"
| "gdepth _ = 0"
| "gdepth_list [] = 0"
| "gdepth_list (v # vs) = max (gdepth v) (gdepth_list vs)"
| "gdepth_members [] = 0"
| "gdepth_members ((k, v) # ms) = max (gdepth v) (gdepth_members ms)"

section \<open>Marshalling and parsing\<close>

text \<open>\<open>t\<close> is the text of \<open>v\<close>: at the front of any input it parses to \<open>v\<close>.\<close>

definition text_of :: "nat \<Rightarrow> string \<Rightarrow> json \<Rightarrow> bool" where
  "text_of d t v \<longleftrightarrow>
     t \<noteq> [] \<and> \<not> is_ws (hd t) \<and> hd t \<noteq> CHR '']'' \<and> hd t \<noteq> CHR ''}'' \<and>
     (\<forall>r. value_end r \<longrightarrow> parse_value d (t @ r) = Some (v, r))"

lemma skip_ws_start [simp]: "t \<noteq> [] \<Longrightarrow> \<not> is_ws (hd t) \<Longrightarrow> skip_ws (t @ r) = t @ r"
  by (cases t) (simp_all add: skip_ws_def)

lemma skip_ws_simps [simp]: "\<not> is_ws c \<Longrightarrow> skip_ws (c # r) = c # r"
  by (simp add: skip_ws_def)

lemma is_ws_simps [simp]:
  "\<not> is_ws (CHR ''{'')" "\<not> is_ws (CHR ''['')" "\<not> is_ws (CHR 0x22)" "\<not> is_ws (CHR '','')"
  "\<not> is_ws (CHR '']'')" "\<not> is_ws (CHR ''}'')" "\<not> is_ws (CHR '':'')" "\<not> is_ws (CHR ''n'')"
  "\<not> is_ws (CHR ''t'')" "\<not> is_ws (CHR ''f'')" "\<not> is_ws (CHR ''-'')"
  by (simp_all add: is_ws_def)

lemma text_of_string: "utf8_ok s \<Longrightarrow> text_of d (json_quote s) (JStr s)"
  using parse_quote_body [of s]
  by (simp add: text_of_def json_quote_def parse_value.simps)

lemma text_of_null: "text_of d ''null'' JNull"
  by (simp add: text_of_def parse_value.simps)

lemma text_of_bool: "text_of d (if b then ''true'' else ''false'') (JBool b)"
  by (simp add: text_of_def parse_value.simps)

lemma is_digit_not:
  "is_digit c \<Longrightarrow> \<not> is_ws c \<and> c \<noteq> CHR ''{'' \<and> c \<noteq> CHR ''['' \<and> c \<noteq> CHR '']'' \<and> c \<noteq> CHR ''}'' \<and>
     c \<noteq> CHR 0x22 \<and> c \<noteq> CHR ''t'' \<and> c \<noteq> CHR ''f'' \<and> c \<noteq> CHR ''n''"
  by (auto simp: is_digit_def is_ws_def code_def)

lemma text_of_number:
  assumes "parse_number t = Some (t, [])"
  shows "text_of d t (JNum t)"
proof -
  obtain c t' where t: "t = c # t'" and c: "c = CHR ''-'' \<or> is_digit c"
    using parse_number_start [OF assms] by (cases t) auto
  then have n: "\<not> is_ws c \<and> c \<noteq> CHR ''{'' \<and> c \<noteq> CHR ''['' \<and> c \<noteq> CHR '']'' \<and> c \<noteq> CHR ''}'' \<and>
     c \<noteq> CHR 0x22 \<and> c \<noteq> CHR ''t'' \<and> c \<noteq> CHR ''f'' \<and> c \<noteq> CHR ''n''"
    using is_digit_not by auto
  have "parse_value d (t @ r) = Some (JNum t, r)" if "value_end r" for r
    using parse_number_extend [OF assms that] n by (subst parse_value.simps) (simp add: t)
  with n show ?thesis by (simp add: text_of_def t)
qed

lemma parse_elems_commas:
  assumes "list_all2 (text_of d) ts vs" "ts \<noteq> []"
  shows "parse_elems d (commas ts @ CHR '']'' # r) = Some (vs, r)"
  using assms
proof (induction ts vs rule: list_all2_induct)
  case Nil
  then show ?case by simp
next
  case (Cons t ts v vs)
  show ?case
  proof (cases ts)
    case Nil
    with Cons.hyps show ?thesis
      by (subst parse_elems.simps) (simp add: text_of_def)
  next
    case (Cons t' ts')
    then have "commas (t # ts) = t @ '','' @ commas ts" by simp
    with Cons Cons.hyps Cons.IH show ?thesis
      by (subst parse_elems.simps) (simp add: text_of_def)
  qed
qed

definition member_text :: "nat \<Rightarrow> string \<Rightarrow> string \<times> json \<Rightarrow> bool" where
  "member_text d m kv \<longleftrightarrow>
     (\<exists>t. m = json_quote (fst kv) @ '':'' @ t \<and> utf8_ok (fst kv) \<and> text_of d t (snd kv))"

lemma parse_members_commas:
  assumes "list_all2 (member_text d) ts ms" "ts \<noteq> []"
  shows "parse_members d (commas ts @ CHR ''}'' # r) = Some (ms, r)"
  using assms
proof (induction ts ms rule: list_all2_induct)
  case Nil
  then show ?case by simp
next
  case (Cons m ts kv ms)
  from Cons.hyps(1) obtain t where m: "m = json_quote (fst kv) @ '':'' @ t" "utf8_ok (fst kv)"
    "text_of d t (snd kv)" by (auto simp: member_text_def)
  have q: "parse_string (quote_body (fst kv) @ CHR 0x22 # u) = Some (fst kv, u)" for u
    using m(2) by (rule parse_quote_body)
  show ?case
  proof (cases ts)
    case Nil
    with Cons.hyps q m show ?thesis
      by (subst parse_members.simps) (simp add: text_of_def json_quote_def)
  next
    case (Cons t' ts')
    then have c: "commas (m # ts) @ CHR ''}'' # r =
        CHR 0x22 # quote_body (fst kv) @ CHR 0x22 # CHR '':'' # t @ CHR '','' # commas ts @ CHR ''}'' # r"
      by (simp add: m(1) json_quote_def)
    from Cons Cons.IH have "parse_members d (commas ts @ CHR ''}'' # r) = Some (ms, r)" by simp
    with q m(3) show ?thesis
      unfolding c by (subst parse_members.simps) (simp add: text_of_def)
  qed
qed

lemma text_of_array:
  assumes "list_all2 (text_of d) ts vs"
  shows "text_of (Suc d) (''['' @ commas ts @ '']'') (JArr vs)"
proof (cases "ts = []")
  case True
  with assms show ?thesis by (simp add: text_of_def parse_value.simps)
next
  case False
  then obtain t ts' v vs' where t: "ts = t # ts'" "text_of d t v"
    using assms by (cases ts) (auto simp: list_all2_Cons1)
  then obtain c u where c: "commas ts = c # u" "\<not> is_ws c" "c \<noteq> CHR '']''"
    by (cases ts'; cases t) (auto simp: text_of_def)
  have p: "parse_elems d (c # u @ CHR '']'' # r) = Some (vs, r)" for r
    using parse_elems_commas [OF assms False, of r] c by simp
  show ?thesis using c p
    by (simp add: text_of_def parse_value.simps)
qed

lemma text_of_object:
  assumes "list_all2 (member_text d) ts ms"
  shows "text_of (Suc d) (''{'' @ commas ts @ ''}'') (JObj ms)"
proof (cases "ts = []")
  case True
  with assms show ?thesis by (simp add: text_of_def parse_value.simps)
next
  case False
  then obtain t ts' m where t: "ts = t # ts'" "member_text d t m"
    using assms by (cases ts) (auto simp: list_all2_Cons1)
  then obtain u where c: "commas ts = CHR 0x22 # u"
    by (cases ts') (auto simp: member_text_def json_quote_def)
  have p: "parse_members d (CHR 0x22 # u @ CHR ''}'' # r) = Some (ms, r)" for r
    using parse_members_commas [OF assms False, of r] c by simp
  show ?thesis using c p
    by (simp add: text_of_def parse_value.simps)
qed

lemma text_of_marshal:
  "clean g \<Longrightarrow> gdepth g \<le> d \<Longrightarrow> \<exists>t. json_marshal g = Some t \<and> text_of d t (wire g)"
  "clean_list vs \<Longrightarrow> gdepth_list vs \<le> d \<Longrightarrow>
     \<exists>ts. marshal_list vs = Some ts \<and> list_all2 (text_of d) ts (wire_list vs)"
  "clean_members ms \<Longrightarrow> gdepth_members ms \<le> d \<Longrightarrow>
     \<exists>ts. marshal_members ms = Some ts \<and> list_all2 (member_text d) ts (wire_members ms)"
proof (induction g and vs and ms arbitrary: d and d and d
    rule: json_marshal_marshal_list_marshal_members.induct)
  case (4 f)
  then show ?case by (auto split: option.splits intro: text_of_number)
next
  case (7 s)
  then show ?case using parse_number_start [of s] by (auto intro: text_of_number)
next
  case (8 ss)
  then have "list_all2 (text_of (d - 1)) (map json_quote ss) (map JStr ss)"
    by (auto simp: list_all2_conv_all_nth list_all_length text_of_string)
  from text_of_array [OF this] 8 show ?case by simp
next
  case (9 vs)
  then obtain e where d: "d = Suc e" by (cases d) auto
  with 9 obtain ts where "marshal_list vs = Some ts" "list_all2 (text_of e) ts (wire_list vs)" by fastforce
  then show ?case using text_of_array [of e ts "wire_list vs"] by (simp add: d)
next
  case (10 ms)
  then obtain e where d: "d = Suc e" by (cases d) auto
  with 10 obtain ts where "marshal_members ms = Some ts" "list_all2 (member_text e) ts (wire_members ms)" by fastforce
  then show ?case using text_of_object [of e ts "wire_members ms"] by (simp add: d)
next
  case (13 v vs)
  then obtain t ts where "json_marshal v = Some t" "text_of d t (wire v)"
    "marshal_list vs = Some ts" "list_all2 (text_of d) ts (wire_list vs)" by fastforce
  then show ?case by simp
next
  case (15 k v ms)
  then obtain t ts where "json_marshal v = Some t" "text_of d t (wire v)"
    "marshal_members ms = Some ts" "list_all2 (member_text d) ts (wire_members ms)" by fastforce
  with 15 show ?case by (auto simp: member_text_def)
qed (use text_of_bool in \<open>auto simp: text_of_null text_of_string text_of_number parse_number_show_int\<close>)

lemma json_parse_marshal:
  assumes "clean g" "gdepth g \<le> 10000"
  obtains t where "json_marshal g = Some t" "json_parse t = Some (wire g)"
proof -
  obtain t where t: "json_marshal g = Some t" "text_of 10000 t (wire g)"
    using text_of_marshal(1) [OF assms] by blast
  then have "parse_value 10000 (t @ []) = Some (wire g, [])" by (simp only: text_of_def value_end_simps)
  then have p: "parse_value 10000 t = Some (wire g, [])" by (simp only: append_Nil2)
  have "json_parse t = Some (wire g)" unfolding json_parse_def p by (simp add: skip_ws_def)
  with t(1) show thesis by (rule that)
qed

section \<open>Integers as binary64 values\<close>

lemma bit_length_bounds: "0 < n \<Longrightarrow> 2 ^ (bit_length n - 1) \<le> n \<and> n < 2 ^ bit_length n \<and> 0 < bit_length n"
proof (induction n rule: bit_length.induct)
  case (1 n)
  show ?case
  proof (cases "n div 2 = 0")
    case True
    with 1 have "n = 1" by auto
    then show ?thesis by (simp add: bit_length.simps)
  next
    case False
    with 1 have IH: "2 ^ (bit_length (n div 2) - 1) \<le> n div 2" "n div 2 < 2 ^ bit_length (n div 2)"
      "0 < bit_length (n div 2)" by auto
    have b: "bit_length n = Suc (bit_length (n div 2))" using 1(2) by (subst bit_length.simps) simp
    then have "(2 :: nat) ^ (bit_length n - 1) = 2 * 2 ^ (bit_length (n div 2) - 1)"
      using IH(3) by (simp add: power_Suc [symmetric])
    moreover have "(2 :: nat) ^ bit_length n = 2 * 2 ^ bit_length (n div 2)" by (simp add: b)
    ultimately show ?thesis using IH b by linarith
  qed
qed

lemma bit_length_le:
  assumes "0 < n" "n < 2 ^ k"
  shows "bit_length n \<le> k"
proof -
  have "(2 :: nat) ^ (bit_length n - 1) < 2 ^ k" using bit_length_bounds [OF assms(1)] assms(2) by linarith
  then have "bit_length n - 1 < k" by simp
  then show ?thesis by simp
qed

lemma f64_norm_shift: "0 < q \<Longrightarrow> f64_norm (q * 2 ^ j) e = f64_norm q (e + int j)"
proof (induction j arbitrary: e)
  case 0
  then show ?case by simp
next
  case (Suc j)
  have "f64_norm (q * 2 ^ Suc j) e = f64_norm (q * 2 ^ j) (e + 1)"
    using Suc.prems by (subst f64_norm.simps) simp
  then show ?case using Suc by (simp add: algebra_simps)
qed

lemma f64_norm_value:
  assumes "0 < q" "0 \<le> e" "f64_norm q e = (m, x)"
  shows "e \<le> x \<and> m * 2 ^ nat x = q * 2 ^ nat e \<and> odd m"
  using assms
proof (induction q e rule: f64_norm.induct)
  case (1 q e)
  show ?case
  proof (cases "even q")
    case True
    then have "f64_norm (q div 2) (e + 1) = (m, x)" using 1(2,4) by (subst (asm) f64_norm.simps) simp
    moreover have "0 < q div 2" using True 1(2) by auto
    ultimately have "e + 1 \<le> x \<and> m * 2 ^ nat x = (q div 2) * 2 ^ nat (e + 1) \<and> odd m"
      using 1 True by simp
    moreover have "(q div 2) * 2 ^ nat (e + 1) = q * 2 ^ nat e"
      using True 1(3) by (simp add: nat_add_distrib)
    ultimately show ?thesis by simp
  next
    case False
    then show ?thesis using 1(2,4) by (subst (asm) f64_norm.simps) simp
  qed
qed

lemma f64_of_ratio_nat:
  assumes "n < 2 ^ 53"
  shows "f64_of_ratio neg n (Suc 0) = Some (let (m, x) = f64_norm n 0 in F64 neg m x)"
proof (cases "n = 0")
  case True
  then show ?thesis by (simp add: f64_of_ratio_def f64_norm.simps)
next
  case False
  let ?b = "bit_length n"
  have b: "2 ^ (?b - 1) \<le> n" "n < 2 ^ ?b" "0 < ?b" "?b \<le> 53"
    using bit_length_bounds [of n] bit_length_le [of n 53] False assms by auto
  have b1: "bit_length (Suc 0) = 1" by (simp add: bit_length.simps)
  have e: "max (int ?b - 1 - 52) (- 1074) = int ?b - 53" using b by simp
  have q: "scale_round n (Suc 0) (int ?b - 53) = n * 2 ^ (53 - ?b)"
    using b(4) by (cases "?b = 53") (auto simp: scale_round_def Let_def nat_diff_distrib)
  have "n * 2 ^ (53 - ?b) < 2 ^ ?b * 2 ^ (53 - ?b)" using b(2) by simp
  also have "\<dots> = 2 ^ 53" using b(4) by (simp add: power_add [symmetric])
  finally have l: "bit_length (n * 2 ^ (53 - ?b)) \<le> 53"
    using False by (intro bit_length_le) auto
  have g: "2 ^ nat (int ?b - 1) \<le> n" using b(1,3) by (simp add: nat_diff_distrib)
  have "f64_norm (n * 2 ^ (53 - ?b)) (int ?b - 53) = f64_norm n 0"
    using False b(4) by (subst f64_norm_shift) auto
  moreover have "\<not> 1024 + 1074 < bit_length (n * 2 ^ (53 - ?b)) + nat (int ?b - 53 + 1074)"
    using l b(4) by simp
  ultimately show ?thesis
    using False b(3) g
    by (simp add: f64_of_ratio_def Let_def b1 e [simplified] q split: prod.split)
qed

lemma f64_int_of_int: "\<bar>n\<bar> < 2 ^ 53 \<Longrightarrow> f64_int (f64_of_int n) = Some n"
proof -
  assume n: "\<bar>n\<bar> < 2 ^ 53"
  let ?n = "nat \<bar>n\<bar>"
  have "?n < 2 ^ 53" using n by simp
  then have f: "f64_of_int n = (let (m, x) = f64_norm ?n 0 in F64 (n < 0) m x)"
    by (simp add: f64_of_int_def f64_of_ratio_nat)
  show ?thesis
  proof (cases "n = 0")
    case True
    show ?thesis unfolding f using True by (simp add: f64_norm.simps)
  next
    case False
    obtain m x where mx: "f64_norm ?n 0 = (m, x)" by fastforce
    with f64_norm_value [OF _ _ mx] False have "0 \<le> x" "m * 2 ^ nat x = ?n" by auto
    then have "int m * 2 ^ nat x = \<bar>n\<bar>" by (metis of_nat_mult of_nat_numeral of_nat_power int_nat_eq abs_ge_zero)
    with \<open>0 \<le> x\<close> False show ?thesis by (auto simp: f mx)
  qed
qed

lemma takeWhile_digits: "\<forall>c \<in> set s. is_digit c \<Longrightarrow> takeWhile is_digit s = s \<and> dropWhile is_digit s = []"
  by (auto simp: takeWhile_eq_all_conv dropWhile_eq_Nil_conv)

lemma number_f64_show_int:
  assumes "\<bar>n\<bar> < 2 ^ 53"
  shows "number_f64 (show_int n) = Some (f64_of_int n)"
proof -
  have m: "\<not> is_digit (CHR ''-'')" by (simp add: is_digit_def code_def)
  have h: "show_nat k \<noteq> []" "hd (show_nat k) \<noteq> CHR ''-''" for k
    using show_nat_digits [of k] m by (cases "show_nat k"; force)+
  have t: "takeWhile is_digit (show_nat k) = show_nat k \<and> dropWhile is_digit (show_nat k) = []" for k
    using show_nat_digits [of k] by (intro takeWhile_digits) simp
  have k: "nat \<bar>n\<bar> < 2 ^ 53" using assms by simp
  have "number_f64 (show_int n) = f64_of_ratio (n < 0) (nat \<bar>n\<bar>) 1"
    using h by (simp add: number_f64_def show_int_def f64_of_decimal_def Let_def
        t [THEN conjunct1] t [THEN conjunct2])
  then show ?thesis by (simp add: f64_of_int_def f64_of_ratio_nat [OF k])
qed

section \<open>Decoding what was parsed\<close>

lemma map_put_snoc: "\<forall>k' \<in> set (map fst m). k' < k \<Longrightarrow> map_put k v m = m @ [(k, v)]"
  by (induction k v m rule: map_put.induct) auto

lemma keys_received [simp]: "map fst (received_members ms) = map fst ms"
  by (induction ms) auto

lemma map_wf_received: "map_wf ms \<Longrightarrow> map_wf (received_members ms)"
  by (simp add: map_wf_def)

lemma map_of_received [simp]: "map_of (received_members ms) k = map_option received (map_of ms k)"
  by (induction ms) auto

lemma to_any_strings: "to_any_list (map JStr ss) = Some (map GStr ss)"
  by (induction ss) auto

lemma to_any_wire:
  "clean g \<Longrightarrow> to_any (wire g) = Some (received g)"
  "clean_list vs \<Longrightarrow> to_any_list (wire_list vs) = Some (received_list vs)"
  "clean_members ms \<Longrightarrow> sorted_wrt (<) (map fst (m @ ms)) \<Longrightarrow>
     to_any_members m (wire_members ms) = Some (m @ received_members ms)"
proof (induction g and vs and ms arbitrary: and and m rule: clean_clean_list_clean_members.induct)
  case (4 f)
  then show ?case by (auto split: option.splits)
next
  case (5 n)
  then show ?case by (simp add: number_f64_show_int)
next
  case (6 n)
  then show ?case by (simp add: number_f64_show_int)
next
  case (7 s)
  then show ?case by auto
next
  case (8 ss)
  then show ?case by (simp add: to_any_strings)
next
  case (10 ms)
  then show ?case using 10(1) [of "[]"] by (simp add: map_wf_def)
next
  case (15 k v ms)
  have "\<forall>k' \<in> set (map fst m). k' < k"
    using 15(4) by (auto simp: sorted_wrt_append)
  then have p: "map_put k (received v) m = m @ [(k, received v)]" by (rule map_put_snoc)
  have "to_any_members (m @ [(k, received v)]) (wire_members ms) =
      Some ((m @ [(k, received v)]) @ received_members ms)"
    using 15(2) [of "m @ [(k, received v)]"] 15(3,4) by simp
  with 15(1,3) p show ?case by simp
qed auto

lemma header_round_trip:
  assumes "clean (GMap h)" "gdepth (GMap h) \<le> 10000"
  obtains t where "json_marshal (GMap h) = Some t" "json_parse t = Some (JObj (wire_members h))"
    "dec_map None (JObj (wire_members h)) = Some (Some (received_members h))"
proof -
  obtain t where "json_marshal (GMap h) = Some t" "json_parse t = Some (wire (GMap h))"
    by (rule json_parse_marshal [OF assms])
  moreover have "to_any_members [] (wire_members h) = Some (received_members h)"
    using assms(1) to_any_wire(3) [of h "[]"] by (simp add: map_wf_def)
  ultimately show thesis by (intro that) (simp_all add: dec_map_def)
qed

end
