(* ===== verification/Header.thy ===== *)
theory Header
  imports Base64 JsonFacts
begin

text \<open>
  \<^verbatim>\<open>src/header.go\<close>: the JOSE header as a string-keyed map, its accessors, its encoding, the
  merge of the protected and unprotected parts and the rules for \<^verbatim>\<open>crit\<close>. A \<^verbatim>\<open>map[string]any\<close>
  is a \<open>header\<close>; a nil map reads like the empty one. \<^verbatim>\<open>resolveKey\<close>, which the file also holds,
  is modelled with the JWKs it unwraps.
\<close>

section \<open>Accessors\<close>

definition header_String :: "header \<Rightarrow> string \<Rightarrow> string" where
  "header_String h name = (case map_of h name of Some (GStr s) \<Rightarrow> s | _ \<Rightarrow> [])"

definition Algorithm :: "header \<Rightarrow> string" where "Algorithm h = header_String h ''alg''"
definition Encryption :: "header \<Rightarrow> string" where "Encryption h = header_String h ''enc''"
definition KeyID :: "header \<Rightarrow> string" where "KeyID h = header_String h ''kid''"
definition Type :: "header \<Rightarrow> string" where "Type h = header_String h ''typ''"
definition ContentType :: "header \<Rightarrow> string" where "ContentType h = header_String h ''cty''"

fun gval_strings :: "gval list \<Rightarrow> string list option" where
  "gval_strings [] = Some []"
| "gval_strings (GStr s # vs) = map_option (\<lambda>ss. s # ss) (gval_strings vs)"
| "gval_strings _ = None"

text \<open>\<open>None\<close> is the second result \<^verbatim>\<open>false\<close>.\<close>

definition Critical :: "header \<Rightarrow> string list option" where
  "Critical h =
     (case map_of h ''crit'' of
        None \<Rightarrow> None
      | Some (GStrs ss) \<Rightarrow> Some ss
      | Some (GArr vs) \<Rightarrow> gval_strings vs
      | _ \<Rightarrow> None)"

section \<open>Encoding\<close>

definition unmarshal_header :: "bytes \<Rightarrow> header option option" where
  "unmarshal_header raw =
     (case json_parse (string_of_bytes raw) of
        None \<Rightarrow> None
      | Some v \<Rightarrow> dec_map None v)"

definition decodeHeader :: "string \<Rightarrow> header res" where
  "decodeHeader seg =
     (case DecodeSegment seg of
        Inl _ \<Rightarrow> Inl ErrMalformed
      | Inr raw \<Rightarrow>
          (case unmarshal_header raw of
             None \<Rightarrow> Inl ErrMalformed
           | Some None \<Rightarrow> Inl ErrMalformed
           | Some (Some h) \<Rightarrow> Inr h))"

definition encodeHeader :: "header \<Rightarrow> string res" where
  "encodeHeader h =
     (case json_marshal (GMap h) of
        None \<Rightarrow> Inl ErrInvalidHeader
      | Some raw \<Rightarrow> Inr (EncodeSegment (bytes_of_string raw)))"

section \<open>Copying and merging\<close>

definition copyHeader :: "header list \<Rightarrow> header" where
  "copyHeader hs = foldl (foldl (\<lambda>out (k, v). map_put k v out)) [] hs"

definition merge_into :: "header \<Rightarrow> header \<Rightarrow> header res" where
  "merge_into =
     rfoldl (\<lambda>out (k, v). if map_of out k \<noteq> None then Inl ErrInvalidHeader else Inr (map_put k v out))"

definition mergeHeaders :: "header list \<Rightarrow> header res" where
  "mergeHeaders hs = rfoldl merge_into [] hs"

section \<open>Critical parameters\<close>

definition registeredHeaders :: "string list" where
  "registeredHeaders =
     [''alg'', ''jku'', ''jwk'', ''kid'', ''x5u'',
      ''x5c'', ''x5t'', ''x5t#S256'', ''typ'', ''cty'',
      ''crit'', ''enc'', ''zip'', ''epk'', ''apu'',
      ''apv'', ''iv'', ''tag'', ''p2s'', ''p2c'']"

definition isRegisteredHeader :: "string \<Rightarrow> bool" where
  "isRegisteredHeader name \<longleftrightarrow> name \<in> set registeredHeaders"

fun containsString :: "string list \<Rightarrow> string \<Rightarrow> bool" where
  "containsString [] s = False"
| "containsString (v # vs) s = (if v = s then True else containsString vs s)"

definition check_crit_name :: "header \<Rightarrow> string list \<Rightarrow> unit \<Rightarrow> string \<Rightarrow> unit res" where
  "check_crit_name protected known u name =
     (if name = [] then Inl ErrInvalidCrit
      else if isRegisteredHeader name then Inl ErrInvalidCrit
      else if map_of protected name = None then Inl ErrUnprotectedCritical
      else if \<not> containsString known name then Inl ErrInvalidCrit
      else Inr ())"

definition checkCritical :: "header \<Rightarrow> string list \<Rightarrow> unit res" where
  "checkCritical protected known =
     (case Critical protected of
        None \<Rightarrow> if map_of protected ''crit'' \<noteq> None then Inl ErrInvalidCrit else Inr ()
      | Some crit \<Rightarrow>
          if length crit = 0 then Inl ErrInvalidCrit
          else rfoldl (check_crit_name protected known) () crit)"

definition checkCriticalProduced :: "header \<Rightarrow> unit res" where
  "checkCriticalProduced protected =
     (if map_of protected ''crit'' = None then Inr ()
      else case Critical protected of
          None \<Rightarrow> Inl ErrInvalidCrit
        | Some crit \<Rightarrow> checkCritical protected crit)"

section \<open>Lemmas\<close>

lemma containsString_iff [simp]: "containsString ss s \<longleftrightarrow> s \<in> set ss"
  by (induction ss) auto

lemma isRegisteredHeader_iff: "isRegisteredHeader name \<longleftrightarrow> name \<in> set registeredHeaders"
  by (simp add: isRegisteredHeader_def)

text \<open>Folding a map into another: last write wins.\<close>

lemma fold_put_map_of:
  "distinct (map fst h) \<Longrightarrow> map_of (foldl (\<lambda>out (k, v). map_put k v out) m h) = map_of m ++ map_of h"
proof (induction h arbitrary: m)
  case Nil
  then show ?case by simp
next
  case (Cons kv h)
  obtain k v where kv: "kv = (k, v)" by (cases kv)
  from Cons have "map_of (foldl (\<lambda>out (k, v). map_put k v out) m (kv # h)) =
      (map_of m)(k \<mapsto> v) ++ map_of h" by (simp add: kv)
  moreover have "map_of h k = None" using Cons.prems by (simp add: kv map_of_eq_None_iff)
  ultimately show ?case by (auto simp: kv map_add_def fun_eq_iff split: option.splits)
qed

lemma fold_put_wf: "map_wf m \<Longrightarrow> map_wf (foldl (\<lambda>out (k, v). map_put k v out) m h)"
  by (induction h arbitrary: m) auto

lemma map_wf_distinct: "map_wf m \<Longrightarrow> distinct (map fst m)"
  by (simp add: map_wf_def strict_sorted_iff)

lemma copyHeader_wf [simp]: "map_wf (copyHeader hs)"
proof -
  have "map_wf m \<Longrightarrow> map_wf (foldl (foldl (\<lambda>out (k, v). map_put k v out)) m hs)" for m
    by (induction hs arbitrary: m) (simp_all add: fold_put_wf)
  then show ?thesis by (simp add: copyHeader_def)
qed

lemma map_of_copyHeader:
  "(\<And>h. h \<in> set hs \<Longrightarrow> map_wf h) \<Longrightarrow> map_of (copyHeader hs) = foldl (\<lambda>m h. m ++ map_of h) Map.empty hs"
proof -
  have "(\<And>h. h \<in> set hs \<Longrightarrow> map_wf h) \<Longrightarrow>
    map_of (foldl (foldl (\<lambda>out (k, v). map_put k v out)) m hs) = foldl (\<lambda>m h. m ++ map_of h) (map_of m) hs" for m
    by (induction hs arbitrary: m) (simp_all add: fold_put_map_of map_wf_distinct)
  then show "(\<And>h. h \<in> set hs \<Longrightarrow> map_wf h) \<Longrightarrow> ?thesis" by (simp add: copyHeader_def)
qed

lemma copyHeader_single: "map_wf h \<Longrightarrow> copyHeader [h] = h"
proof (rule map_wf_ext)
  assume "map_wf h"
  then show "map_of (copyHeader [h]) = map_of h" by (subst map_of_copyHeader) simp_all
qed simp_all

text \<open>A merge step succeeds exactly on disjoint maps.\<close>

lemma merge_into_cases:
  assumes "distinct (map fst h)"
  shows "merge_into m h =
    (if dom (map_of m) \<inter> dom (map_of h) = {} then Inr (foldl (\<lambda>out (k, v). map_put k v out) m h)
     else Inl ErrInvalidHeader)"
  using assms
proof (induction h arbitrary: m)
  case Nil
  then show ?case by (simp add: merge_into_def)
next
  case (Cons kv h)
  obtain k v where kv: "kv = (k, v)" by (cases kv)
  have k: "k \<notin> dom (map_of h)" using Cons.prems by (simp add: kv dom_map_of_conv_image_fst)
  show ?case
  proof (cases "map_of m k")
    case None
    have d: "dom (map_of (map_put k v m)) = insert k (dom (map_of m))"
      "dom (map_of (kv # h)) = insert k (dom (map_of h))" by (simp_all add: kv)
    have "dom (map_of (map_put k v m)) \<inter> dom (map_of h) = {} \<longleftrightarrow>
        dom (map_of m) \<inter> dom (map_of (kv # h)) = {}"
      unfolding d using None k by auto
    moreover have "merge_into m (kv # h) = merge_into (map_put k v m) h"
      by (simp add: merge_into_def kv None)
    moreover have "distinct (map fst h)" using Cons.prems by (simp add: kv)
    moreover have "foldl (\<lambda>out (k, v). map_put k v out) m (kv # h) =
        foldl (\<lambda>out (k, v). map_put k v out) (map_put k v m) h" by (simp add: kv)
    ultimately show ?thesis using Cons.IH [of "map_put k v m"] by (simp only:)
  next
    case (Some w)
    then have "k \<in> dom (map_of m) \<inter> dom (map_of (kv # h))" by (simp add: kv domI)
    with Some show ?thesis by (auto simp: merge_into_def kv)
  qed
qed

definition pairwise_disjoint :: "header list \<Rightarrow> bool" where
  "pairwise_disjoint hs \<longleftrightarrow>
     (\<forall>i < length hs. \<forall>j < i. dom (map_of (hs ! j)) \<inter> dom (map_of (hs ! i)) = {})"

lemma pairwise_disjoint_snoc:
  "pairwise_disjoint (hs @ [h]) \<longleftrightarrow>
     pairwise_disjoint hs \<and> (\<forall>g \<in> set hs. dom (map_of g) \<inter> dom (map_of h) = {})"
  by (auto simp: pairwise_disjoint_def nth_append less_Suc_eq in_set_conv_nth) fastforce+

lemma rfoldl_snoc: "rfoldl f s (xs @ [x]) = rbind (rfoldl f s xs) (\<lambda>s'. f s' x)"
  by (induction xs arbitrary: s) (simp_all add: rbind_assoc, metis rbind.simps rbind_assoc old.sum.exhaust)

lemma dom_copyHeader:
  "(\<And>h. h \<in> set hs \<Longrightarrow> map_wf h) \<Longrightarrow> dom (map_of (copyHeader hs)) = (\<Union>h \<in> set hs. dom (map_of h))"
proof (induction hs rule: rev_induct)
  case Nil
  then show ?case by (simp add: copyHeader_def)
next
  case (snoc h hs)
  then show ?case by (simp add: copyHeader_def fold_put_map_of map_wf_distinct Un_commute)
qed

lemma mergeHeaders_cases:
  "(\<And>h. h \<in> set hs \<Longrightarrow> map_wf h) \<Longrightarrow>
   mergeHeaders hs = (if pairwise_disjoint hs then Inr (copyHeader hs) else Inl ErrInvalidHeader)"
proof (induction hs rule: rev_induct)
  case Nil
  then show ?case by (simp add: mergeHeaders_def copyHeader_def pairwise_disjoint_def)
next
  case (snoc h hs)
  then have IH: "mergeHeaders hs = (if pairwise_disjoint hs then Inr (copyHeader hs) else Inl ErrInvalidHeader)"
    and h: "distinct (map fst h)" by (simp_all add: map_wf_distinct)
  have "dom (map_of (copyHeader hs)) \<inter> dom (map_of h) = {} \<longleftrightarrow>
      (\<forall>g \<in> set hs. dom (map_of g) \<inter> dom (map_of h) = {})"
    using snoc.prems by (auto simp: dom_copyHeader)
  with IH merge_into_cases [OF h] show ?case
    by (auto simp: mergeHeaders_def rfoldl_snoc pairwise_disjoint_snoc copyHeader_def)
qed

lemma mergeHeaders_wf: "mergeHeaders hs = Inr m \<Longrightarrow> (\<And>h. h \<in> set hs \<Longrightarrow> map_wf h) \<Longrightarrow> map_wf m"
  by (auto simp: mergeHeaders_cases split: if_splits)

text \<open>What an accepted \<^verbatim>\<open>crit\<close> promises.\<close>

definition crit_ok :: "header \<Rightarrow> string list \<Rightarrow> string list \<Rightarrow> bool" where
  "crit_ok protected known crit \<longleftrightarrow>
     crit \<noteq> [] \<and>
     list_all (\<lambda>name. name \<noteq> [] \<and> name \<notin> set registeredHeaders \<and>
        map_of protected name \<noteq> None \<and> name \<in> set known) crit"

lemma check_crit_names:
  "rfoldl (check_crit_name protected known) u crit = Inr u' \<longleftrightarrow>
     list_all (\<lambda>name. name \<noteq> [] \<and> name \<notin> set registeredHeaders \<and>
        map_of protected name \<noteq> None \<and> name \<in> set known) crit"
  by (induction crit arbitrary: u)
    (auto simp: check_crit_name_def isRegisteredHeader_iff rbind_Inr_iff)

lemma checkCritical_iff:
  "checkCritical protected known = Inr u \<longleftrightarrow>
     map_of protected ''crit'' = None \<or>
     (\<exists>crit. Critical protected = Some crit \<and> crit_ok protected known crit)"
proof (cases "Critical protected")
  case None
  then show ?thesis by (auto simp: checkCritical_def)
next
  case (Some crit)
  then have "map_of protected ''crit'' \<noteq> None"
    by (cases "map_of protected ''crit''") (simp_all add: Critical_def)
  with Some show ?thesis by (auto simp: checkCritical_def crit_ok_def check_crit_names)
qed

lemma checkCriticalProduced_iff:
  "checkCriticalProduced protected = Inr u \<longleftrightarrow>
     map_of protected ''crit'' = None \<or>
     (\<exists>crit. Critical protected = Some crit \<and> crit_ok protected crit crit)"
  by (auto simp: checkCriticalProduced_def checkCritical_iff split: option.splits)

lemma checkCritical_error: "checkCritical protected known = Inl e \<Longrightarrow> errors_is e ErrInvalidCrit"
proof -
  have "rfoldl (check_crit_name protected known) u crit = Inl e \<Longrightarrow> errors_is e ErrInvalidCrit" for u crit
    by (induction crit arbitrary: u)
      (auto simp: check_crit_name_def rbind_Inl_iff errors_is_def split: if_splits)
  then show "checkCritical protected known = Inl e \<Longrightarrow> ?thesis"
    by (auto simp: checkCritical_def errors_is_def split: option.splits if_splits)
qed

text \<open>The encoded header and what a recipient decodes.\<close>

lemma decode_encodeHeader:
  assumes "clean (GMap h)" "gdepth (GMap h) \<le> 10000"
  obtains seg where "encodeHeader h = Inr seg" "decodeHeader seg = Inr (received_members h)"
    "CHR ''.'' \<notin> set seg" "seg \<noteq> []"
proof -
  obtain t where t: "json_marshal (GMap h) = Some t" "json_parse t = Some (JObj (wire_members h))"
    "dec_map None (JObj (wire_members h)) = Some (Some (received_members h))"
    by (rule header_round_trip [OF assms])
  let ?seg = "EncodeSegment (bytes_of_string t)"
  have "t \<noteq> []" using t(1) by (auto split: option.splits)
  then have "encodeHeader h = Inr ?seg" "decodeHeader ?seg = Inr (received_members h)" "?seg \<noteq> []"
    using t by (simp_all add: encodeHeader_def decodeHeader_def Decode_EncodeSegment unmarshal_header_def)
  then show thesis using that EncodeSegment_no_dot by blast
qed

lemma encodeHeader_error: "encodeHeader h = Inl e \<Longrightarrow> e = ErrInvalidHeader"
  by (auto simp: encodeHeader_def split: option.splits)

lemma decodeHeader_error: "decodeHeader seg = Inl e \<Longrightarrow> e = ErrMalformed"
  by (auto simp: decodeHeader_def split: sum.splits option.splits)

lemma to_any_members_wf: "map_wf m \<Longrightarrow> to_any_members m ms = Some m' \<Longrightarrow> map_wf m'"
proof (induction ms arbitrary: m)
  case Nil
  then show ?case by simp
next
  case (Cons kv ms)
  then obtain x where "to_any_members (map_put (fst kv) x m) ms = Some m'"
    by (cases kv) (auto split: option.splits)
  with Cons.IH [OF map_wf_put] Cons.prems(1) show ?case by blast
qed

lemma dec_map_wf: "dec_map (Some m) v = Some (Some m') \<Longrightarrow> map_wf m \<Longrightarrow> map_wf m'"
  "dec_map None v = Some (Some m') \<Longrightarrow> map_wf m'"
  by (auto simp: dec_map_def split: json.splits dest: to_any_members_wf to_any_members_wf [OF map_wf_Nil])

lemma decodeHeader_wf: "decodeHeader seg = Inr h \<Longrightarrow> map_wf h"
  by (auto simp: decodeHeader_def unmarshal_header_def split: sum.splits option.splits dest: dec_map_wf)

lemma header_String_received [simp]: "header_String (received_members h) name = header_String h name"
proof (cases "map_of h name")
  case None
  then show ?thesis by (simp add: header_String_def)
next
  case (Some g)
  then show ?thesis by (cases g) (simp_all add: header_String_def)
qed

lemma gval_strings_received [simp]: "gval_strings (received_list vs) = gval_strings vs"
proof (induction vs)
  case Nil
  then show ?case by simp
next
  case (Cons v vs)
  then show ?case by (cases v) simp_all
qed

lemma gval_strings_map [simp]: "gval_strings (map GStr ss) = Some ss"
  by (induction ss) simp_all

lemma Critical_received [simp]: "Critical (received_members h) = Critical h"
proof (cases "map_of h ''crit''")
  case None
  then show ?thesis by (simp add: Critical_def)
next
  case (Some g)
  then show ?thesis by (cases g) (simp_all add: Critical_def)
qed

lemma checkCritical_received [simp]: "checkCritical (received_members h) known = checkCritical h known"
proof -
  have "check_crit_name (received_members h) known = check_crit_name h known"
    by (intro ext) (simp add: check_crit_name_def)
  then show ?thesis by (simp add: checkCritical_def split: option.splits)
qed

section \<open>Properties\<close>



text \<open>
  (C12) Merging the protected and unprotected headers succeeds exactly when no parameter name
  appears in two of them, and then it is their union; a repeated name is \<open>ErrInvalidHeader\<close>.
\<close>

theorem mergeHeaders_exact:
  assumes "\<forall>h \<in> set hs. map_wf h"
  shows "mergeHeaders hs = (if pairwise_disjoint hs then Inr (copyHeader hs) else Inl ErrInvalidHeader) \<and>
    map_of (copyHeader hs) = foldl (\<lambda>m h. m ++ map_of h) Map.empty hs"
  using assms by (simp_all add: mergeHeaders_cases map_of_copyHeader)

lemma mergeHeaders_exact_witness:
  "mergeHeaders [[(''alg'', GStr ''HS256'')], [(''kid'', GStr ''1'')]] =
    Inr (copyHeader [[(''alg'', GStr ''HS256'')], [(''kid'', GStr ''1'')]]) \<and>
   mergeHeaders [[(''kid'', GStr ''1'')], [(''kid'', GStr ''2'')]] = Inl ErrInvalidHeader"
  using mergeHeaders_exact [of "[[(''alg'', GStr ''HS256'')], [(''kid'', GStr ''1'')]]"]
    mergeHeaders_exact [of "[[(''kid'', GStr ''1'')], [(''kid'', GStr ''2'')]]"]
  by (simp add: map_wf_def pairwise_disjoint_def less_Suc_eq numeral_2_eq_2)

text \<open>
  (C13) The \<^verbatim>\<open>crit\<close> rule: a header passes exactly when it has no \<^verbatim>\<open>crit\<close>, or when \<^verbatim>\<open>crit\<close> is a
  non-empty list of non-empty, unregistered names, each present in the protected header and
  each understood by the recipient. Every failure is an \<open>ErrInvalidCrit\<close>.
\<close>

theorem checkCritical_exact:
  "case checkCritical protected known of
     Inr _ \<Rightarrow> map_of protected ''crit'' = None \<or>
             (\<exists>crit. Critical protected = Some crit \<and> crit_ok protected known crit)
   | Inl e \<Rightarrow> errors_is e ErrInvalidCrit \<and> map_of protected ''crit'' \<noteq> None \<and>
             \<not> (\<exists>crit. Critical protected = Some crit \<and> crit_ok protected known crit)"
proof (cases "checkCritical protected known")
  case (Inl e)
  with checkCritical_iff [of protected known "()"] checkCritical_error [of protected known e]
  show ?thesis by auto
next
  case (Inr u)
  with checkCritical_iff [of protected known u] show ?thesis by simp
qed



end
