(* ===== verification/Prims.thy ===== *)
theory Prims
  imports Errors Hash
begin

text \<open>
  The keys the package handles, and the asymmetric primitives and the DEFLATE codec of Go's
  standard library that it calls. Keys are plain data. The primitives are the fields of a
  record that every operation using them takes as its first argument, so nothing about them is
  assumed by the definitions; what a property needs of them is a named law below, stated as
  the documentation of the Go package states it. A random source that a primitive reads is an
  argument, and what is left of it a result.
\<close>

section \<open>Elliptic curves\<close>

text \<open>
  The \<^verbatim>\<open>elliptic.Curve\<close> of an ECDSA key: one of the three the package supports, or any other
  curve value, known by the name and the bit size its parameters state.
\<close>

datatype ec_curve = P256 | P384 | P521 | OtherCurve string nat

fun curve_Name :: "ec_curve \<Rightarrow> string" where
  "curve_Name P256 = ''P-256''"
| "curve_Name P384 = ''P-384''"
| "curve_Name P521 = ''P-521''"
| "curve_Name (OtherCurve name bits) = name"

fun curve_BitSize :: "ec_curve \<Rightarrow> nat" where
  "curve_BitSize P256 = 256"
| "curve_BitSize P384 = 384"
| "curve_BitSize P521 = 521"
| "curve_BitSize (OtherCurve name bits) = bits"

text \<open>The field prime, the coefficient \<open>b\<close> and the group order of the NIST curves.\<close>

definition curve_P :: "ec_curve \<Rightarrow> nat" where
  "curve_P c =
     (case c of
        P256 \<Rightarrow> 2 ^ 256 - 2 ^ 224 + 2 ^ 192 + 2 ^ 96 - 1
      | P384 \<Rightarrow> 2 ^ 384 - 2 ^ 128 - 2 ^ 96 + 2 ^ 32 - 1
      | P521 \<Rightarrow> 2 ^ 521 - 1
      | OtherCurve _ _ \<Rightarrow> 0)"

definition curve_B :: "ec_curve \<Rightarrow> nat" where
  "curve_B c =
     (case c of
        P256 \<Rightarrow> 0x5ac635d8aa3a93e7b3ebbd55769886bc651d06b0cc53b0f63bce3c3e27d2604b
      | P384 \<Rightarrow> 0xb3312fa7e23ee7e4988e056be3f82d19181d9c6efe8141120314088f5013875ac656398d8a2ed19d2a85c8edd3ec2aef
      | P521 \<Rightarrow> 0x051953eb9618e1c9a1f929a21a0b68540eea2da725b99b315f3b8b489918ef109e156193951ec7e937b1652c0bd3bb1bf073573df883d2c34f1ef451fd46b503f00
      | OtherCurve _ _ \<Rightarrow> 0)"

definition curve_N :: "ec_curve \<Rightarrow> nat" where
  "curve_N c =
     (case c of
        P256 \<Rightarrow> 0xffffffff00000000ffffffffffffffffbce6faada7179e84f3b9cac2fc632551
      | P384 \<Rightarrow> 0xffffffffffffffffffffffffffffffffffffffffffffffffc7634d81f4372ddf581a0db248b0a77aecec196accc52973
      | P521 \<Rightarrow> 0x1fffffffffffffffffffffffffffffffffffffffffffffffffffffffffffffffffa51868783bf2f966b7fcc0148f709a5d03bb5c9b8899c47aebb6fb71e91386409
      | OtherCurve _ _ \<Rightarrow> 0)"

text \<open>
  \<^verbatim>\<open>IsOnCurve\<close> of the NIST curves: reduced coordinates, \<open>y ^ 2 = x ^ 3 - 3 x + b\<close> in the field,
  and not the pair \<open>(0, 0)\<close> that stands for infinity.
\<close>

definition IsOnCurve :: "ec_curve \<Rightarrow> nat \<Rightarrow> nat \<Rightarrow> bool" where
  "IsOnCurve c x y \<longleftrightarrow>
     (let p = curve_P c
      in x < p \<and> y < p \<and> (x, y) \<noteq> (0, 0) \<and>
         (y * y) mod p = (x * x * x + (p - 3) * x + curve_B c) mod p)"

text \<open>\<^verbatim>\<open>crypto/ecdh\<close>: its curves and the encodings it accepts.\<close>

datatype ecdh_curve = X25519 | EcdhP256 | EcdhP384 | EcdhP521

fun ecdh_elliptic :: "ecdh_curve \<Rightarrow> ec_curve option" where
  "ecdh_elliptic X25519 = None"
| "ecdh_elliptic EcdhP256 = Some P256"
| "ecdh_elliptic EcdhP384 = Some P384"
| "ecdh_elliptic EcdhP521 = Some P521"

section \<open>Keys\<close>

record rsa_pub =
  rsa_N :: nat
  rsa_E :: int

record rsa_priv =
  rsa_PublicKey :: rsa_pub
  rsa_D :: nat
  rsa_Primes :: "nat list"
  rsa_Precomputed :: "(nat \<times> nat \<times> nat) option"

text \<open>A key's curve is an interface value and may be nil.\<close>

record ecdsa_pub =
  ec_Curve :: "ec_curve option"
  ec_X :: nat
  ec_Y :: nat

record ecdsa_priv =
  ec_PublicKey :: ecdsa_pub
  ec_D :: nat

record ecdh_pub =
  ecdh_Curve :: ecdh_curve
  ecdh_Bytes :: bytes

text \<open>An ECDH private key keeps its public key.\<close>

record ecdh_priv =
  ecdh_Scalar :: bytes
  ecdh_Public :: ecdh_pub

section \<open>The primitives\<close>

record prims =
  p_rsa_validate :: "rsa_priv \<Rightarrow> bool"
  p_rsa_precompute :: "rsa_priv \<Rightarrow> (nat \<times> nat \<times> nat)"
  p_rsa_sign_pkcs1 :: "rsa_priv \<Rightarrow> hash_fn \<Rightarrow> bytes \<Rightarrow> entropy \<Rightarrow> (bytes \<times> entropy) option"
  p_rsa_verify_pkcs1 :: "rsa_pub \<Rightarrow> hash_fn \<Rightarrow> bytes \<Rightarrow> bytes \<Rightarrow> bool"
  p_rsa_sign_pss :: "rsa_priv \<Rightarrow> hash_fn \<Rightarrow> bytes \<Rightarrow> entropy \<Rightarrow> (bytes \<times> entropy) option"
  p_rsa_verify_pss :: "rsa_pub \<Rightarrow> hash_fn \<Rightarrow> bytes \<Rightarrow> bytes \<Rightarrow> bool"
  p_ecdsa_sign :: "ecdsa_priv \<Rightarrow> bytes \<Rightarrow> entropy \<Rightarrow> ((nat \<times> nat) \<times> entropy) option"
  p_ecdsa_verify :: "ecdsa_pub \<Rightarrow> bytes \<Rightarrow> nat \<Rightarrow> nat \<Rightarrow> bool"
  p_ed25519_public :: "bytes \<Rightarrow> bytes"
  p_ed25519_sign :: "bytes \<Rightarrow> bytes \<Rightarrow> bytes"
  p_ed25519_verify :: "bytes \<Rightarrow> bytes \<Rightarrow> bytes \<Rightarrow> bool"
  p_rsa_encrypt_pkcs1 :: "rsa_pub \<Rightarrow> bytes \<Rightarrow> entropy \<Rightarrow> (bytes \<times> entropy) option"
  p_rsa_open_pkcs1 :: "rsa_priv \<Rightarrow> bytes \<Rightarrow> nat \<Rightarrow> bytes option option"
  p_rsa_encrypt_oaep :: "hash_fn \<Rightarrow> rsa_pub \<Rightarrow> bytes \<Rightarrow> entropy \<Rightarrow> (bytes \<times> entropy) option"
  p_rsa_decrypt_oaep :: "hash_fn \<Rightarrow> rsa_priv \<Rightarrow> bytes \<Rightarrow> bytes option"
  p_ecdh_public :: "ecdh_curve \<Rightarrow> bytes \<Rightarrow> bytes"
  p_ecdh_generate :: "ecdh_curve \<Rightarrow> entropy \<Rightarrow> (bytes \<times> entropy) option"
  p_ecdh_shared :: "ecdh_curve \<Rightarrow> bytes \<Rightarrow> bytes \<Rightarrow> bytes option"
  p_deflate :: "bytes \<Rightarrow> bytes"
  p_flate_read :: "bytes \<Rightarrow> nat \<Rightarrow> bytes \<times> bool"
  p_is_print :: "nat \<Rightarrow> bool"

text \<open>
  \<^verbatim>\<open>rsa.DecryptPKCS1v15SessionKey\<close>. \<open>p_rsa_open_pkcs1 priv c n\<close> is \<open>None\<close> for the errors the
  function reports (a ciphertext of the wrong size, a modulus too short for an \<open>n\<close>-octet key)
  and \<open>Some None\<close> for padding that is not valid. As documented, valid padding around a message
  of the key's length copies the message into \<open>key\<close>; otherwise \<open>key\<close> is unchanged.
\<close>

definition DecryptPKCS1v15SessionKey :: "prims \<Rightarrow> rsa_priv \<Rightarrow> bytes \<Rightarrow> bytes \<Rightarrow> bytes option" where
  "DecryptPKCS1v15SessionKey pr priv c key =
     (case p_rsa_open_pkcs1 pr priv c (length key) of
        None \<Rightarrow> None
      | Some None \<Rightarrow> Some key
      | Some (Some m) \<Rightarrow> Some (if length m = length key then m else key))"

text \<open>\<^verbatim>\<open>PrivateKey.Public\<close> and \<^verbatim>\<open>NewKeyFromSeed\<close> of \<^verbatim>\<open>crypto/ed25519\<close>; the former slices the key.\<close>

definition ed25519_Public :: "bytes \<Rightarrow> bytes res" where
  "ed25519_Public priv =
     (if length priv < 32 then Inl Panic
      else Inr (take 32 (drop 32 priv @ replicate 32 0)))"

definition ed25519_NewKeyFromSeed :: "prims \<Rightarrow> bytes \<Rightarrow> bytes" where
  "ed25519_NewKeyFromSeed pr seed = seed @ p_ed25519_public pr seed"

text \<open>\<^verbatim>\<open>NewPublicKey\<close> and \<^verbatim>\<open>NewPrivateKey\<close> of the \<^verbatim>\<open>crypto/ecdh\<close> curves.\<close>

definition ecdh_NewPublicKey :: "ecdh_curve \<Rightarrow> bytes \<Rightarrow> ecdh_pub option" where
  "ecdh_NewPublicKey c b =
     (case ecdh_elliptic c of
        None \<Rightarrow> if length b = 32 then Some \<lparr>ecdh_Curve = c, ecdh_Bytes = b\<rparr> else None
      | Some e \<Rightarrow>
          let sz = (curve_BitSize e + 7) div 8
          in if length b = 1 + 2 * sz \<and> hd b = 4 \<and>
                IsOnCurve e (be_nat (take sz (drop 1 b))) (be_nat (drop (1 + sz) b))
             then Some \<lparr>ecdh_Curve = c, ecdh_Bytes = b\<rparr> else None)"

definition ecdh_NewPrivateKey :: "prims \<Rightarrow> ecdh_curve \<Rightarrow> bytes \<Rightarrow> ecdh_priv option" where
  "ecdh_NewPrivateKey pr c d =
     (if (case ecdh_elliptic c of
            None \<Rightarrow> length d = 32
          | Some e \<Rightarrow> length d = (curve_BitSize e + 7) div 8 \<and> 0 < be_nat d \<and> be_nat d < curve_N e)
      then Some \<lparr>ecdh_Scalar = d, ecdh_Public = \<lparr>ecdh_Curve = c, ecdh_Bytes = p_ecdh_public pr c d\<rparr>\<rparr>
      else None)"

section \<open>Laws of the primitives\<close>

text \<open>Signing and verifying agree: a signature made with a private key verifies with its public key.\<close>

definition rsa_sig_law :: "prims \<Rightarrow> rsa_priv \<Rightarrow> bool" where
  "rsa_sig_law pr priv \<longleftrightarrow>
     (\<forall>h d w s w'. p_rsa_sign_pkcs1 pr priv h d w = Some (s, w') \<longrightarrow>
        s \<noteq> [] \<and> p_rsa_verify_pkcs1 pr (rsa_PublicKey priv) h d s) \<and>
     (\<forall>h d w s w'. p_rsa_sign_pss pr priv h d w = Some (s, w') \<longrightarrow>
        s \<noteq> [] \<and> p_rsa_verify_pss pr (rsa_PublicKey priv) h d s)"

definition ecdsa_sig_law :: "prims \<Rightarrow> ecdsa_priv \<Rightarrow> bool" where
  "ecdsa_sig_law pr priv \<longleftrightarrow>
     (\<forall>d w r s w'. p_ecdsa_sign pr priv d w = Some ((r, s), w') \<longrightarrow>
        p_ecdsa_verify pr (ec_PublicKey priv) d r s)"

definition ed25519_sig_law :: "prims \<Rightarrow> bytes \<Rightarrow> bool" where
  "ed25519_sig_law pr priv \<longleftrightarrow>
     (\<forall>m. p_ed25519_sign pr priv m \<noteq> [] \<and>
          p_ed25519_verify pr (drop 32 priv) m (p_ed25519_sign pr priv m))"

text \<open>Key transport: what was encrypted to the public key is what the private key recovers.\<close>

definition rsa_enc_law :: "prims \<Rightarrow> rsa_priv \<Rightarrow> bool" where
  "rsa_enc_law pr priv \<longleftrightarrow>
     (\<forall>m w c w'. p_rsa_encrypt_pkcs1 pr (rsa_PublicKey priv) m w = Some (c, w') \<longrightarrow>
        p_rsa_open_pkcs1 pr priv c (length m) = Some (Some m)) \<and>
     (\<forall>h m w c w'. p_rsa_encrypt_oaep pr h (rsa_PublicKey priv) m w = Some (c, w') \<longrightarrow>
        p_rsa_decrypt_oaep pr h priv c = Some m)"

text \<open>Diffie-Hellman: both sides compute the same secret.\<close>

definition ecdh_law :: "prims \<Rightarrow> ecdh_curve \<Rightarrow> bool" where
  "ecdh_law pr c \<longleftrightarrow>
     (\<forall>d e. p_ecdh_shared pr c d (p_ecdh_public pr c e) = p_ecdh_shared pr c e (p_ecdh_public pr c d)) \<and>
     (\<forall>w d w'. p_ecdh_generate pr c w = Some (d, w') \<longrightarrow>
        ecdh_NewPrivateKey pr c d \<noteq> None \<and> ecdh_NewPublicKey c (p_ecdh_public pr c d) \<noteq> None)"

text \<open>DEFLATE: reading at most \<open>n\<close> octets of the compressed form of \<open>b\<close>.\<close>

definition deflate_law :: "prims \<Rightarrow> bool" where
  "deflate_law pr \<longleftrightarrow>
     (\<forall>b n. length b < n \<longrightarrow> p_flate_read pr (p_deflate pr b) n = (b, True))"

text \<open>A reader limited to \<open>n\<close> octets returns at most \<open>n\<close>.\<close>

definition flate_limit_law :: "prims \<Rightarrow> bool" where
  "flate_limit_law pr \<longleftrightarrow> (\<forall>b n. length (fst (p_flate_read pr b n)) \<le> n)"

end
