(* ===== verification/Jwk.thy ===== *)
theory Jwk
  imports Base64 Header Prims
begin

text \<open>
  \<^verbatim>\<open>src/jwk.go\<close>, the key conversions of \<^verbatim>\<open>src/ecdh.go\<close> and \<^verbatim>\<open>resolveKey\<close> of
  \<^verbatim>\<open>src/header.go\<close>: JSON Web Keys, their resolution into Go keys and back, the restrictions a
  key states about its use, and the selection of a key from a set. \<open>gokey\<close> is the dynamic type
  of a \<^verbatim>\<open>key any\<close> argument; the pointer types that the code compares with nil are options.
\<close>

section \<open>Data\<close>

record jwk =
  jwk_Kty :: string
  jwk_Use :: string
  jwk_Alg :: string
  jwk_Kid :: string
  jwk_Crv :: string
  jwk_KeyOps :: "string list"
  jwk_N :: string
  jwk_E :: string
  jwk_D :: string
  jwk_P :: string
  jwk_Q :: string
  jwk_DP :: string
  jwk_DQ :: string
  jwk_QI :: string
  jwk_X :: string
  jwk_Y :: string
  jwk_K :: string

definition empty_jwk :: jwk where
  "empty_jwk =
     \<lparr>jwk_Kty = [], jwk_Use = [], jwk_Alg = [], jwk_Kid = [], jwk_Crv = [], jwk_KeyOps = [],
      jwk_N = [], jwk_E = [], jwk_D = [], jwk_P = [], jwk_Q = [], jwk_DP = [], jwk_DQ = [],
      jwk_QI = [], jwk_X = [], jwk_Y = [], jwk_K = []\<rparr>"

text \<open>A \<^verbatim>\<open>*JWK\<close> is an option; a \<^verbatim>\<open>*JWKSet\<close> too, holding a list of pointers.\<close>

type_synonym jwkset = "jwk option list"

datatype gokey =
    KNil
  | KBytes bytes
  | KString string
  | KRsaPub rsa_pub
  | KRsaPriv rsa_priv
  | KEcPub ecdsa_pub
  | KEcPriv ecdsa_priv
  | KEdPub bytes
  | KEdPriv bytes
  | KEcdhPub ecdh_pub
  | KEcdhPriv ecdh_priv
  | KJwk "jwk option"
  | KJwkSet "jwkset option"
  | KOther

section \<open>Numbers\<close>

text \<open>\<^verbatim>\<open>big.Int.Bytes\<close>: the shortest big-endian form.\<close>

fun be_len :: "nat \<Rightarrow> nat" where
  "be_len n = (if n = 0 then 0 else Suc (be_len (n div 256)))"

declare be_len.simps [simp del]

definition be_min :: "nat \<Rightarrow> bytes" where
  "be_min n = be_bytes (be_len n) n"

text \<open>\<^verbatim>\<open>FillBytes\<close> panics when the number does not fit.\<close>

definition padBig :: "nat \<Rightarrow> nat \<Rightarrow> bytes res" where
  "padBig n sz = (if n < 256 ^ sz then Inr (be_bytes sz n) else Inl Panic)"

definition coordSize :: "ec_curve \<Rightarrow> nat" where
  "coordSize c = (curve_BitSize c + 7) div 8"

definition ecCurve :: "string \<Rightarrow> ec_curve res" where
  "ecCurve name =
     (if name = ''P-256'' then Inr P256
      else if name = ''P-384'' then Inr P384
      else if name = ''P-521'' then Inr P521
      else Inl ErrInvalidKey)"

section \<open>Resolution\<close>

definition b64Field :: "string \<Rightarrow> bytes res" where
  "b64Field s =
     (if s = [] then Inl ErrInvalidKey
      else case DecodeSegment s of Inl _ \<Rightarrow> Inl ErrInvalidKey | Inr b \<Rightarrow> Inr b)"

definition b64Int :: "string \<Rightarrow> nat res" where
  "b64Int s = rbind (b64Field s) (\<lambda>b. Inr (be_nat b))"

definition rsaKey :: "prims \<Rightarrow> jwk \<Rightarrow> gokey res" where
  "rsaKey pr k =
     rbind (b64Int (jwk_N k)) (\<lambda>n.
     rbind (b64Int (jwk_E k)) (\<lambda>e.
       if e < 3 \<or> e > 2 ^ 31 - 1 then Inl ErrInvalidKey
       else
         let pub = \<lparr>rsa_N = n, rsa_E = int e\<rparr>
         in if jwk_D k = [] then Inr (KRsaPub pub)
            else
              rbind (b64Int (jwk_D k)) (\<lambda>d.
              rbind (if jwk_P k \<noteq> [] \<and> jwk_Q k \<noteq> [] then
                       rbind (b64Int (jwk_P k)) (\<lambda>p. rbind (b64Int (jwk_Q k)) (\<lambda>q. Inr [p, q]))
                     else Inr []) (\<lambda>primes.
                let priv = \<lparr>rsa_PublicKey = pub, rsa_D = d, rsa_Primes = primes, rsa_Precomputed = None\<rparr>
                in if \<not> p_rsa_validate pr priv then Inl ErrInvalidKey
                   else Inr (KRsaPriv (priv\<lparr>rsa_Precomputed := Some (p_rsa_precompute pr priv)\<rparr>))))))"

definition ecKey :: "jwk \<Rightarrow> gokey res" where
  "ecKey k =
     rbind (ecCurve (jwk_Crv k)) (\<lambda>curve.
     rbind (b64Int (jwk_X k)) (\<lambda>x.
     rbind (b64Int (jwk_Y k)) (\<lambda>y.
       if \<not> IsOnCurve curve x y then Inl ErrInvalidKey
       else
         let pub = \<lparr>ec_Curve = Some curve, ec_X = x, ec_Y = y\<rparr>
         in if jwk_D k = [] then Inr (KEcPub pub)
            else
              rbind (b64Int (jwk_D k)) (\<lambda>d.
                if d = 0 \<or> d \<ge> curve_N curve then Inl ErrInvalidKey
                else Inr (KEcPriv \<lparr>ec_PublicKey = pub, ec_D = d\<rparr>)))))"

definition okpKey :: "prims \<Rightarrow> jwk \<Rightarrow> gokey res" where
  "okpKey pr k =
     (if jwk_Crv k = ''Ed25519'' then
        rbind (b64Field (jwk_X k)) (\<lambda>x.
          if length x \<noteq> 32 then Inl ErrInvalidKey
          else if jwk_D k = [] then Inr (KEdPub x)
          else rbind (b64Field (jwk_D k)) (\<lambda>d.
            if length d \<noteq> 32 then Inl ErrInvalidKey
            else Inr (KEdPriv (ed25519_NewKeyFromSeed pr d))))
      else if jwk_Crv k = ''X25519'' then
        rbind (b64Field (jwk_X k)) (\<lambda>x.
          if jwk_D k = [] then
            (case ecdh_NewPublicKey X25519 x of
               None \<Rightarrow> Inl ErrInvalidKey
             | Some pub \<Rightarrow> Inr (KEcdhPub pub))
          else rbind (b64Field (jwk_D k)) (\<lambda>d.
            case ecdh_NewPrivateKey pr X25519 d of
              None \<Rightarrow> Inl ErrInvalidKey
            | Some priv \<Rightarrow> Inr (KEcdhPriv priv)))
      else Inl ErrInvalidKey)"

definition octKey :: "jwk \<Rightarrow> gokey res" where
  "octKey k = rbind (b64Field (jwk_K k)) (\<lambda>b. Inr (KBytes b))"

definition Key :: "prims \<Rightarrow> jwk \<Rightarrow> gokey res" where
  "Key pr k =
     (if jwk_Kty k = ''RSA'' then rsaKey pr k
      else if jwk_Kty k = ''EC'' then ecKey k
      else if jwk_Kty k = ''OKP'' then okpKey pr k
      else if jwk_Kty k = ''oct'' then octKey k
      else Inl ErrInvalidKey)"

definition Public :: "prims \<Rightarrow> jwk \<Rightarrow> jwk res" where
  "Public pr k =
     (if jwk_Kty k = ''oct'' then Inl ErrInvalidKey
      else rbind (Key pr k) (\<lambda>_.
        Inr (k\<lparr>jwk_D := [], jwk_P := [], jwk_Q := [], jwk_DP := [], jwk_DQ := [], jwk_QI := [], jwk_K := []\<rparr>)))"

definition IsPrivate :: "jwk \<Rightarrow> bool" where
  "IsPrivate k =
     (if jwk_Kty k = ''RSA'' \<or> jwk_Kty k = ''EC'' \<or> jwk_Kty k = ''OKP'' then jwk_D k \<noteq> []
      else if jwk_Kty k = ''oct'' then jwk_K k \<noteq> []
      else False)"

section \<open>Key selection\<close>

fun lookup_kid :: "jwkset \<Rightarrow> string \<Rightarrow> jwk option" where
  "lookup_kid [] kid = None"
| "lookup_kid (k # ks) kid =
     (case k of
        Some j \<Rightarrow> if jwk_Kid j = kid then Some j else lookup_kid ks kid
      | None \<Rightarrow> lookup_kid ks kid)"

definition LookupKeyID :: "jwkset option \<Rightarrow> string \<Rightarrow> jwk option" where
  "LookupKeyID s kid = (case s of None \<Rightarrow> None | Some ks \<Rightarrow> lookup_kid ks kid)"

text \<open>\<^verbatim>\<open>k.Keys[0].Key()\<close> dereferences the pointer.\<close>

definition Key_deref :: "prims \<Rightarrow> jwk option \<Rightarrow> gokey res" where
  "Key_deref pr j = (case j of None \<Rightarrow> Inl Panic | Some k \<Rightarrow> Key pr k)"

definition resolveKey :: "prims \<Rightarrow> gokey \<Rightarrow> string \<Rightarrow> gokey res" where
  "resolveKey pr key kid =
     (case key of
        KJwk j \<Rightarrow> (case j of None \<Rightarrow> Inl ErrInvalidKey | Some k \<Rightarrow> Key pr k)
      | KJwkSet s \<Rightarrow>
          (case s of
             None \<Rightarrow> Inl ErrInvalidKey
           | Some ks \<Rightarrow>
               if kid = [] \<and> length ks = 1 then Key_deref pr (hd ks)
               else (case lookup_kid ks kid of
                       None \<Rightarrow> Inl ErrKeyNotFound
                     | Some k \<Rightarrow> Key pr k))
      | KNil \<Rightarrow> Inl ErrInvalidKey
      | _ \<Rightarrow> Inr key)"

definition selectJWK :: "gokey \<Rightarrow> string \<Rightarrow> jwk option" where
  "selectJWK key kid =
     (case key of
        KJwk j \<Rightarrow> j
      | KJwkSet s \<Rightarrow>
          (case s of
             None \<Rightarrow> None
           | Some ks \<Rightarrow> if kid = [] \<and> length ks = 1 then hd ks else lookup_kid ks kid)
      | _ \<Rightarrow> None)"

definition UseSig :: string where "UseSig = ''sig''"
definition UseEnc :: string where "UseEnc = ''enc''"

definition checkJWKUsage :: "gokey \<Rightarrow> string \<Rightarrow> string \<Rightarrow> string list \<Rightarrow> string list \<Rightarrow> unit res" where
  "checkJWKUsage key kid use algs ops =
     (case selectJWK key kid of
        None \<Rightarrow> Inr ()
      | Some j \<Rightarrow>
          if jwk_Use j \<noteq> [] \<and> jwk_Use j \<noteq> use then Inl ErrKeyUseMismatch
          else if jwk_Alg j \<noteq> [] \<and> \<not> containsString algs (jwk_Alg j) then Inl ErrKeyAlgMismatch
          else if length (jwk_KeyOps j) > 0 \<and> \<not> list_ex (containsString (jwk_KeyOps j)) ops
          then Inl ErrKeyOpsMismatch
          else Inr ())"

section \<open>crypto/ecdh conversions (ecdh.go)\<close>

fun ecdhCurveFor :: "ec_curve \<Rightarrow> ecdh_curve res" where
  "ecdhCurveFor P256 = Inr EcdhP256"
| "ecdhCurveFor P384 = Inr EcdhP384"
| "ecdhCurveFor P521 = Inr EcdhP521"
| "ecdhCurveFor (OtherCurve _ _) = Inl ErrInvalidKey"

fun ellipticCurveFor :: "ecdh_curve \<Rightarrow> ec_curve option" where
  "ellipticCurveFor EcdhP256 = Some P256"
| "ellipticCurveFor EcdhP384 = Some P384"
| "ellipticCurveFor EcdhP521 = Some P521"
| "ellipticCurveFor X25519 = None"

definition ecdhToECDSAPublic :: "ecdh_pub \<Rightarrow> ecdsa_pub res" where
  "ecdhToECDSAPublic k =
     (case ellipticCurveFor (ecdh_Curve k) of
        None \<Rightarrow> Inl ErrInvalidKey
      | Some c \<Rightarrow>
          let b = ecdh_Bytes k; sz = coordSize c
          in if length b \<noteq> 1 + 2 * sz \<or> hd b \<noteq> 4 then Inl ErrInvalidKey
             else Inr \<lparr>ec_Curve = Some c, ec_X = be_nat (take sz (drop 1 b)), ec_Y = be_nat (drop (1 + sz) b)\<rparr>)"

text \<open>A nil curve: the switch reaches its default case, which calls a method on it.\<close>

definition ecdhCurveFor_iface :: "ec_curve option \<Rightarrow> ecdh_curve res" where
  "ecdhCurveFor_iface c = (case c of None \<Rightarrow> Inl Panic | Some e \<Rightarrow> ecdhCurveFor e)"

definition ecdsaToECDHPublic :: "ecdsa_pub \<Rightarrow> ecdh_pub res" where
  "ecdsaToECDHPublic k =
     rbind (ecdhCurveFor_iface (ec_Curve k)) (\<lambda>c.
       let sz = coordSize (the (ec_Curve k))
       in rbind (padBig (ec_X k) sz) (\<lambda>x.
          rbind (padBig (ec_Y k) sz) (\<lambda>y.
            case ecdh_NewPublicKey c ([4] @ x @ y) of
              None \<Rightarrow> Inl ErrInvalidKey
            | Some pub \<Rightarrow> Inr pub)))"

definition ecdsaToECDHPrivate :: "prims \<Rightarrow> ecdsa_priv \<Rightarrow> ecdh_priv res" where
  "ecdsaToECDHPrivate pr k =
     rbind (ecdhCurveFor_iface (ec_Curve (ec_PublicKey k))) (\<lambda>c.
     rbind (padBig (ec_D k) (coordSize (the (ec_Curve (ec_PublicKey k))))) (\<lambda>d.
       case ecdh_NewPrivateKey pr c d of
         None \<Rightarrow> Inl ErrInvalidKey
       | Some priv \<Rightarrow> Inr priv))"

fun asECDHPublic :: "gokey \<Rightarrow> ecdh_pub res" where
  "asECDHPublic (KEcdhPub k) = Inr k"
| "asECDHPublic (KEcdhPriv k) = Inr (ecdh_Public k)"
| "asECDHPublic (KEcPub k) = ecdsaToECDHPublic k"
| "asECDHPublic (KEcPriv k) = ecdsaToECDHPublic (ec_PublicKey k)"
| "asECDHPublic _ = Inl ErrInvalidKeyType"

fun asECDHPrivate :: "prims \<Rightarrow> gokey \<Rightarrow> ecdh_priv res" where
  "asECDHPrivate pr (KEcdhPriv k) = Inr k"
| "asECDHPrivate pr (KEcPriv k) = ecdsaToECDHPrivate pr k"
| "asECDHPrivate pr _ = Inl ErrInvalidKeyType"

section \<open>Building a JWK\<close>

definition jwkFromRSAPublic :: "rsa_pub \<Rightarrow> jwk" where
  "jwkFromRSAPublic k =
     empty_jwk\<lparr>jwk_Kty := ''RSA'', jwk_N := EncodeSegment (be_min (rsa_N k)),
               jwk_E := EncodeSegment (be_min (nat \<bar>rsa_E k\<bar>))\<rparr>"

definition jwkFromECPublic :: "ecdsa_pub \<Rightarrow> jwk res" where
  "jwkFromECPublic k =
     (case ec_Curve k of
        None \<Rightarrow> Inl ErrInvalidKey
      | Some c \<Rightarrow>
          rbind (ecCurve (curve_Name c)) (\<lambda>_.
          rbind (padBig (ec_X k) (coordSize c)) (\<lambda>x.
          rbind (padBig (ec_Y k) (coordSize c)) (\<lambda>y.
            Inr (empty_jwk\<lparr>jwk_Kty := ''EC'', jwk_Crv := curve_Name c,
                           jwk_X := EncodeSegment x, jwk_Y := EncodeSegment y\<rparr>)))))"

definition jwkFromECDHPublic :: "ecdh_pub \<Rightarrow> jwk res" where
  "jwkFromECDHPublic k =
     (if ecdh_Curve k = X25519 then
        Inr (empty_jwk\<lparr>jwk_Kty := ''OKP'', jwk_Crv := ''X25519'', jwk_X := EncodeSegment (ecdh_Bytes k)\<rparr>)
      else rbind (ecdhToECDSAPublic k) jwkFromECPublic)"

definition jwkFromRSAPrivate :: "rsa_priv \<Rightarrow> jwk" where
  "jwkFromRSAPrivate k =
     (let j = (jwkFromRSAPublic (rsa_PublicKey k))\<lparr>jwk_D := EncodeSegment (be_min (rsa_D k))\<rparr>;
          j = (case rsa_Primes k of
                 p # q # _ \<Rightarrow> j\<lparr>jwk_P := EncodeSegment (be_min p), jwk_Q := EncodeSegment (be_min q)\<rparr>
               | _ \<Rightarrow> j)
      in case rsa_Precomputed k of
           None \<Rightarrow> j
         | Some (dp, dq, qi) \<Rightarrow>
             j\<lparr>jwk_DP := EncodeSegment (be_min dp), jwk_DQ := EncodeSegment (be_min dq),
               jwk_QI := EncodeSegment (be_min qi)\<rparr>)"

fun FromKey :: "gokey \<Rightarrow> jwk option res" where
  "FromKey (KRsaPub k) = Inr (Some (jwkFromRSAPublic k))"
| "FromKey (KRsaPriv k) = Inr (Some (jwkFromRSAPrivate k))"
| "FromKey (KEcPub k) = rbind (jwkFromECPublic k) (\<lambda>j. Inr (Some j))"
| "FromKey (KEcPriv k) =
     rbind (jwkFromECPublic (ec_PublicKey k)) (\<lambda>j.
     rbind (padBig (ec_D k) (coordSize (the (ec_Curve (ec_PublicKey k))))) (\<lambda>d.
       Inr (Some (j\<lparr>jwk_D := EncodeSegment d\<rparr>))))"
| "FromKey (KEdPub k) =
     (if length k \<noteq> 32 then Inl ErrInvalidKey
      else Inr (Some (empty_jwk\<lparr>jwk_Kty := ''OKP'', jwk_Crv := ''Ed25519'', jwk_X := EncodeSegment k\<rparr>)))"
| "FromKey (KEdPriv k) =
     (if length k \<noteq> 64 then Inl ErrInvalidKey
      else rbind (ed25519_Public k) (\<lambda>pub.
        Inr (Some (empty_jwk\<lparr>jwk_Kty := ''OKP'', jwk_Crv := ''Ed25519'', jwk_X := EncodeSegment pub,
                             jwk_D := EncodeSegment (take 32 k)\<rparr>))))"
| "FromKey (KEcdhPub k) = rbind (jwkFromECDHPublic k) (\<lambda>j. Inr (Some j))"
| "FromKey (KEcdhPriv k) =
     rbind (jwkFromECDHPublic (ecdh_Public k)) (\<lambda>j.
       Inr (Some (j\<lparr>jwk_D := EncodeSegment (ecdh_Scalar k)\<rparr>)))"
| "FromKey (KBytes k) =
     (if length k = 0 then Inl ErrInvalidKey
      else Inr (Some (empty_jwk\<lparr>jwk_Kty := ''oct'', jwk_K := EncodeSegment k\<rparr>)))"
| "FromKey (KJwk k) = Inr k"
| "FromKey _ = Inl ErrInvalidKey"

section \<open>JSON\<close>

definition jwk_names :: "string list" where
  "jwk_names = [''kty'', ''use'', ''alg'', ''kid'', ''crv'', ''key_ops'', ''n'', ''e'', ''d'', ''p'',
     ''q'', ''dp'', ''dq'', ''qi'', ''x'', ''y'', ''k'']"

text \<open>Store one member of the document in the struct.\<close>

definition jwk_set :: "jwk \<Rightarrow> string \<Rightarrow> json \<Rightarrow> jwk option" where
  "jwk_set k n v =
     (if n = ''kty'' then map_option (\<lambda>s. k\<lparr>jwk_Kty := s\<rparr>) (dec_string (jwk_Kty k) v)
      else if n = ''use'' then map_option (\<lambda>s. k\<lparr>jwk_Use := s\<rparr>) (dec_string (jwk_Use k) v)
      else if n = ''alg'' then map_option (\<lambda>s. k\<lparr>jwk_Alg := s\<rparr>) (dec_string (jwk_Alg k) v)
      else if n = ''kid'' then map_option (\<lambda>s. k\<lparr>jwk_Kid := s\<rparr>) (dec_string (jwk_Kid k) v)
      else if n = ''crv'' then map_option (\<lambda>s. k\<lparr>jwk_Crv := s\<rparr>) (dec_string (jwk_Crv k) v)
      else if n = ''key_ops'' then map_option (\<lambda>s. k\<lparr>jwk_KeyOps := s\<rparr>) (dec_slice dec_string [] (jwk_KeyOps k) v)
      else if n = ''n'' then map_option (\<lambda>s. k\<lparr>jwk_N := s\<rparr>) (dec_string (jwk_N k) v)
      else if n = ''e'' then map_option (\<lambda>s. k\<lparr>jwk_E := s\<rparr>) (dec_string (jwk_E k) v)
      else if n = ''d'' then map_option (\<lambda>s. k\<lparr>jwk_D := s\<rparr>) (dec_string (jwk_D k) v)
      else if n = ''p'' then map_option (\<lambda>s. k\<lparr>jwk_P := s\<rparr>) (dec_string (jwk_P k) v)
      else if n = ''q'' then map_option (\<lambda>s. k\<lparr>jwk_Q := s\<rparr>) (dec_string (jwk_Q k) v)
      else if n = ''dp'' then map_option (\<lambda>s. k\<lparr>jwk_DP := s\<rparr>) (dec_string (jwk_DP k) v)
      else if n = ''dq'' then map_option (\<lambda>s. k\<lparr>jwk_DQ := s\<rparr>) (dec_string (jwk_DQ k) v)
      else if n = ''qi'' then map_option (\<lambda>s. k\<lparr>jwk_QI := s\<rparr>) (dec_string (jwk_QI k) v)
      else if n = ''x'' then map_option (\<lambda>s. k\<lparr>jwk_X := s\<rparr>) (dec_string (jwk_X k) v)
      else if n = ''y'' then map_option (\<lambda>s. k\<lparr>jwk_Y := s\<rparr>) (dec_string (jwk_Y k) v)
      else map_option (\<lambda>s. k\<lparr>jwk_K := s\<rparr>) (dec_string (jwk_K k) v))"

definition unmarshal_jwk :: "jwk \<Rightarrow> json \<Rightarrow> jwk option" where
  "unmarshal_jwk k v = dec_struct jwk_set jwk_names k v"

text \<open>An element of \<^verbatim>\<open>[]*JWK\<close>: \<^verbatim>\<open>null\<close> is the nil pointer.\<close>

definition unmarshal_jwk_ptr :: "jwk option \<Rightarrow> json \<Rightarrow> jwk option option" where
  "unmarshal_jwk_ptr old v =
     (case v of
        JNull \<Rightarrow> Some None
      | _ \<Rightarrow> map_option Some (unmarshal_jwk (case old of None \<Rightarrow> empty_jwk | Some k \<Rightarrow> k) v))"

definition ParseJWK :: "prims \<Rightarrow> bytes \<Rightarrow> jwk res" where
  "ParseJWK pr data =
     (case json_parse (string_of_bytes data) of
        None \<Rightarrow> Inl ErrInvalidKey
      | Some v \<Rightarrow>
          (case unmarshal_jwk empty_jwk v of
             None \<Rightarrow> Inl ErrInvalidKey
           | Some k \<Rightarrow> rbind (Key pr k) (\<lambda>_. Inr k)))"

definition check_set_key :: "prims \<Rightarrow> unit \<Rightarrow> jwk option \<Rightarrow> unit res" where
  "check_set_key pr u k =
     (case k of None \<Rightarrow> Inl ErrInvalidKey | Some j \<Rightarrow> rbind (Key pr j) (\<lambda>_. Inr ()))"

definition ParseJWKSet :: "prims \<Rightarrow> bytes \<Rightarrow> jwkset res" where
  "ParseJWKSet pr data =
     (case json_parse (string_of_bytes data) of
        None \<Rightarrow> Inl ErrInvalidKey
      | Some v \<Rightarrow>
          (case dec_struct (\<lambda>ks n. dec_slice unmarshal_jwk_ptr None ks) [''keys''] [] v of
             None \<Rightarrow> Inl ErrInvalidKey
           | Some ks \<Rightarrow> rbind (rfoldl (check_set_key pr) () ks) (\<lambda>_. Inr ks)))"

text \<open>\<^verbatim>\<open>json.Marshal\<close> of the struct: fields in order, \<^verbatim>\<open>omitempty\<close> on all but \<^verbatim>\<open>kty\<close>.\<close>

definition marshal_object :: "(string \<times> string) list \<Rightarrow> string" where
  "marshal_object ms = ''{'' @ commas (map (\<lambda>(n, t). json_quote n @ '':'' @ t) ms) @ ''}''"

definition opt_member :: "string \<Rightarrow> string \<Rightarrow> (string \<times> string) list" where
  "opt_member n s = (if s = [] then [] else [(n, json_quote s)])"

definition marshal_jwk :: "jwk \<Rightarrow> string" where
  "marshal_jwk k =
     marshal_object
       ([(''kty'', json_quote (jwk_Kty k))] @ opt_member ''use'' (jwk_Use k) @ opt_member ''alg'' (jwk_Alg k) @
        opt_member ''kid'' (jwk_Kid k) @ opt_member ''crv'' (jwk_Crv k) @
        (if jwk_KeyOps k = [] then [] else [(''key_ops'', ''['' @ commas (map json_quote (jwk_KeyOps k)) @ '']'')]) @
        opt_member ''n'' (jwk_N k) @ opt_member ''e'' (jwk_E k) @ opt_member ''d'' (jwk_D k) @
        opt_member ''p'' (jwk_P k) @ opt_member ''q'' (jwk_Q k) @ opt_member ''dp'' (jwk_DP k) @
        opt_member ''dq'' (jwk_DQ k) @ opt_member ''qi'' (jwk_QI k) @ opt_member ''x'' (jwk_X k) @
        opt_member ''y'' (jwk_Y k) @ opt_member ''k'' (jwk_K k))"

definition jwkToMap :: "jwk \<Rightarrow> header res" where
  "jwkToMap k =
     (case unmarshal_header (bytes_of_string (marshal_jwk k)) of
        None \<Rightarrow> Inl ErrInvalidKey
      | Some None \<Rightarrow> Inr []
      | Some (Some m) \<Rightarrow> Inr m)"

section \<open>Thumbprints\<close>

text \<open>
  The verb \<^verbatim>\<open>%q\<close> is \<^verbatim>\<open>strconv.Quote\<close>: a Go string literal. Which runes beyond ASCII are
  printable is a table of the Go library, the primitive \<open>p_is_print\<close>.
\<close>

definition utf8_decode :: "string \<Rightarrow> nat" where
  "utf8_decode s =
     (case map code s of
        [a, b] \<Rightarrow> (a - 0xC0) * 64 + (b - 0x80)
      | [a, b, c] \<Rightarrow> (a - 0xE0) * 4096 + (b - 0x80) * 64 + (c - 0x80)
      | [a, b, c, d] \<Rightarrow> (a - 0xF0) * 262144 + (b - 0x80) * 4096 + (c - 0x80) * 64 + (d - 0x80)
      | _ \<Rightarrow> 0)"

fun hex_digits :: "nat \<Rightarrow> nat \<Rightarrow> string" where
  "hex_digits 0 n = []"
| "hex_digits (Suc k) n = hex_digits k (n div 16) @ [hex_char (n mod 16)]"

definition go_quote_ascii :: "char \<Rightarrow> string" where
  "go_quote_ascii c =
     (if c = CHR 0x22 \<or> c = CHR 0x5C then [CHR 0x5C, c]
      else if 0x20 \<le> code c \<and> code c < 0x7F then [c]
      else if c = CHR 0x07 then [CHR 0x5C, CHR ''a'']
      else if c = CHR 0x08 then [CHR 0x5C, CHR ''b'']
      else if c = CHR 0x0C then [CHR 0x5C, CHR ''f'']
      else if c = CHR 0x0A then [CHR 0x5C, CHR ''n'']
      else if c = CHR 0x0D then [CHR 0x5C, CHR ''r'']
      else if c = CHR 0x09 then [CHR 0x5C, CHR ''t'']
      else if c = CHR 0x0B then [CHR 0x5C, CHR ''v'']
      else [CHR 0x5C, CHR ''x''] @ hex_digits 2 (code c))"

function go_quote_body :: "prims \<Rightarrow> string \<Rightarrow> string" where
  "go_quote_body pr s =
     (case s of [] \<Rightarrow> [] | c # r \<Rightarrow>
        if code c < 0x80 then go_quote_ascii c @ go_quote_body pr r
        else
          let n = utf8_take s
          in if n = 0 then [CHR 0x5C, CHR ''x''] @ hex_digits 2 (code c) @ go_quote_body pr r
             else
               let v = utf8_decode (take n s)
               in (if p_is_print pr v then take n s
                   else if v < 0x10000 then [CHR 0x5C, CHR ''u''] @ hex_digits 4 v
                   else [CHR 0x5C, CHR ''U''] @ hex_digits 8 v) @ go_quote_body pr (drop n s))"
  by pat_completeness auto
termination
  by (relation "measure (\<lambda>(pr, s). length s)") auto

declare go_quote_body.simps [simp del]

definition go_quote :: "prims \<Rightarrow> string \<Rightarrow> string" where
  "go_quote pr s = [CHR 0x22] @ go_quote_body pr s @ [CHR 0x22]"

definition thumb_member :: "string \<Rightarrow> string \<Rightarrow> string" where
  "thumb_member name t = [CHR 0x22] @ name @ [CHR 0x22] @ '':'' @ t"

definition canonical_jwk :: "prims \<Rightarrow> jwk \<Rightarrow> string res" where
  "canonical_jwk pr k =
     (let q = go_quote pr; lit = (\<lambda>s. [CHR 0x22] @ s @ [CHR 0x22]) in
      if jwk_Kty k = ''RSA'' then
        if jwk_E k = [] \<or> jwk_N k = [] then Inl ErrInvalidKey
        else Inr (''{'' @ thumb_member ''e'' (q (jwk_E k)) @ '','' @ thumb_member ''kty'' (lit ''RSA'') @ '','' @
                  thumb_member ''n'' (q (jwk_N k)) @ ''}'')
      else if jwk_Kty k = ''EC'' then
        if jwk_Crv k = [] \<or> jwk_X k = [] \<or> jwk_Y k = [] then Inl ErrInvalidKey
        else Inr (''{'' @ thumb_member ''crv'' (q (jwk_Crv k)) @ '','' @ thumb_member ''kty'' (lit ''EC'') @ '','' @
                  thumb_member ''x'' (q (jwk_X k)) @ '','' @ thumb_member ''y'' (q (jwk_Y k)) @ ''}'')
      else if jwk_Kty k = ''OKP'' then
        if jwk_Crv k = [] \<or> jwk_X k = [] then Inl ErrInvalidKey
        else Inr (''{'' @ thumb_member ''crv'' (q (jwk_Crv k)) @ '','' @ thumb_member ''kty'' (lit ''OKP'') @ '','' @
                  thumb_member ''x'' (q (jwk_X k)) @ ''}'')
      else if jwk_Kty k = ''oct'' then
        if jwk_K k = [] then Inl ErrInvalidKey
        else Inr (''{'' @ thumb_member ''k'' (q (jwk_K k)) @ '','' @ thumb_member ''kty'' (lit ''oct'') @ ''}'')
      else Inl ErrInvalidKey)"

definition Thumbprint :: "prims \<Rightarrow> jwk \<Rightarrow> string res" where
  "Thumbprint pr k =
     rbind (canonical_jwk pr k) (\<lambda>canonical. Inr (EncodeSegment (sha256 (bytes_of_string canonical))))"

end
