(* ===== verification/SigAlg.thy ===== *)
theory SigAlg
  imports Jwk
begin

text \<open>
  \<^verbatim>\<open>src/jwa_sign.go\<close>: the table of signature algorithms, and signing and verifying with one of
  them. Every branch of the two switches is kept, with the type assertion on the key first. The
  HMAC algorithms are computed in full; RSA, ECDSA and Ed25519 are primitives.
\<close>

section \<open>The table\<close>

definition HS256 :: string where "HS256 = ''HS256''"
definition HS384 :: string where "HS384 = ''HS384''"
definition HS512 :: string where "HS512 = ''HS512''"
definition RS256 :: string where "RS256 = ''RS256''"
definition RS384 :: string where "RS384 = ''RS384''"
definition RS512 :: string where "RS512 = ''RS512''"
definition PS256 :: string where "PS256 = ''PS256''"
definition PS384 :: string where "PS384 = ''PS384''"
definition PS512 :: string where "PS512 = ''PS512''"
definition ES256 :: string where "ES256 = ''ES256''"
definition ES384 :: string where "ES384 = ''ES384''"
definition ES512 :: string where "ES512 = ''ES512''"
definition EdDSA :: string where "EdDSA = ''EdDSA''"
definition NoneAlg :: string where "NoneAlg = ''none''"

lemmas sig_names = HS256_def HS384_def HS512_def RS256_def RS384_def RS512_def
  PS256_def PS384_def PS512_def ES256_def ES384_def ES512_def EdDSA_def NoneAlg_def

record sigAlg =
  sa_name :: string
  sa_hash :: "hash_fn option"
  sa_kind :: string
  sa_crv :: string
  sa_coord :: nat

definition mk_sig :: "string \<Rightarrow> hash_fn option \<Rightarrow> string \<Rightarrow> sigAlg" where
  "mk_sig name h kind = \<lparr>sa_name = name, sa_hash = h, sa_kind = kind, sa_crv = [], sa_coord = 0\<rparr>"

definition sigAlgs :: "(string \<times> sigAlg) list" where
  "sigAlgs =
     [(HS256, mk_sig HS256 (Some SHA256) ''hmac''),
      (HS384, mk_sig HS384 (Some SHA384) ''hmac''),
      (HS512, mk_sig HS512 (Some SHA512) ''hmac''),
      (RS256, mk_sig RS256 (Some SHA256) ''pkcs1''),
      (RS384, mk_sig RS384 (Some SHA384) ''pkcs1''),
      (RS512, mk_sig RS512 (Some SHA512) ''pkcs1''),
      (PS256, mk_sig PS256 (Some SHA256) ''pss''),
      (PS384, mk_sig PS384 (Some SHA384) ''pss''),
      (PS512, mk_sig PS512 (Some SHA512) ''pss''),
      (ES256, (mk_sig ES256 (Some SHA256) ''ecdsa'')\<lparr>sa_crv := ''P-256'', sa_coord := 32\<rparr>),
      (ES384, (mk_sig ES384 (Some SHA384) ''ecdsa'')\<lparr>sa_crv := ''P-384'', sa_coord := 48\<rparr>),
      (ES512, (mk_sig ES512 (Some SHA512) ''ecdsa'')\<lparr>sa_crv := ''P-521'', sa_coord := 66\<rparr>),
      (EdDSA, mk_sig EdDSA None ''eddsa'')]"

definition SignatureAlgorithms :: "string list" where
  "SignatureAlgorithms = sort (map fst sigAlgs)"

text \<open>The hashes of the table are linked in, so the last check of the function always passes.\<close>

definition lookupSigAlg :: "string \<Rightarrow> sigAlg res" where
  "lookupSigAlg alg =
     (if alg = NoneAlg then Inl ErrNoneAlgDisallowed
      else case map_of sigAlgs alg of
          None \<Rightarrow> Inl ErrUnsupportedAlgorithm
        | Some a \<Rightarrow> Inr a)"

section \<open>Signing\<close>

text \<open>A method call on the zero hash panics; no algorithm of the table that digests has it.\<close>

definition sa_digest :: "sigAlg \<Rightarrow> bytes \<Rightarrow> bytes res" where
  "sa_digest a input = (case sa_hash a of None \<Rightarrow> Inl Panic | Some h \<Rightarrow> Inr (hash_sum h input))"

definition sa_mac :: "sigAlg \<Rightarrow> bytes \<Rightarrow> bytes \<Rightarrow> bytes res" where
  "sa_mac a secret input = (case sa_hash a of None \<Rightarrow> Inl Panic | Some h \<Rightarrow> Inr (hmac h secret input))"

definition of_prim :: "'a option \<Rightarrow> 'a res" where
  "of_prim x = (case x of None \<Rightarrow> Inl ExternalError | Some y \<Rightarrow> Inr y)"

definition curve_is :: "ec_curve option \<Rightarrow> string \<Rightarrow> bool" where
  "curve_is c name = (case c of None \<Rightarrow> False | Some e \<Rightarrow> curve_Name e = name)"

definition sign :: "prims \<Rightarrow> sigAlg \<Rightarrow> bytes \<Rightarrow> gokey \<Rightarrow> entropy \<Rightarrow> (bytes \<times> entropy) res" where
  "sign pr a input key w =
     (if sa_kind a = ''hmac'' then
        (case key of
           KBytes secret \<Rightarrow>
             if length secret = 0 then Inl ErrInvalidKey
             else rbind (sa_mac a secret input) (\<lambda>m. Inr (m, w))
         | _ \<Rightarrow> Inl ErrInvalidKeyType)
      else if sa_kind a = ''pkcs1'' then
        (case key of
           KRsaPriv priv \<Rightarrow>
             rbind (sa_digest a input) (\<lambda>d. of_prim (p_rsa_sign_pkcs1 pr priv (the (sa_hash a)) d w))
         | _ \<Rightarrow> Inl ErrInvalidKeyType)
      else if sa_kind a = ''pss'' then
        (case key of
           KRsaPriv priv \<Rightarrow>
             rbind (sa_digest a input) (\<lambda>d. of_prim (p_rsa_sign_pss pr priv (the (sa_hash a)) d w))
         | _ \<Rightarrow> Inl ErrInvalidKeyType)
      else if sa_kind a = ''ecdsa'' then
        (case key of
           KEcPriv priv \<Rightarrow>
             if \<not> curve_is (ec_Curve (ec_PublicKey priv)) (sa_crv a) then Inl ErrInvalidKeyType
             else rbind (sa_digest a input) (\<lambda>d.
                  rbind (of_prim (p_ecdsa_sign pr priv d w)) (\<lambda>((r, s), w').
                  rbind (padBig r (sa_coord a)) (\<lambda>rb.
                  rbind (padBig s (sa_coord a)) (\<lambda>sb. Inr (rb @ sb, w')))))
         | _ \<Rightarrow> Inl ErrInvalidKeyType)
      else if sa_kind a = ''eddsa'' then
        (case key of
           KEdPriv priv \<Rightarrow>
             if length priv \<noteq> 64 then Inl ErrInvalidKey
             else Inr (p_ed25519_sign pr priv input, w)
         | _ \<Rightarrow> Inl ErrInvalidKeyType)
      else Inl ErrUnsupportedAlgorithm)"

section \<open>Verifying\<close>

fun rsaPublic :: "gokey \<Rightarrow> rsa_pub res" where
  "rsaPublic (KRsaPub k) = Inr k"
| "rsaPublic (KRsaPriv k) = Inr (rsa_PublicKey k)"
| "rsaPublic _ = Inl ErrInvalidKeyType"

fun ecdsaPublicOf :: "gokey \<Rightarrow> ecdsa_pub res" where
  "ecdsaPublicOf (KEcPub k) = Inr k"
| "ecdsaPublicOf (KEcPriv k) = Inr (ec_PublicKey k)"
| "ecdsaPublicOf _ = Inl ErrInvalidKeyType"

fun ed25519PublicOf :: "gokey \<Rightarrow> bytes res" where
  "ed25519PublicOf (KEdPub k) = Inr k"
| "ed25519PublicOf (KEdPriv k) = ed25519_Public k"
| "ed25519PublicOf _ = Inl ErrInvalidKeyType"

definition sig_ok :: "bool \<Rightarrow> unit res" where
  "sig_ok b = (if b then Inr () else Inl ErrSignatureInvalid)"

definition verify :: "prims \<Rightarrow> sigAlg \<Rightarrow> bytes \<Rightarrow> bytes \<Rightarrow> gokey \<Rightarrow> unit res" where
  "verify pr a input sig key =
     (if sa_kind a = ''hmac'' then
        (case key of
           KBytes secret \<Rightarrow>
             if length secret = 0 then Inl ErrInvalidKey
             else rbind (sa_mac a secret input) (\<lambda>m. sig_ok (sig = m))
         | _ \<Rightarrow> Inl ErrInvalidKeyType)
      else if sa_kind a = ''pkcs1'' then
        rbind (rsaPublic key) (\<lambda>pub.
        rbind (sa_digest a input) (\<lambda>d. sig_ok (p_rsa_verify_pkcs1 pr pub (the (sa_hash a)) d sig)))
      else if sa_kind a = ''pss'' then
        rbind (rsaPublic key) (\<lambda>pub.
        rbind (sa_digest a input) (\<lambda>d. sig_ok (p_rsa_verify_pss pr pub (the (sa_hash a)) d sig)))
      else if sa_kind a = ''ecdsa'' then
        rbind (ecdsaPublicOf key) (\<lambda>pub.
          if \<not> curve_is (ec_Curve pub) (sa_crv a) then Inl ErrInvalidKeyType
          else if length sig \<noteq> 2 * sa_coord a then Inl ErrSignatureInvalid
          else rbind (sa_digest a input) (\<lambda>d.
            sig_ok (p_ecdsa_verify pr pub d (be_nat (take (sa_coord a) sig)) (be_nat (drop (sa_coord a) sig)))))
      else if sa_kind a = ''eddsa'' then
        rbind (ed25519PublicOf key) (\<lambda>pub.
          if length pub \<noteq> 32 then Inl ErrInvalidKey
          else sig_ok (p_ed25519_verify pr pub input sig))
      else Inl ErrUnsupportedAlgorithm)"

section \<open>The default algorithm\<close>

definition ecdsaAlgFor :: "string \<Rightarrow> string res" where
  "ecdsaAlgFor crv =
     (if crv = ''P-256'' then Inr ES256
      else if crv = ''P-384'' then Inr ES384
      else if crv = ''P-521'' then Inr ES512
      else Inl ErrUnsupportedAlgorithm)"

definition ecdsa_default :: "ecdsa_pub \<Rightarrow> string res" where
  "ecdsa_default k = (case ec_Curve k of None \<Rightarrow> Inl Panic | Some c \<Rightarrow> ecdsaAlgFor (curve_Name c))"

fun defaultSigAlg :: "gokey \<Rightarrow> string res" where
  "defaultSigAlg (KBytes _) = Inr HS256"
| "defaultSigAlg (KRsaPriv _) = Inr RS256"
| "defaultSigAlg (KRsaPub _) = Inr RS256"
| "defaultSigAlg (KEdPriv _) = Inr EdDSA"
| "defaultSigAlg (KEdPub _) = Inr EdDSA"
| "defaultSigAlg (KEcPriv k) = ecdsa_default (ec_PublicKey k)"
| "defaultSigAlg (KEcPub k) = ecdsa_default k"
| "defaultSigAlg _ = Inl ErrInvalidKeyType"

end
