(* ===== verification/Jws.thy ===== *)
theory Jws
  imports SigAlg
begin

text \<open>
  \<^verbatim>\<open>src/jws.go\<close>: producing and verifying JWS in the compact and the JSON serializations. The
  option structs are records, every function returns what the Go function returns, and a
  signing function also returns what is left of the random source it is given.
\<close>

section \<open>Data\<close>

record SignOptions =
  so_Algorithm :: string
  so_KeyID :: string
  so_Header :: header
  so_Unprotected :: header
  so_Critical :: "string list"
  so_DetachPayload :: bool

record VerifyOptions =
  vo_Algorithms :: "string list"
  vo_KnownCritical :: "string list"
  vo_DetachedPayload :: bytes

record Signer =
  sg_Key :: gokey
  sg_Options :: SignOptions

record jwsSignature =
  js_Protected :: string
  js_Header :: "header option"
  js_Signature :: string

record jwsJSON =
  jd_Payload :: string
  jd_Signatures :: "jwsSignature list"
  jd_Protected :: string
  jd_Header :: "header option"
  jd_Signature :: string

section \<open>Signing\<close>

definition signingInput :: "string \<Rightarrow> string \<Rightarrow> bytes" where
  "signingInput protectedB64 payloadSeg = bytes_of_string (protectedB64 @ ''.'' @ payloadSeg)"

definition jwk_of :: "gokey \<Rightarrow> jwk option" where
  "jwk_of key = (case key of KJwk j \<Rightarrow> j | _ \<Rightarrow> None)"

definition sign_alg :: "gokey \<Rightarrow> gokey \<Rightarrow> SignOptions \<Rightarrow> string res" where
  "sign_alg key resolved opts =
     (if so_Algorithm opts \<noteq> [] then Inr (so_Algorithm opts)
      else case jwk_of key of
          Some jwk \<Rightarrow> if jwk_Alg jwk \<noteq> [] then Inr (jwk_Alg jwk) else defaultSigAlg resolved
        | None \<Rightarrow> defaultSigAlg resolved)"

definition sign_kid :: "gokey \<Rightarrow> SignOptions \<Rightarrow> header \<Rightarrow> header" where
  "sign_kid key opts protected =
     (if so_KeyID opts \<noteq> [] then map_put ''kid'' (GStr (so_KeyID opts)) protected
      else case jwk_of key of
          Some jwk \<Rightarrow>
            if jwk_Kid jwk \<noteq> [] \<and> map_of protected ''kid'' = None \<and> map_of (so_Unprotected opts) ''kid'' = None
            then map_put ''kid'' (GStr (jwk_Kid jwk)) protected
            else protected
        | None \<Rightarrow> protected)"

definition sign_header :: "gokey \<Rightarrow> SignOptions \<Rightarrow> string \<Rightarrow> header" where
  "sign_header key opts alg =
     (let protected = map_put ''alg'' (GStr alg) (copyHeader [so_Header opts]);
          protected = sign_kid key opts protected
      in if length (so_Critical opts) > 0 then map_put ''crit'' (GStrs (so_Critical opts)) protected
         else protected)"

definition sign_b64 :: "SignOptions \<Rightarrow> header \<Rightarrow> bool res" where
  "sign_b64 opts protected =
     (case map_of protected ''b64'' of
        None \<Rightarrow> Inr True
      | Some (GBool flag) \<Rightarrow>
          if \<not> flag \<and> \<not> containsString (so_Critical opts) ''b64'' then Inl ErrInvalidCrit else Inr flag
      | Some _ \<Rightarrow> Inl ErrInvalidHeader)"

definition sign_payload :: "bool \<Rightarrow> bytes \<Rightarrow> string res" where
  "sign_payload b64 payload =
     (if b64 then Inr (EncodeSegment payload)
      else if CHR ''.'' \<in> set (string_of_bytes payload) then Inl ErrInvalidToken
      else Inr (string_of_bytes payload))"

text \<open>The encoded protected header, the encoded signature and the payload as it is serialized.\<close>

definition signOne :: "prims \<Rightarrow> bytes \<Rightarrow> gokey \<Rightarrow> SignOptions \<Rightarrow> entropy \<Rightarrow>
    ((string \<times> string \<times> string) \<times> entropy) res" where
  "signOne pr payload key opts w =
     rbind (resolveKey pr key (so_KeyID opts)) (\<lambda>resolved.
     rbind (sign_alg key resolved opts) (\<lambda>alg.
     rbind (lookupSigAlg alg) (\<lambda>a.
     rbind (checkJWKUsage key (so_KeyID opts) UseSig [alg] [''sign'']) (\<lambda>_.
       let protected = sign_header key opts alg
       in if map_of (so_Unprotected opts) ''b64'' \<noteq> None then Inl ErrUnprotectedB64
          else
            rbind (sign_b64 opts protected) (\<lambda>b64.
            rbind (mergeHeaders [protected, so_Unprotected opts]) (\<lambda>_.
            rbind (checkCriticalProduced protected) (\<lambda>_.
            rbind (encodeHeader protected) (\<lambda>protectedB64.
            rbind (sign_payload b64 payload) (\<lambda>encodedPayload.
            rbind (sign pr a (signingInput protectedB64 encodedPayload) resolved w) (\<lambda>(sig, w').
              Inr ((protectedB64, EncodeSegment sig, encodedPayload), w')))))))))))"

definition Sign :: "prims \<Rightarrow> bytes \<Rightarrow> gokey \<Rightarrow> SignOptions \<Rightarrow> entropy \<Rightarrow> (string \<times> entropy) res" where
  "Sign pr payload key opts w =
     (if length (so_Unprotected opts) > 0 then Inl ErrInvalidHeader
      else rbind (signOne pr payload key opts w) (\<lambda>((protectedB64, sigB64, encodedPayload), w').
        let encodedPayload = (if so_DetachPayload opts then [] else encodedPayload)
        in Inr (protectedB64 @ ''.'' @ encodedPayload @ ''.'' @ sigB64, w')))"

section \<open>The JSON document\<close>

definition copyHeaderOrNil :: "header \<Rightarrow> header option" where
  "copyHeaderOrNil h = (if length h = 0 then None else Some (copyHeader [h]))"

definition opt_map_member :: "string \<Rightarrow> header option \<Rightarrow> (string \<times> string) list option" where
  "opt_map_member n h =
     (case h of
        None \<Rightarrow> Some []
      | Some m \<Rightarrow> if m = [] then Some [] else map_option (\<lambda>t. [(n, t)]) (json_marshal (GMap m)))"

definition marshal_jwsSignature :: "jwsSignature \<Rightarrow> string option" where
  "marshal_jwsSignature s =
     map_option
       (\<lambda>hdr. marshal_object (opt_member ''protected'' (js_Protected s) @ hdr @
          [(''signature'', json_quote (js_Signature s))]))
       (opt_map_member ''header'' (js_Header s))"

definition marshal_jwsJSON :: "jwsJSON \<Rightarrow> bytes res" where
  "marshal_jwsJSON d =
     (case (those (map marshal_jwsSignature (jd_Signatures d)), opt_map_member ''header'' (jd_Header d)) of
        (Some sigs, Some hdr) \<Rightarrow>
          Inr (bytes_of_string (marshal_object
            ([(''payload'', json_quote (jd_Payload d))] @
             (if sigs = [] then [] else [(''signatures'', ''['' @ commas sigs @ '']'')]) @
             opt_member ''protected'' (jd_Protected d) @ hdr @ opt_member ''signature'' (jd_Signature d))))
      | _ \<Rightarrow> Inl ExternalError)"

definition empty_jwsSignature :: jwsSignature where
  "empty_jwsSignature = \<lparr>js_Protected = [], js_Header = None, js_Signature = []\<rparr>"

definition empty_jwsJSON :: jwsJSON where
  "empty_jwsJSON =
     \<lparr>jd_Payload = [], jd_Signatures = [], jd_Protected = [], jd_Header = None, jd_Signature = []\<rparr>"

definition jwsSignature_set :: "jwsSignature \<Rightarrow> string \<Rightarrow> json \<Rightarrow> jwsSignature option" where
  "jwsSignature_set s n v =
     (if n = ''protected'' then map_option (\<lambda>x. s\<lparr>js_Protected := x\<rparr>) (dec_string (js_Protected s) v)
      else if n = ''header'' then map_option (\<lambda>x. s\<lparr>js_Header := x\<rparr>) (dec_map (js_Header s) v)
      else map_option (\<lambda>x. s\<lparr>js_Signature := x\<rparr>) (dec_string (js_Signature s) v))"

definition jwsJSON_set :: "jwsJSON \<Rightarrow> string \<Rightarrow> json \<Rightarrow> jwsJSON option" where
  "jwsJSON_set d n v =
     (if n = ''payload'' then map_option (\<lambda>x. d\<lparr>jd_Payload := x\<rparr>) (dec_string (jd_Payload d) v)
      else if n = ''signatures'' then
        map_option (\<lambda>x. d\<lparr>jd_Signatures := x\<rparr>)
          (dec_slice (dec_struct jwsSignature_set [''protected'', ''header'', ''signature''])
             empty_jwsSignature (jd_Signatures d) v)
      else if n = ''protected'' then map_option (\<lambda>x. d\<lparr>jd_Protected := x\<rparr>) (dec_string (jd_Protected d) v)
      else if n = ''header'' then map_option (\<lambda>x. d\<lparr>jd_Header := x\<rparr>) (dec_map (jd_Header d) v)
      else map_option (\<lambda>x. d\<lparr>jd_Signature := x\<rparr>) (dec_string (jd_Signature d) v))"

definition unmarshal_jwsJSON :: "bytes \<Rightarrow> jwsJSON option" where
  "unmarshal_jwsJSON data =
     (case json_parse (string_of_bytes data) of
        None \<Rightarrow> None
      | Some v \<Rightarrow>
          dec_struct jwsJSON_set [''payload'', ''signatures'', ''protected'', ''header'', ''signature'']
            empty_jwsJSON v)"

text \<open>The loop over the signers: the payload encoding of the first, the document so far.\<close>

definition sign_json_step :: "prims \<Rightarrow> bytes \<Rightarrow> (string option \<times> jwsJSON) \<times> entropy \<Rightarrow> Signer \<Rightarrow>
    ((string option \<times> jwsJSON) \<times> entropy) res" where
  "sign_json_step pr payload st s =
     (case st of ((first, out), w) \<Rightarrow>
        rbind (signOne pr payload (sg_Key s) (sg_Options s) w) (\<lambda>((protectedB64, sigB64, enc), w').
          if first \<noteq> None \<and> first \<noteq> Some enc then Inl ErrInvalidHeader
          else
            let out = (if so_DetachPayload (sg_Options s) then out else out\<lparr>jd_Payload := enc\<rparr>)
            in Inr ((Some enc,
                 out\<lparr>jd_Signatures := jd_Signatures out @
                   [\<lparr>js_Protected = protectedB64, js_Header = copyHeaderOrNil (so_Unprotected (sg_Options s)),
                     js_Signature = sigB64\<rparr>]\<rparr>), w')))"

definition SignJSONMulti :: "prims \<Rightarrow> bytes \<Rightarrow> Signer list \<Rightarrow> entropy \<Rightarrow> (bytes \<times> entropy) res" where
  "SignJSONMulti pr payload signers w =
     (if length signers = 0 then Inl ErrInvalidKey
      else rbind (rfoldl (sign_json_step pr payload) ((None, empty_jwsJSON), w) signers) (\<lambda>((_, out), w').
           rbind (marshal_jwsJSON out) (\<lambda>doc. Inr (doc, w'))))"

definition SignJSON :: "prims \<Rightarrow> bytes \<Rightarrow> gokey \<Rightarrow> SignOptions \<Rightarrow> entropy \<Rightarrow> (bytes \<times> entropy) res" where
  "SignJSON pr payload key opts w = SignJSONMulti pr payload [\<lparr>sg_Key = key, sg_Options = opts\<rparr>] w"

section \<open>Verifying\<close>

definition verify_b64 :: "header \<Rightarrow> bool res" where
  "verify_b64 protected =
     (case map_of protected ''b64'' of
        None \<Rightarrow> Inr True
      | Some (GBool flag) \<Rightarrow>
          if \<not> flag \<and> \<not> containsString (case Critical protected of None \<Rightarrow> [] | Some c \<Rightarrow> c) ''b64''
          then Inl ErrInvalidCrit else Inr flag
      | Some _ \<Rightarrow> Inl ErrInvalidHeader)"

definition verify_payload :: "bool \<Rightarrow> string \<Rightarrow> bytes \<Rightarrow> string res" where
  "verify_payload b64 payloadSeg detached =
     (if payloadSeg \<noteq> [] then Inr payloadSeg
      else if length detached = 0 then Inl ErrDetachedPayload
      else if b64 then Inr (EncodeSegment detached)
      else Inr (string_of_bytes detached))"

definition verifySignature :: "prims \<Rightarrow> string \<Rightarrow> header \<Rightarrow> header \<Rightarrow> string \<Rightarrow> string \<Rightarrow> gokey \<Rightarrow>
    VerifyOptions \<Rightarrow> bytes res" where
  "verifySignature pr protectedSeg protected unprotected payloadSeg sigSeg key opts =
     rbind (mergeHeaders [protected, unprotected]) (\<lambda>merged.
       let alg = Algorithm merged
       in if alg = [] then Inl ErrInvalidHeader
          else if alg = NoneAlg then Inl ErrNoneAlgDisallowed
          else if length (vo_Algorithms opts) > 0 \<and> \<not> containsString (vo_Algorithms opts) alg
          then Inl ErrSignatureInvalid
          else
            rbind (checkCritical protected ([''b64''] @ vo_KnownCritical opts)) (\<lambda>_.
              if map_of unprotected ''b64'' \<noteq> None then Inl ErrUnprotectedB64
              else
                rbind (verify_b64 protected) (\<lambda>b64.
                rbind (verify_payload b64 payloadSeg (vo_DetachedPayload opts)) (\<lambda>payloadSeg.
                rbind (lookupSigAlg alg) (\<lambda>a.
                rbind (checkJWKUsage key (KeyID merged) UseSig [alg] [''verify'']) (\<lambda>_.
                rbind (resolveKey pr key (KeyID merged)) (\<lambda>resolved.
                  if sigSeg = [] then Inl ErrSignatureInvalid
                  else
                    case DecodeSegment sigSeg of
                      Inl _ \<Rightarrow> Inl ErrMalformed
                    | Inr sig \<Rightarrow>
                        rbind (verify pr a (signingInput protectedSeg payloadSeg) sig resolved) (\<lambda>_.
                          if \<not> b64 then Inr (bytes_of_string payloadSeg)
                          else
                            case DecodeSegment payloadSeg of
                              Inl _ \<Rightarrow> Inl ErrMalformed
                            | Inr payload \<Rightarrow> Inr payload))))))))"

text \<open>\<^verbatim>\<open>strings.Split(token, ".")\<close>.\<close>

fun split_dots :: "string \<Rightarrow> string list" where
  "split_dots [] = [[]]"
| "split_dots (c # s) =
     (if c = CHR ''.'' then [] # split_dots s
      else case split_dots s of p # ps \<Rightarrow> (c # p) # ps | [] \<Rightarrow> [[c]])"

definition VerifyWithOptions :: "prims \<Rightarrow> string \<Rightarrow> gokey \<Rightarrow> VerifyOptions \<Rightarrow> (bytes \<times> header) res" where
  "VerifyWithOptions pr token key opts =
     (case split_dots token of
        [p0, p1, p2] \<Rightarrow>
          rbind (decodeHeader p0) (\<lambda>protected.
          rbind (verifySignature pr p0 protected [] p1 p2 key opts) (\<lambda>payload.
            Inr (payload, protected)))
      | _ \<Rightarrow> Inl ErrMalformed)"

definition default_VerifyOptions :: VerifyOptions where
  "default_VerifyOptions = \<lparr>vo_Algorithms = [], vo_KnownCritical = [], vo_DetachedPayload = []\<rparr>"

definition Verify :: "prims \<Rightarrow> string \<Rightarrow> gokey \<Rightarrow> (bytes \<times> header) res" where
  "Verify pr token key = VerifyWithOptions pr token key default_VerifyOptions"

definition hdr :: "header option \<Rightarrow> header" where
  "hdr h = (case h of None \<Rightarrow> [] | Some m \<Rightarrow> m)"

text \<open>One turn of the loop over the signatures.\<close>

definition verify_entry :: "prims \<Rightarrow> string \<Rightarrow> gokey \<Rightarrow> VerifyOptions \<Rightarrow> jwsSignature \<Rightarrow> (bytes \<times> header) res" where
  "verify_entry pr payload key opts s =
     rbind (if js_Protected s \<noteq> [] then decodeHeader (js_Protected s) else Inr []) (\<lambda>protected.
     rbind (verifySignature pr (js_Protected s) protected (hdr (js_Header s)) payload (js_Signature s) key opts)
       (\<lambda>pl.
     rbind (mergeHeaders [protected, hdr (js_Header s)]) (\<lambda>merged. Inr (pl, merged))))"

fun verify_loop :: "prims \<Rightarrow> string \<Rightarrow> gokey \<Rightarrow> VerifyOptions \<Rightarrow> jerr \<Rightarrow> jwsSignature list \<Rightarrow>
    (bytes \<times> header) res" where
  "verify_loop pr payload key opts lastErr [] = Inl lastErr"
| "verify_loop pr payload key opts lastErr (s # sigs) =
     (case verify_entry pr payload key opts s of
        Inl e \<Rightarrow> if e = Panic then Inl Panic else verify_loop pr payload key opts e sigs
      | Inr r \<Rightarrow> Inr r)"

definition jws_entries :: "jwsJSON \<Rightarrow> jwsSignature list res" where
  "jws_entries doc =
     (let sigs = jd_Signatures doc;
          flattened = (jd_Signature doc \<noteq> [] \<or> jd_Protected doc \<noteq> [] \<or> jd_Header doc \<noteq> None)
      in if length sigs > 0 \<and> flattened then Inl ErrMalformed
         else if flattened \<and> jd_Signature doc = [] then Inl ErrMalformed
         else
           let sigs = (if flattened
                       then sigs @ [\<lparr>js_Protected = jd_Protected doc, js_Header = jd_Header doc,
                                     js_Signature = jd_Signature doc\<rparr>]
                       else sigs)
           in if length sigs = 0 then Inl ErrMalformed else Inr sigs)"

definition VerifyJSONWithOptions :: "prims \<Rightarrow> bytes \<Rightarrow> gokey \<Rightarrow> VerifyOptions \<Rightarrow> (bytes \<times> header) res" where
  "VerifyJSONWithOptions pr data key opts =
     (case unmarshal_jwsJSON data of
        None \<Rightarrow> Inl ErrMalformed
      | Some doc \<Rightarrow>
          rbind (jws_entries doc) (\<lambda>sigs.
            verify_loop pr (jd_Payload doc) key opts ErrSignatureInvalid sigs))"

definition VerifyJSON :: "prims \<Rightarrow> bytes \<Rightarrow> gokey \<Rightarrow> (bytes \<times> header) res" where
  "VerifyJSON pr data key = VerifyJSONWithOptions pr data key default_VerifyOptions"

end
