(* ===== verification/KeyMgmt.thy ===== *)
theory KeyMgmt
  imports SigAlg KeyWrap Kdf ContentEnc
begin

text \<open>
  \<^verbatim>\<open>src/jwa_keymgmt.go\<close> and the key agreement of \<^verbatim>\<open>src/ecdh.go\<close>: how the content encryption
  key of a JWE is produced for a recipient and recovered. \<open>encryptKey\<close> returns the key, its
  encrypted form, the header with the algorithm's outputs added (the Go function writes them
  into the map it is given) and the rest of the random source.
\<close>

section \<open>The table\<close>

definition RSA1_5 :: string where "RSA1_5 = ''RSA1_5''"
definition RSA_OAEP :: string where "RSA_OAEP = ''RSA-OAEP''"
definition RSA_OAEP_256 :: string where "RSA_OAEP_256 = ''RSA-OAEP-256''"
definition A128KW :: string where "A128KW = ''A128KW''"
definition A192KW :: string where "A192KW = ''A192KW''"
definition A256KW :: string where "A256KW = ''A256KW''"
definition Dir :: string where "Dir = ''dir''"
definition ECDH_ES :: string where "ECDH_ES = ''ECDH-ES''"
definition ECDH_ES_A128KW :: string where "ECDH_ES_A128KW = ''ECDH-ES+A128KW''"
definition ECDH_ES_A192KW :: string where "ECDH_ES_A192KW = ''ECDH-ES+A192KW''"
definition ECDH_ES_A256KW :: string where "ECDH_ES_A256KW = ''ECDH-ES+A256KW''"
definition A128GCMKW :: string where "A128GCMKW = ''A128GCMKW''"
definition A192GCMKW :: string where "A192GCMKW = ''A192GCMKW''"
definition A256GCMKW :: string where "A256GCMKW = ''A256GCMKW''"
definition PBES2_HS256_A128KW :: string where "PBES2_HS256_A128KW = ''PBES2-HS256+A128KW''"
definition PBES2_HS384_A192KW :: string where "PBES2_HS384_A192KW = ''PBES2-HS384+A192KW''"
definition PBES2_HS512_A256KW :: string where "PBES2_HS512_A256KW = ''PBES2-HS512+A256KW''"

lemmas km_names = RSA1_5_def RSA_OAEP_def RSA_OAEP_256_def A128KW_def A192KW_def A256KW_def Dir_def
  ECDH_ES_def ECDH_ES_A128KW_def ECDH_ES_A192KW_def ECDH_ES_A256KW_def A128GCMKW_def A192GCMKW_def
  A256GCMKW_def PBES2_HS256_A128KW_def PBES2_HS384_A192KW_def PBES2_HS512_A256KW_def

record keyMgmt =
  km_name :: string
  km_kind :: string
  km_oaepHash :: "hash_fn option"
  km_wrapBits :: nat
  km_prf :: "hash_fn option"

definition mk_km :: "string \<Rightarrow> string \<Rightarrow> nat \<Rightarrow> keyMgmt" where
  "mk_km name kind bits =
     \<lparr>km_name = name, km_kind = kind, km_oaepHash = None, km_wrapBits = bits, km_prf = None\<rparr>"

definition keyMgmts :: "(string \<times> keyMgmt) list" where
  "keyMgmts =
     [(RSA1_5, mk_km RSA1_5 ''rsa'' 0),
      (RSA_OAEP, (mk_km RSA_OAEP ''rsa'' 0)\<lparr>km_oaepHash := Some SHA1\<rparr>),
      (RSA_OAEP_256, (mk_km RSA_OAEP_256 ''rsa'' 0)\<lparr>km_oaepHash := Some SHA256\<rparr>),
      (A128KW, mk_km A128KW ''kw'' 128),
      (A192KW, mk_km A192KW ''kw'' 192),
      (A256KW, mk_km A256KW ''kw'' 256),
      (Dir, mk_km Dir ''dir'' 0),
      (ECDH_ES, mk_km ECDH_ES ''ecdh'' 0),
      (ECDH_ES_A128KW, mk_km ECDH_ES_A128KW ''ecdh'' 128),
      (ECDH_ES_A192KW, mk_km ECDH_ES_A192KW ''ecdh'' 192),
      (ECDH_ES_A256KW, mk_km ECDH_ES_A256KW ''ecdh'' 256),
      (A128GCMKW, mk_km A128GCMKW ''gcmkw'' 128),
      (A192GCMKW, mk_km A192GCMKW ''gcmkw'' 192),
      (A256GCMKW, mk_km A256GCMKW ''gcmkw'' 256),
      (PBES2_HS256_A128KW, (mk_km PBES2_HS256_A128KW ''pbes2'' 128)\<lparr>km_prf := Some SHA256\<rparr>),
      (PBES2_HS384_A192KW, (mk_km PBES2_HS384_A192KW ''pbes2'' 192)\<lparr>km_prf := Some SHA384\<rparr>),
      (PBES2_HS512_A256KW, (mk_km PBES2_HS512_A256KW ''pbes2'' 256)\<lparr>km_prf := Some SHA512\<rparr>)]"

definition KeyManagementAlgorithms :: "string list" where
  "KeyManagementAlgorithms = sort (map fst keyMgmts)"

definition lookupKeyMgmt :: "string \<Rightarrow> keyMgmt res" where
  "lookupKeyMgmt alg =
     (case map_of keyMgmts alg of None \<Rightarrow> Inl ErrUnsupportedAlgorithm | Some km \<Rightarrow> Inr km)"

definition wrapKeySize :: "keyMgmt \<Rightarrow> nat" where
  "wrapKeySize km = km_wrapBits km div 8"

definition newCEK :: "nat \<Rightarrow> entropy \<Rightarrow> bytes \<times> entropy" where
  "newCEK n w = rand_read n w"

definition derivesCEK :: "keyMgmt \<Rightarrow> bool" where
  "derivesCEK km \<longleftrightarrow> km_kind km = ''dir'' \<or> (km_kind km = ''ecdh'' \<and> km_wrapBits km = 0)"

section \<open>Keys and header parameters\<close>

definition symmetricKey :: "gokey \<Rightarrow> nat \<Rightarrow> bytes res" where
  "symmetricKey key n =
     (case key of
        KBytes b \<Rightarrow> if length b \<noteq> n then Inl ErrInvalidKey else Inr b
      | _ \<Rightarrow> Inl ErrInvalidKeyType)"

definition passwordKey :: "gokey \<Rightarrow> bytes res" where
  "passwordKey key =
     (case key of
        KBytes k \<Rightarrow> if length k = 0 then Inl ErrInvalidKey else Inr k
      | KString k \<Rightarrow> if k = [] then Inl ErrInvalidKey else Inr (bytes_of_string k)
      | _ \<Rightarrow> Inl ErrInvalidKeyType)"

definition headerBytes :: "header \<Rightarrow> string \<Rightarrow> bytes res" where
  "headerBytes h name =
     (case map_of h name of
        None \<Rightarrow> Inl ErrInvalidHeader
      | Some (GStr s) \<Rightarrow>
          (case DecodeSegment s of Inl _ \<Rightarrow> Inl ErrInvalidHeader | Inr b \<Rightarrow> Inr b)
      | Some _ \<Rightarrow> Inl ErrInvalidHeader)"

definition headerBytesOptional :: "header \<Rightarrow> string \<Rightarrow> bytes res" where
  "headerBytesOptional h name = (if map_of h name = None then Inr [] else headerBytes h name)"

text \<open>\<^verbatim>\<open>strconv.ParseInt(s, 10, 64)\<close>: an optional sign, digits, the range of an int64.\<close>

definition parse_int64 :: "string \<Rightarrow> int option" where
  "parse_int64 s =
     (let neg = (s \<noteq> [] \<and> hd s = CHR ''-'');
          d = (if s \<noteq> [] \<and> (hd s = CHR ''-'' \<or> hd s = CHR ''+'') then tl s else s);
          n = (if neg then - int (digits_value d) else int (digits_value d))
      in if d = [] \<or> \<not> list_all is_digit d \<or> n < - (2 ^ 63) \<or> n > 2 ^ 63 - 1 then None else Some n)"

definition headerInt :: "gval \<Rightarrow> int res" where
  "headerInt raw =
     (case raw of
        GFloat v \<Rightarrow>
          (case f64_int v of
             None \<Rightarrow> Inl ErrInvalidHeader
           | Some n \<Rightarrow> if n < - (2 ^ 31) \<or> n > 2 ^ 31 - 1 then Inl ErrInvalidHeader else Inr n)
      | GInt v \<Rightarrow> Inr v
      | GInt64 v \<Rightarrow> Inr v
      | GNumber s \<Rightarrow> (case parse_int64 s of None \<Rightarrow> Inl ErrInvalidHeader | Some n \<Rightarrow> Inr n)
      | _ \<Rightarrow> Inl ErrInvalidHeader)"

section \<open>AES-GCM key wrapping\<close>

definition aesGCMWrap :: "bytes \<Rightarrow> bytes \<Rightarrow> entropy \<Rightarrow> ((bytes \<times> bytes \<times> bytes) \<times> entropy) res" where
  "aesGCMWrap kek cek w =
     (if \<not> aes_key_ok kek then Inl ErrInvalidKey
      else
        let (iv, w') = rand_read 12 w;
            (wrapped, tag) = gcm_seal kek iv cek []
        in Inr ((iv, wrapped, tag), w'))"

definition aesGCMUnwrap :: "bytes \<Rightarrow> bytes \<Rightarrow> bytes \<Rightarrow> bytes \<Rightarrow> bytes res" where
  "aesGCMUnwrap kek iv wrapped tag =
     (if \<not> aes_key_ok kek then Inl ErrInvalidKey
      else if length iv \<noteq> 12 \<or> length tag \<noteq> 16 then Inl ErrDecryptFailed
      else case gcm_open kek iv wrapped tag [] of
          None \<Rightarrow> Inl ErrDecryptFailed
        | Some out \<Rightarrow> Inr out)"

section \<open>ECDH-ES\<close>

definition ecdhAlgID :: "keyMgmt \<Rightarrow> contentEnc \<Rightarrow> string \<times> nat" where
  "ecdhAlgID km ce =
     (if km_wrapBits km = 0 then (ce_name ce, ce_keySize ce) else (km_name km, wrapKeySize km))"

definition ecdhDerive :: "prims \<Rightarrow> ecdh_priv \<Rightarrow> ecdh_pub \<Rightarrow> string \<Rightarrow> bytes \<Rightarrow> bytes \<Rightarrow> nat \<Rightarrow> bytes res" where
  "ecdhDerive pr priv pub algID apu apv keyLen =
     (if ecdh_Curve (ecdh_Public priv) \<noteq> ecdh_Curve pub then Inl ErrInvalidKey
      else case p_ecdh_shared pr (ecdh_Curve pub) (ecdh_Scalar priv) (ecdh_Bytes pub) of
          None \<Rightarrow> Inl ErrInvalidKey
        | Some z \<Rightarrow> ConcatKDF z algID apu apv (int keyLen))"

definition ecdhGenerate :: "prims \<Rightarrow> ecdh_pub \<Rightarrow> entropy \<Rightarrow> (ecdh_priv \<times> entropy) res" where
  "ecdhGenerate pr pub w =
     (case p_ecdh_generate pr (ecdh_Curve pub) w of
        None \<Rightarrow> Inl ErrInvalidKey
      | Some (d, w') \<Rightarrow>
          Inr (\<lparr>ecdh_Scalar = d,
                ecdh_Public = \<lparr>ecdh_Curve = ecdh_Curve pub, ecdh_Bytes = p_ecdh_public pr (ecdh_Curve pub) d\<rparr>\<rparr>,
               w'))"

definition encryptKeyECDH :: "prims \<Rightarrow> keyMgmt \<Rightarrow> contentEnc \<Rightarrow> gokey \<Rightarrow> header \<Rightarrow> bytes \<Rightarrow> entropy \<Rightarrow>
    ((bytes \<times> bytes \<times> header) \<times> entropy) res" where
  "encryptKeyECDH pr km ce key h cek w =
     rbind (asECDHPublic key) (\<lambda>pub.
     rbind (ecdhGenerate pr pub w) (\<lambda>(eph, w').
     rbind (FromKey (KEcdhPub (ecdh_Public eph))) (\<lambda>epk.
     rbind (case epk of None \<Rightarrow> Inl Panic | Some j \<Rightarrow> jwkToMap j) (\<lambda>epkMap.
       let h' = map_put ''epk'' (GMap epkMap) h;
           (algID, keyLen) = ecdhAlgID km ce
       in rbind (headerBytesOptional h' ''apu'') (\<lambda>apu.
          rbind (headerBytesOptional h' ''apv'') (\<lambda>apv.
          rbind (ecdhDerive pr eph pub algID apu apv keyLen) (\<lambda>agreed.
            if km_wrapBits km = 0 then Inr ((agreed, [], h'), w')
            else rbind (AESKeyWrap agreed cek) (\<lambda>encryptedKey. Inr ((cek, encryptedKey, h'), w')))))))))"

definition epk_public :: "gokey \<Rightarrow> ecdh_pub res" where
  "epk_public k =
     (case k of
        KEcdhPub p \<Rightarrow> Inr p
      | KEcPub p \<Rightarrow> ecdsaToECDHPublic p
      | _ \<Rightarrow> Inl ErrInvalidHeader)"

definition decryptKeyECDH :: "prims \<Rightarrow> keyMgmt \<Rightarrow> contentEnc \<Rightarrow> gokey \<Rightarrow> header \<Rightarrow> bytes \<Rightarrow> bytes res" where
  "decryptKeyECDH pr km ce key h encryptedKey =
     rbind (asECDHPrivate pr key) (\<lambda>priv.
       case map_of h ''epk'' of
         None \<Rightarrow> Inl ErrInvalidHeader
       | Some raw \<Rightarrow>
           (case json_marshal raw of
              None \<Rightarrow> Inl ErrInvalidHeader
            | Some epkJSON \<Rightarrow>
                rbind (ParseJWK pr (bytes_of_string epkJSON)) (\<lambda>epk.
                  if IsPrivate epk then Inl ErrInvalidHeader
                  else
                    rbind (Key pr epk) (\<lambda>epkKey.
                    rbind (epk_public epkKey) (\<lambda>pub.
                    rbind (headerBytesOptional h ''apu'') (\<lambda>apu.
                    rbind (headerBytesOptional h ''apv'') (\<lambda>apv.
                      let (algID, keyLen) = ecdhAlgID km ce
                      in rbind (ecdhDerive pr priv pub algID apu apv keyLen) (\<lambda>agreed.
                           if km_wrapBits km = 0 then
                             if length encryptedKey \<noteq> 0 then Inl ErrMalformed else Inr agreed
                           else AESKeyUnwrap agreed encryptedKey))))))))"

section \<open>PBES2\<close>

definition pbes2_derive :: "keyMgmt \<Rightarrow> bytes \<Rightarrow> bytes \<Rightarrow> int \<Rightarrow> bytes res" where
  "pbes2_derive km password salt count =
     (case km_prf km of
        None \<Rightarrow> Inl Panic
      | Some h \<Rightarrow> PBKDF2 password (pbes2SaltInput (km_name km) salt) count (int (wrapKeySize km)) h)"

definition encryptKeyPBES2 :: "keyMgmt \<Rightarrow> gokey \<Rightarrow> header \<Rightarrow> bytes \<Rightarrow> entropy \<Rightarrow>
    ((bytes \<times> bytes \<times> header) \<times> entropy) res" where
  "encryptKeyPBES2 km key h cek w =
     rbind (passwordKey key) (\<lambda>password.
     rbind (case map_of h ''p2c'' of None \<Rightarrow> Inr DefaultPBES2Count | Some raw \<Rightarrow> headerInt raw) (\<lambda>count.
       if count < MinPBES2Count \<or> count > MaxPBES2Count then Inl ErrIterationCount
       else
         rbind (if map_of h ''p2s'' \<noteq> None
                then rbind (headerBytes h ''p2s'') (\<lambda>salt. Inr (salt, w))
                else Inr (rand_read 16 w)) (\<lambda>(salt, w').
           if length salt < 8 \<or> length salt > MaxPBES2SaltInput then Inl ErrInvalidHeader
           else
             let h' = map_put ''p2c'' (GInt count) (map_put ''p2s'' (GStr (EncodeSegment salt)) h)
             in rbind (pbes2_derive km password salt count) (\<lambda>kek.
                rbind (AESKeyWrap kek cek) (\<lambda>encryptedKey. Inr ((cek, encryptedKey, h'), w'))))))"

definition decryptKeyPBES2 :: "keyMgmt \<Rightarrow> gokey \<Rightarrow> header \<Rightarrow> bytes \<Rightarrow> bytes res" where
  "decryptKeyPBES2 km key h encryptedKey =
     rbind (passwordKey key) (\<lambda>password.
       case map_of h ''p2c'' of
         None \<Rightarrow> Inl ErrInvalidHeader
       | Some raw \<Rightarrow>
           rbind (headerInt raw) (\<lambda>count.
             if count < MinPBES2Count \<or> count > MaxPBES2Count then Inl ErrIterationCount
             else
               rbind (headerBytes h ''p2s'') (\<lambda>salt.
                 if length salt < 8 \<or> length salt > MaxPBES2SaltInput then Inl ErrInvalidHeader
                 else
                   rbind (pbes2_derive km password salt count) (\<lambda>kek. AESKeyUnwrap kek encryptedKey))))"

section \<open>The two entry points\<close>

definition rsa_encrypt_key :: "prims \<Rightarrow> keyMgmt \<Rightarrow> rsa_pub \<Rightarrow> bytes \<Rightarrow> entropy \<Rightarrow> (bytes \<times> entropy) res" where
  "rsa_encrypt_key pr km pub cek w =
     (case (case km_oaepHash km of
              None \<Rightarrow> p_rsa_encrypt_pkcs1 pr pub cek w
            | Some h \<Rightarrow> p_rsa_encrypt_oaep pr h pub cek w) of
        None \<Rightarrow> Inl ExternalError
      | Some r \<Rightarrow> Inr r)"

definition encryptKey :: "prims \<Rightarrow> keyMgmt \<Rightarrow> contentEnc \<Rightarrow> gokey \<Rightarrow> header \<Rightarrow> bytes option \<Rightarrow> entropy \<Rightarrow>
    ((bytes \<times> bytes \<times> header) \<times> entropy) res" where
  "encryptKey pr km ce key h cek w =
     (if cek \<noteq> None \<and> derivesCEK km then Inl ErrUnsupportedAlgorithm
      else
        let (c, w) = (case cek of
                        Some c \<Rightarrow> (c, w)
                      | None \<Rightarrow> if derivesCEK km then ([], w) else newCEK (ce_keySize ce) w)
        in if km_kind km = ''rsa'' then
             rbind (rsaPublic key) (\<lambda>pub.
             rbind (rsa_encrypt_key pr km pub c w) (\<lambda>(encryptedKey, w'). Inr ((c, encryptedKey, h), w')))
           else if km_kind km = ''kw'' then
             rbind (symmetricKey key (wrapKeySize km)) (\<lambda>kek.
             rbind (AESKeyWrap kek c) (\<lambda>encryptedKey. Inr ((c, encryptedKey, h), w)))
           else if km_kind km = ''dir'' then
             rbind (symmetricKey key (ce_keySize ce)) (\<lambda>derived. Inr ((derived, [], h), w))
           else if km_kind km = ''ecdh'' then encryptKeyECDH pr km ce key h c w
           else if km_kind km = ''gcmkw'' then
             rbind (symmetricKey key (wrapKeySize km)) (\<lambda>kek.
             rbind (aesGCMWrap kek c w) (\<lambda>((iv, wrapped, tag), w').
               Inr ((c, wrapped,
                 map_put ''tag'' (GStr (EncodeSegment tag)) (map_put ''iv'' (GStr (EncodeSegment iv)) h)), w')))
           else if km_kind km = ''pbes2'' then encryptKeyPBES2 km key h c w
           else Inl ErrUnsupportedAlgorithm)"

definition rsa_decrypt_key :: "prims \<Rightarrow> keyMgmt \<Rightarrow> contentEnc \<Rightarrow> rsa_priv \<Rightarrow> bytes \<Rightarrow> bytes res" where
  "rsa_decrypt_key pr km ce priv encryptedKey =
     (case (case km_oaepHash km of
              None \<Rightarrow> DecryptPKCS1v15SessionKey pr priv encryptedKey (replicate (ce_keySize ce) 0)
            | Some h \<Rightarrow> p_rsa_decrypt_oaep pr h priv encryptedKey) of
        None \<Rightarrow> Inl ErrDecryptFailed
      | Some cek \<Rightarrow> Inr cek)"

definition decryptKey :: "prims \<Rightarrow> keyMgmt \<Rightarrow> contentEnc \<Rightarrow> gokey \<Rightarrow> header \<Rightarrow> bytes \<Rightarrow> bytes res" where
  "decryptKey pr km ce key h encryptedKey =
     (if km_kind km = ''rsa'' then
        (case key of
           KRsaPriv priv \<Rightarrow> rsa_decrypt_key pr km ce priv encryptedKey
         | _ \<Rightarrow> Inl ErrInvalidKeyType)
      else if km_kind km = ''kw'' then
        rbind (symmetricKey key (wrapKeySize km)) (\<lambda>kek. AESKeyUnwrap kek encryptedKey)
      else if km_kind km = ''dir'' then
        if length encryptedKey \<noteq> 0 then Inl ErrMalformed else symmetricKey key (ce_keySize ce)
      else if km_kind km = ''ecdh'' then decryptKeyECDH pr km ce key h encryptedKey
      else if km_kind km = ''gcmkw'' then
        rbind (symmetricKey key (wrapKeySize km)) (\<lambda>kek.
        rbind (headerBytes h ''iv'') (\<lambda>iv.
        rbind (headerBytes h ''tag'') (\<lambda>tag. aesGCMUnwrap kek iv encryptedKey tag)))
      else if km_kind km = ''pbes2'' then decryptKeyPBES2 km key h encryptedKey
      else Inl ErrUnsupportedAlgorithm)"

end
