(* ===== verification/Jwe.thy ===== *)
theory Jwe
  imports KeyMgmt Jws
begin

text \<open>
  \<^verbatim>\<open>src/jwe.go\<close>, with \<^verbatim>\<open>decryptOne\<close>, \<^verbatim>\<open>maybeInflate\<close> and \<^verbatim>\<open>decodeOptionalSegment\<close> of
  \<^verbatim>\<open>src/jwe_json.go\<close>: the compact serialization of JWE. DEFLATE itself is a primitive; the
  bound on what it may expand to is the code's, with the wrap-around of its 64-bit limit.
\<close>

section \<open>Options\<close>

record EncryptOptions =
  eo_Algorithm :: string
  eo_Encryption :: string
  eo_KeyID :: string
  eo_Header :: header
  eo_AdditionalHeaders :: header
  eo_Unprotected :: header
  eo_AAD :: bytes
  eo_Compress :: bool

record DecryptOptions =
  do_Algorithms :: "string list"
  do_Encryptions :: "string list"
  do_KnownCritical :: "string list"
  do_MaxDecompressed :: int

definition MaxDecompressedSize :: int where
  "MaxDecompressedSize = 16 * 2 ^ 20"

section \<open>Compression\<close>

text \<open>\<^verbatim>\<open>int64(limit)+1\<close> wraps; a reader limited to no octets or fewer is at its end.\<close>

definition inflate :: "prims \<Rightarrow> bytes \<Rightarrow> int \<Rightarrow> bytes res" where
  "inflate pr b limit =
     (let n = sint (word_of_int limit + 1 :: u64);
          (out, ok) = (if n \<le> 0 then ([], True) else p_flate_read pr b (nat n))
      in if \<not> ok then Inl ErrMalformed
         else if int (length out) > limit then Inl ErrCompressionLimit
         else Inr out)"

definition maybeInflate :: "prims \<Rightarrow> header \<Rightarrow> bytes \<Rightarrow> DecryptOptions \<Rightarrow> bytes res" where
  "maybeInflate pr h body opts =
     (case map_of h ''zip'' of
        None \<Rightarrow> Inr body
      | Some (GStr name) \<Rightarrow>
          if name \<noteq> ''DEF'' then Inl ErrInvalidHeader
          else
            let limit = (if do_MaxDecompressed opts \<le> 0 then MaxDecompressedSize else do_MaxDecompressed opts)
            in inflate pr body limit
      | Some _ \<Rightarrow> Inl ErrInvalidHeader)"

definition zip_body :: "prims \<Rightarrow> header \<Rightarrow> bytes \<Rightarrow> bytes res" where
  "zip_body pr h plaintext =
     (let zip = header_String h ''zip''
      in if zip = [] then Inr plaintext
         else if zip \<noteq> ''DEF'' then Inl ErrInvalidHeader
         else Inr (p_deflate pr plaintext))"

section \<open>Encryption\<close>

fun defaultKeyMgmtAlg :: "gokey \<Rightarrow> string res" where
  "defaultKeyMgmtAlg (KRsaPub _) = Inr RSA_OAEP_256"
| "defaultKeyMgmtAlg (KRsaPriv _) = Inr RSA_OAEP_256"
| "defaultKeyMgmtAlg (KEcPub _) = Inr ECDH_ES"
| "defaultKeyMgmtAlg (KEcPriv _) = Inr ECDH_ES"
| "defaultKeyMgmtAlg (KEcdhPub _) = Inr ECDH_ES"
| "defaultKeyMgmtAlg (KEcdhPriv _) = Inr ECDH_ES"
| "defaultKeyMgmtAlg (KBytes k) =
     (if length k = 16 then Inr A128KW
      else if length k = 24 then Inr A192KW
      else if length k = 32 then Inr A256KW
      else Inl ErrInvalidKey)"
| "defaultKeyMgmtAlg _ = Inl ErrInvalidKeyType"

text \<open>The algorithm: stated, or the JWK's own when it is one of this table, or by key type.\<close>

definition encrypt_alg :: "string \<Rightarrow> gokey \<Rightarrow> gokey \<Rightarrow> string res" where
  "encrypt_alg alg key resolved =
     (if alg \<noteq> [] then Inr alg
      else case jwk_of key of
          Some jwk \<Rightarrow>
            if jwk_Alg jwk \<noteq> [] \<and> map_of keyMgmts (jwk_Alg jwk) \<noteq> None then Inr (jwk_Alg jwk)
            else defaultKeyMgmtAlg resolved
        | None \<Rightarrow> defaultKeyMgmtAlg resolved)"

definition encName_or_default :: "string \<Rightarrow> string" where
  "encName_or_default enc = (if enc = [] then A256GCM else enc)"

definition encrypt_header :: "gokey \<Rightarrow> EncryptOptions \<Rightarrow> string \<Rightarrow> string \<Rightarrow> header" where
  "encrypt_header key opts alg encName =
     (let h = copyHeader [eo_Header opts, eo_AdditionalHeaders opts];
          h = map_put ''enc'' (GStr encName) (map_put ''alg'' (GStr alg) h);
          h = (if eo_KeyID opts \<noteq> [] then map_put ''kid'' (GStr (eo_KeyID opts)) h
               else case jwk_of key of
                   Some jwk \<Rightarrow>
                     if jwk_Kid jwk \<noteq> [] \<and> map_of h ''kid'' = None
                     then map_put ''kid'' (GStr (jwk_Kid jwk)) h else h
                 | None \<Rightarrow> h)
      in if eo_Compress opts then map_put ''zip'' (GStr ''DEF'') h else h)"

definition enc_ops :: "string list" where
  "enc_ops = [''encrypt'', ''wrapKey'', ''deriveKey'']"

definition Encrypt :: "prims \<Rightarrow> bytes \<Rightarrow> gokey \<Rightarrow> EncryptOptions \<Rightarrow> entropy \<Rightarrow> (string \<times> entropy) res" where
  "Encrypt pr plaintext key opts w =
     (if length (eo_Unprotected opts) > 0 then Inl ErrInvalidHeader
      else if length (eo_AAD opts) > 0 then Inl ErrInvalidHeader
      else
        rbind (resolveKey pr key (eo_KeyID opts)) (\<lambda>resolved.
        rbind (encrypt_alg (eo_Algorithm opts) key resolved) (\<lambda>alg.
        rbind (lookupKeyMgmt alg) (\<lambda>km.
          let encName = encName_or_default (eo_Encryption opts)
          in rbind (lookupEnc encName) (\<lambda>ce.
             rbind (checkJWKUsage key (eo_KeyID opts) UseEnc [alg, encName] enc_ops) (\<lambda>_.
               let h = encrypt_header key opts alg encName
               in rbind (checkCriticalProduced h) (\<lambda>_.
                  rbind (encryptKey pr km ce resolved h None w) (\<lambda>((cek, encryptedKey, h'), w').
                  rbind (zip_body pr h' plaintext) (\<lambda>body.
                  rbind (encodeHeader h') (\<lambda>protectedB64.
                  rbind (encrypt ce cek body (bytes_of_string protectedB64) w') (\<lambda>((iv, ciphertext, tag), w'').
                    Inr (protectedB64 @ ''.'' @ EncodeSegment encryptedKey @ ''.'' @ EncodeSegment iv @ ''.'' @
                           EncodeSegment ciphertext @ ''.'' @ EncodeSegment tag, w''))))))))))))"

section \<open>Decryption\<close>

definition decodeOptionalSegment :: "string \<Rightarrow> bytes res" where
  "decodeOptionalSegment seg =
     (if seg = [] then Inr []
      else case DecodeSegment seg of Inl _ \<Rightarrow> Inl ErrMalformed | Inr b \<Rightarrow> Inr b)"

definition dec_ops :: "string list" where
  "dec_ops = [''decrypt'', ''unwrapKey'', ''deriveKey'']"

definition decryptOne :: "prims \<Rightarrow> header \<Rightarrow> bytes \<Rightarrow> bytes \<Rightarrow> bytes \<Rightarrow> bytes \<Rightarrow> bytes \<Rightarrow> gokey \<Rightarrow>
    DecryptOptions \<Rightarrow> bytes res" where
  "decryptOne pr h encryptedKey iv ciphertext tag aad key opts =
     (let alg = Algorithm h; encName = Encryption h
      in if alg = [] then Inl ErrInvalidHeader
         else if length (do_Algorithms opts) > 0 \<and> \<not> containsString (do_Algorithms opts) alg
         then Inl ErrDecryptFailed
         else if encName = [] then Inl ErrInvalidHeader
         else if length (do_Encryptions opts) > 0 \<and> \<not> containsString (do_Encryptions opts) encName
         then Inl ErrDecryptFailed
         else
           rbind (lookupKeyMgmt alg) (\<lambda>km.
           rbind (lookupEnc encName) (\<lambda>ce.
           rbind (checkJWKUsage key (KeyID h) UseEnc [alg, encName] dec_ops) (\<lambda>_.
           rbind (resolveKey pr key (KeyID h)) (\<lambda>resolved.
           rbind (decryptKey pr km ce resolved h encryptedKey) (\<lambda>cek.
             if length cek \<noteq> ce_keySize ce then Inl ErrDecryptFailed
             else
               rbind (decrypt ce cek iv ciphertext tag aad) (\<lambda>body.
                 maybeInflate pr h body opts)))))))"

definition DecryptWithOptions :: "prims \<Rightarrow> string \<Rightarrow> gokey \<Rightarrow> DecryptOptions \<Rightarrow> (bytes \<times> header) res" where
  "DecryptWithOptions pr token key opts =
     (case split_dots token of
        [p0, p1, p2, p3, p4] \<Rightarrow>
          rbind (decodeHeader p0) (\<lambda>protected.
          rbind (checkCritical protected (do_KnownCritical opts)) (\<lambda>_.
          rbind (decodeOptionalSegment p1) (\<lambda>encryptedKey.
          rbind (decodeOptionalSegment p2) (\<lambda>iv.
          rbind (decodeOptionalSegment p3) (\<lambda>ciphertext.
          rbind (decodeOptionalSegment p4) (\<lambda>tag.
          rbind (decryptOne pr protected encryptedKey iv ciphertext tag (bytes_of_string p0) key opts) (\<lambda>body.
            Inr (body, protected))))))))
      | _ \<Rightarrow> Inl ErrMalformed)"

definition default_DecryptOptions :: DecryptOptions where
  "default_DecryptOptions =
     \<lparr>do_Algorithms = [], do_Encryptions = [], do_KnownCritical = [], do_MaxDecompressed = 0\<rparr>"

definition Decrypt :: "prims \<Rightarrow> string \<Rightarrow> gokey \<Rightarrow> (bytes \<times> header) res" where
  "Decrypt pr token key = DecryptWithOptions pr token key default_DecryptOptions"

end
