(* ===== verification/JweJson.thy ===== *)
theory JweJson
  imports Jwe
begin

text \<open>
  \<^verbatim>\<open>src/jwe_json.go\<close>: the JSON serializations of JWE, with any number of recipients. The loop
  over the recipients threads the content encryption key, the protected header, the document
  so far and the random source; decryption tries the recipients in the order
  \<open>recipientOrder\<close> gives.
\<close>

section \<open>Data\<close>

record Recipient =
  rc_Key :: gokey
  rc_Algorithm :: string
  rc_KeyID :: string
  rc_Header :: header

record jweRecipient =
  jr_Header :: "header option"
  jr_EncryptedKey :: string

record jweJSON =
  je_Protected :: string
  je_Unprotected :: "header option"
  je_Recipients :: "jweRecipient list"
  je_AAD :: string
  je_IV :: string
  je_Ciphertext :: string
  je_Tag :: string
  je_Header :: "header option"
  je_EncryptedKey :: string

definition empty_jweRecipient :: jweRecipient where
  "empty_jweRecipient = \<lparr>jr_Header = None, jr_EncryptedKey = []\<rparr>"

definition empty_jweJSON :: jweJSON where
  "empty_jweJSON =
     \<lparr>je_Protected = [], je_Unprotected = None, je_Recipients = [], je_AAD = [], je_IV = [],
      je_Ciphertext = [], je_Tag = [], je_Header = None, je_EncryptedKey = []\<rparr>"

definition marshal_jweRecipient :: "jweRecipient \<Rightarrow> string option" where
  "marshal_jweRecipient r =
     map_option (\<lambda>h. marshal_object (h @ opt_member ''encrypted_key'' (jr_EncryptedKey r)))
       (opt_map_member ''header'' (jr_Header r))"

definition marshal_jweJSON :: "jweJSON \<Rightarrow> bytes res" where
  "marshal_jweJSON d =
     (case (opt_map_member ''unprotected'' (je_Unprotected d),
            those (map marshal_jweRecipient (je_Recipients d)),
            opt_map_member ''header'' (je_Header d)) of
        (Some un, Some rs, Some h) \<Rightarrow>
          Inr (bytes_of_string (marshal_object
            (opt_member ''protected'' (je_Protected d) @ un @
             (if rs = [] then [] else [(''recipients'', ''['' @ commas rs @ '']'')]) @
             opt_member ''aad'' (je_AAD d) @ opt_member ''iv'' (je_IV d) @
             [(''ciphertext'', json_quote (je_Ciphertext d))] @ opt_member ''tag'' (je_Tag d) @
             h @ opt_member ''encrypted_key'' (je_EncryptedKey d))))
      | _ \<Rightarrow> Inl ExternalError)"

definition jweRecipient_set :: "jweRecipient \<Rightarrow> string \<Rightarrow> json \<Rightarrow> jweRecipient option" where
  "jweRecipient_set r n v =
     (if n = ''header'' then map_option (\<lambda>x. r\<lparr>jr_Header := x\<rparr>) (dec_map (jr_Header r) v)
      else map_option (\<lambda>x. r\<lparr>jr_EncryptedKey := x\<rparr>) (dec_string (jr_EncryptedKey r) v))"

definition jweJSON_set :: "jweJSON \<Rightarrow> string \<Rightarrow> json \<Rightarrow> jweJSON option" where
  "jweJSON_set d n v =
     (if n = ''protected'' then map_option (\<lambda>x. d\<lparr>je_Protected := x\<rparr>) (dec_string (je_Protected d) v)
      else if n = ''unprotected'' then map_option (\<lambda>x. d\<lparr>je_Unprotected := x\<rparr>) (dec_map (je_Unprotected d) v)
      else if n = ''recipients'' then
        map_option (\<lambda>x. d\<lparr>je_Recipients := x\<rparr>)
          (dec_slice (dec_struct jweRecipient_set [''header'', ''encrypted_key''])
             empty_jweRecipient (je_Recipients d) v)
      else if n = ''aad'' then map_option (\<lambda>x. d\<lparr>je_AAD := x\<rparr>) (dec_string (je_AAD d) v)
      else if n = ''iv'' then map_option (\<lambda>x. d\<lparr>je_IV := x\<rparr>) (dec_string (je_IV d) v)
      else if n = ''ciphertext'' then map_option (\<lambda>x. d\<lparr>je_Ciphertext := x\<rparr>) (dec_string (je_Ciphertext d) v)
      else if n = ''tag'' then map_option (\<lambda>x. d\<lparr>je_Tag := x\<rparr>) (dec_string (je_Tag d) v)
      else if n = ''header'' then map_option (\<lambda>x. d\<lparr>je_Header := x\<rparr>) (dec_map (je_Header d) v)
      else map_option (\<lambda>x. d\<lparr>je_EncryptedKey := x\<rparr>) (dec_string (je_EncryptedKey d) v))"

definition unmarshal_jweJSON :: "bytes \<Rightarrow> jweJSON option" where
  "unmarshal_jweJSON data =
     (case json_parse (string_of_bytes data) of
        None \<Rightarrow> None
      | Some v \<Rightarrow>
          dec_struct jweJSON_set
            [''protected'', ''unprotected'', ''recipients'', ''aad'', ''iv'', ''ciphertext'', ''tag'',
             ''header'', ''encrypted_key''] empty_jweJSON v)"

definition jweAAD :: "string \<Rightarrow> string \<Rightarrow> bytes" where
  "jweAAD protectedB64 aadB64 =
     (if aadB64 = [] then bytes_of_string protectedB64
      else bytes_of_string (protectedB64 @ ''.'' @ aadB64))"

section \<open>Encryption\<close>

text \<open>The header of one recipient before the key operation.\<close>

definition recipient_header :: "Recipient \<Rightarrow> header \<Rightarrow> string \<Rightarrow> header" where
  "recipient_header r protected alg =
     (let rh = map_put ''alg'' (GStr alg) (copyHeader [rc_Header r])
      in if rc_KeyID r \<noteq> [] then map_put ''kid'' (GStr (rc_KeyID r)) rh
         else case jwk_of (rc_Key r) of
             Some jwk \<Rightarrow>
               if jwk_Kid jwk \<noteq> [] \<and> map_of rh ''kid'' = None \<and> map_of protected ''kid'' = None
               then map_put ''kid'' (GStr (jwk_Kid jwk)) rh else rh
           | None \<Rightarrow> rh)"

text \<open>A single recipient: the protected parameters are folded in first.\<close>

definition fold_protected :: "header \<Rightarrow> header \<Rightarrow> header res" where
  "fold_protected rh protected =
     rfoldl (\<lambda>rh (k, v).
         if map_of rh k \<noteq> None then (if k \<noteq> ''kid'' then Inl ErrInvalidHeader else Inr rh)
         else Inr (map_put k v rh)) rh protected"

definition encrypt_recipient :: "prims \<Rightarrow> contentEnc \<Rightarrow> string \<Rightarrow> nat \<Rightarrow>
    (bytes option \<times> header \<times> jweRecipient list) \<times> entropy \<Rightarrow> Recipient \<Rightarrow>
    ((bytes option \<times> header \<times> jweRecipient list) \<times> entropy) res" where
  "encrypt_recipient pr ce encName n st r =
     (case st of ((cek, protected, out), w) \<Rightarrow>
        rbind (resolveKey pr (rc_Key r) (rc_KeyID r)) (\<lambda>resolved.
        rbind (encrypt_alg (rc_Algorithm r) (rc_Key r) resolved) (\<lambda>alg.
        rbind (lookupKeyMgmt alg) (\<lambda>km.
        rbind (checkJWKUsage (rc_Key r) (rc_KeyID r) UseEnc [alg, encName] enc_ops) (\<lambda>_.
          if derivesCEK km \<and> n > 1 then Inl ErrUnsupportedAlgorithm
          else
            rbind (if n = 1 then fold_protected (recipient_header r protected alg) protected
                   else Inr (recipient_header r protected alg)) (\<lambda>rh.
            rbind (encryptKey pr km ce resolved rh cek w) (\<lambda>((newCek, encryptedKey, rh'), w').
              if n = 1 then
                Inr ((Some newCek, rh',
                  out @ [\<lparr>jr_Header = None, jr_EncryptedKey = EncodeSegment encryptedKey\<rparr>]), w')
              else
                Inr ((Some newCek, protected,
                  out @ [\<lparr>jr_Header = Some rh', jr_EncryptedKey = EncodeSegment encryptedKey\<rparr>]), w'))))))))"

definition check_recipient_headers :: "header \<Rightarrow> header \<Rightarrow> unit \<Rightarrow> jweRecipient \<Rightarrow> unit res" where
  "check_recipient_headers protected unprotected u r =
     rbind (mergeHeaders [protected, unprotected, hdr (jr_Header r)]) (\<lambda>_. Inr ())"

definition EncryptJSONMulti :: "prims \<Rightarrow> bytes \<Rightarrow> EncryptOptions \<Rightarrow> Recipient list \<Rightarrow> entropy \<Rightarrow>
    (bytes \<times> entropy) res" where
  "EncryptJSONMulti pr plaintext opts recipients w =
     (if length recipients = 0 then Inl ErrInvalidKey
      else if map_of (eo_Unprotected opts) ''zip'' \<noteq> None then Inl ErrInvalidHeader
      else if list_ex (\<lambda>r. map_of (rc_Header r) ''zip'' \<noteq> None) recipients then Inl ErrInvalidHeader
      else
        let encName = encName_or_default (eo_Encryption opts)
        in rbind (lookupEnc encName) (\<lambda>ce.
          let protected = map_put ''enc'' (GStr encName) (copyHeader [eo_Header opts, eo_AdditionalHeaders opts]);
              protected = (if eo_Compress opts then map_put ''zip'' (GStr ''DEF'') protected else protected);
              protected = (if eo_KeyID opts \<noteq> [] \<and> length recipients = 1
                           then map_put ''kid'' (GStr (eo_KeyID opts)) protected else protected);
              unprotected = copyHeaderOrNil (eo_Unprotected opts)
          in rbind (rfoldl (encrypt_recipient pr ce encName (length recipients)) ((None, protected, []), w) recipients)
               (\<lambda>((cek, protected, out), w').
             rbind (checkCriticalProduced protected) (\<lambda>_.
             rbind (rfoldl (check_recipient_headers protected (hdr unprotected)) () out) (\<lambda>_.
             rbind (zip_body pr protected plaintext) (\<lambda>body.
             rbind (encodeHeader protected) (\<lambda>protectedB64.
               let aadB64 = (if length (eo_AAD opts) > 0 then EncodeSegment (eo_AAD opts) else [])
               in rbind (encrypt ce (case cek of None \<Rightarrow> [] | Some c \<Rightarrow> c) body (jweAAD protectedB64 aadB64) w')
                    (\<lambda>((iv, ciphertext, tag), w'').
                  rbind (marshal_jweJSON
                    (empty_jweJSON\<lparr>je_Unprotected := unprotected, je_Recipients := out, je_Protected := protectedB64,
                       je_AAD := aadB64, je_IV := EncodeSegment iv, je_Ciphertext := EncodeSegment ciphertext,
                       je_Tag := EncodeSegment tag\<rparr>)) (\<lambda>doc. Inr (doc, w''))))))))))"

definition EncryptJSON :: "prims \<Rightarrow> bytes \<Rightarrow> gokey \<Rightarrow> EncryptOptions \<Rightarrow> entropy \<Rightarrow> (bytes \<times> entropy) res" where
  "EncryptJSON pr plaintext key opts w =
     EncryptJSONMulti pr plaintext opts
       [\<lparr>rc_Key = key, rc_Algorithm = eo_Algorithm opts, rc_KeyID = eo_KeyID opts, rc_Header = []\<rparr>] w"

section \<open>Decryption\<close>

text \<open>The last non-empty \<^verbatim>\<open>kid\<close> of the three headers.\<close>

definition effective_kid :: "header list \<Rightarrow> string" where
  "effective_kid hs = foldl (\<lambda>kid h. if KeyID h \<noteq> [] then KeyID h else kid) [] hs"

definition recipientOrder :: "jweRecipient list \<Rightarrow> header \<Rightarrow> header \<Rightarrow> gokey \<Rightarrow> nat list" where
  "recipientOrder recipients protected unprotected key =
     (let wantKid = (case jwk_of key of None \<Rightarrow> [] | Some k \<Rightarrow> jwk_Kid k)
      in if wantKid = [] then [0..<length recipients]
         else
           let matches = (\<lambda>i. effective_kid [protected, unprotected, hdr (jr_Header (recipients ! i))] = wantKid)
           in filter matches [0..<length recipients] @ filter (\<lambda>i. \<not> matches i) [0..<length recipients])"

text \<open>One turn of the loop over the recipients.\<close>

definition try_recipient :: "prims \<Rightarrow> header \<Rightarrow> header \<Rightarrow> bytes \<Rightarrow> bytes \<Rightarrow> bytes \<Rightarrow> bytes \<Rightarrow> gokey \<Rightarrow>
    DecryptOptions \<Rightarrow> jweRecipient \<Rightarrow> (bytes \<times> header) res" where
  "try_recipient pr protected unprotected iv ciphertext tag aad key opts r =
     (if map_of unprotected ''zip'' \<noteq> None then Inl ErrInvalidHeader
      else if map_of (hdr (jr_Header r)) ''zip'' \<noteq> None then Inl ErrInvalidHeader
      else
        rbind (mergeHeaders [protected, unprotected, hdr (jr_Header r)]) (\<lambda>merged.
        rbind (checkCritical protected (do_KnownCritical opts)) (\<lambda>_.
        rbind (decodeOptionalSegment (jr_EncryptedKey r)) (\<lambda>encryptedKey.
        rbind (decryptOne pr merged encryptedKey iv ciphertext tag aad key opts) (\<lambda>body.
          Inr (body, merged))))))"

fun try_loop :: "(jweRecipient \<Rightarrow> 'a res) \<Rightarrow> jerr \<Rightarrow> jweRecipient list \<Rightarrow> 'a res" where
  "try_loop f lastErr [] = Inl lastErr"
| "try_loop f lastErr (r # rs) =
     (case f r of
        Inl e \<Rightarrow> if e = Panic then Inl Panic else try_loop f e rs
      | Inr x \<Rightarrow> Inr x)"

definition jwe_recipients :: "jweJSON \<Rightarrow> jweRecipient list res" where
  "jwe_recipients doc =
     (if length (je_Recipients doc) = 0
      then Inr [\<lparr>jr_Header = je_Header doc, jr_EncryptedKey = je_EncryptedKey doc\<rparr>]
      else if je_Header doc \<noteq> None \<or> je_EncryptedKey doc \<noteq> [] then Inl ErrMalformed
      else Inr (je_Recipients doc))"

definition DecryptJSONWithOptions :: "prims \<Rightarrow> bytes \<Rightarrow> gokey \<Rightarrow> DecryptOptions \<Rightarrow> (bytes \<times> header) res" where
  "DecryptJSONWithOptions pr data key opts =
     (case unmarshal_jweJSON data of
        None \<Rightarrow> Inl ErrMalformed
      | Some doc \<Rightarrow>
          rbind (jwe_recipients doc) (\<lambda>recipients.
          rbind (if je_Protected doc \<noteq> [] then decodeHeader (je_Protected doc) else Inr []) (\<lambda>protected.
          rbind (decodeOptionalSegment (je_IV doc)) (\<lambda>iv.
          rbind (decodeOptionalSegment (je_Ciphertext doc)) (\<lambda>ciphertext.
          rbind (decodeOptionalSegment (je_Tag doc)) (\<lambda>tag.
          rbind (if je_AAD doc \<noteq> [] then decodeOptionalSegment (je_AAD doc) else Inr []) (\<lambda>_.
            let aad = jweAAD (je_Protected doc) (je_AAD doc);
                unprotected = hdr (je_Unprotected doc);
                order = recipientOrder recipients protected unprotected key
            in try_loop (try_recipient pr protected unprotected iv ciphertext tag aad key opts)
                 ErrDecryptFailed (map ((!) recipients) order))))))))"

definition DecryptJSON :: "prims \<Rightarrow> bytes \<Rightarrow> gokey \<Rightarrow> (bytes \<times> header) res" where
  "DecryptJSON pr data key = DecryptJSONWithOptions pr data key default_DecryptOptions"

end
