(* ===== verification/JwsFacts.thy ===== *)
theory JwsFacts
  imports Jws
begin

text \<open>
  What signing and verification guarantee: a verified token is exactly what the key signed, the
  algorithm and the key type fit, and what \<open>Sign\<close> emits \<open>Verify\<close> accepts.
\<close>

section \<open>The compact serialization\<close>

lemma split_dots_not_Nil [simp]: "split_dots s \<noteq> []"
  by (induction s) (auto split: list.splits)

lemma split_dots_plain: "CHR ''.'' \<notin> set a \<Longrightarrow> split_dots a = [a]"
  by (induction a) auto

lemma split_dots_append: "CHR ''.'' \<notin> set a \<Longrightarrow> split_dots (a @ CHR ''.'' # s) = a # split_dots s"
  by (induction a) auto

lemma split_dots_inv:
  "split_dots t = p # ps \<Longrightarrow>
     CHR ''.'' \<notin> set p \<and>
     (if ps = [] then t = p else \<exists>t'. t = p @ CHR ''.'' # t' \<and> split_dots t' = ps)"
proof (induction t arbitrary: p)
  case Nil
  then show ?case by simp
next
  case (Cons c t)
  show ?case
  proof (cases "c = CHR ''.''")
    case True
    with Cons.prems show ?thesis by auto
  next
    case False
    then obtain q where "split_dots t = q # ps" "p = c # q"
      using Cons.prems by (auto split: list.splits)
    with Cons.IH False show ?thesis by (auto split: if_splits)
  qed
qed

lemma split_dots_3:
  "split_dots t = [p0, p1, p2] \<longleftrightarrow>
     t = p0 @ ''.'' @ p1 @ ''.'' @ p2 \<and>
     CHR ''.'' \<notin> set p0 \<and> CHR ''.'' \<notin> set p1 \<and> CHR ''.'' \<notin> set p2"
proof
  assume s: "split_dots t = [p0, p1, p2]"
  from split_dots_inv [OF this] obtain t1 where 1: "t = p0 @ CHR ''.'' # t1" "split_dots t1 = [p1, p2]"
    "CHR ''.'' \<notin> set p0" by auto
  from split_dots_inv [OF 1(2)] obtain t2 where 2: "t1 = p1 @ CHR ''.'' # t2" "split_dots t2 = [p2]"
    "CHR ''.'' \<notin> set p1" by auto
  from split_dots_inv [OF 2(2)] have "t2 = p2" "CHR ''.'' \<notin> set p2" by auto
  with 1 2 show "t = p0 @ ''.'' @ p1 @ ''.'' @ p2 \<and>
     CHR ''.'' \<notin> set p0 \<and> CHR ''.'' \<notin> set p1 \<and> CHR ''.'' \<notin> set p2" by simp
qed (auto simp: split_dots_append split_dots_plain)

section \<open>The primitives\<close>

lemma lookupSigAlg_cases:
  assumes "lookupSigAlg alg = Inr a"
  shows "alg \<noteq> NoneAlg \<and> sa_name a = alg \<and>
    (sa_kind a = ''eddsa'' \<and> sa_hash a = None \<or>
     (\<exists>h. sa_hash a = Some h \<and> sa_kind a \<in> {''hmac'', ''pkcs1'', ''pss'', ''ecdsa''})) \<and>
    (sa_kind a = ''ecdsa'' \<longrightarrow> (sa_crv a, sa_coord a) \<in> {(''P-256'', 32), (''P-384'', 48), (''P-521'', 66)})"
  using assms
  by (auto simp: lookupSigAlg_def sigAlgs_def mk_sig_def split: if_splits option.splits)

text \<open>The key that checks the signatures of a signing key, with the law of its primitive.\<close>

definition sig_pair :: "prims \<Rightarrow> gokey \<Rightarrow> gokey \<Rightarrow> bool" where
  "sig_pair pr key vkey \<longleftrightarrow>
     (case key of
        KBytes s \<Rightarrow> vkey = KBytes s
      | KRsaPriv p \<Rightarrow> rsa_sig_law pr p \<and> (vkey = KRsaPub (rsa_PublicKey p) \<or> vkey = KRsaPriv p)
      | KEcPriv p \<Rightarrow> ecdsa_sig_law pr p \<and> (vkey = KEcPub (ec_PublicKey p) \<or> vkey = KEcPriv p)
      | KEdPriv p \<Rightarrow> ed25519_sig_law pr p \<and> (vkey = KEdPub (drop 32 p) \<or> vkey = KEdPriv p)
      | _ \<Rightarrow> False)"

lemma verify_sign:
  assumes a: "lookupSigAlg alg = Inr a" and k: "sig_pair pr key vkey"
    and s: "sign pr a input key w = Inr (sig, w')"
  shows "verify pr a input sig vkey = Inr () \<and> sig \<noteq> []"
proof -
  note c = lookupSigAlg_cases [OF a]
  consider (hmac) "sa_kind a = ''hmac''" | (pkcs1) "sa_kind a = ''pkcs1''" | (pss) "sa_kind a = ''pss''"
    | (ecdsa) "sa_kind a = ''ecdsa''" | (eddsa) "sa_kind a = ''eddsa''"
    using c by auto
  then show ?thesis
  proof cases
    case hmac
    with c obtain h where h: "sa_hash a = Some h" by auto
    from hmac s obtain secret where key: "key = KBytes secret" "secret \<noteq> []"
      by (auto simp: sign_def split: gokey.splits if_splits)
    have "length (hmac h secret input) \<noteq> 0" using hash_size_pos [of h] by simp
    with hmac s key k h show ?thesis
      by (auto simp: sign_def verify_def sa_mac_def sig_pair_def sig_ok_def)
  next
    case pkcs1
    from pkcs1 c obtain h where h: "sa_hash a = Some h" by auto
    from pkcs1 s h obtain p where key: "key = KRsaPriv p"
      "p_rsa_sign_pkcs1 pr p h (hash_sum h input) w = Some (sig, w')"
      by (auto simp: sign_def sa_digest_def of_prim_def split: gokey.splits option.splits)
    have "rsa_sig_law pr p" using k by (simp add: sig_pair_def key(1))
    then have "sig \<noteq> [] \<and> p_rsa_verify_pkcs1 pr (rsa_PublicKey p) h (hash_sum h input) sig"
      using key(2) unfolding rsa_sig_law_def by blast
    with pkcs1 h key k show ?thesis
      by (auto simp: verify_def sig_pair_def sa_digest_def sig_ok_def)
  next
    case pss
    from pss c obtain h where h: "sa_hash a = Some h" by auto
    from pss s h obtain p where key: "key = KRsaPriv p"
      "p_rsa_sign_pss pr p h (hash_sum h input) w = Some (sig, w')"
      by (auto simp: sign_def sa_digest_def of_prim_def split: gokey.splits option.splits)
    have "rsa_sig_law pr p" using k by (simp add: sig_pair_def key(1))
    then have "sig \<noteq> [] \<and> p_rsa_verify_pss pr (rsa_PublicKey p) h (hash_sum h input) sig"
      using key(2) unfolding rsa_sig_law_def by blast
    with pss h key k show ?thesis
      by (auto simp: verify_def sig_pair_def sa_digest_def sig_ok_def)
  next
    case ecdsa
    from ecdsa s obtain priv where key: "key = KEcPriv priv" "curve_is (ec_Curve (ec_PublicKey priv)) (sa_crv a)"
      by (auto simp: sign_def split: gokey.splits if_splits)
    from ecdsa c obtain h where h: "sa_hash a = Some h" by auto
    let ?d = "hash_sum h input"
    from ecdsa s key h obtain r t where sg: "p_ecdsa_sign pr priv ?d w = Some ((r, t), w')"
      "padBig r (sa_coord a) = Inr (be_bytes (sa_coord a) r)" "padBig t (sa_coord a) = Inr (be_bytes (sa_coord a) t)"
      "sig = be_bytes (sa_coord a) r @ be_bytes (sa_coord a) t"
      "r < 256 ^ sa_coord a" "t < 256 ^ sa_coord a"
      by (auto simp: sign_def sa_digest_def of_prim_def rbind_Inr_iff padBig_def split: option.splits if_splits)
    have v: "p_ecdsa_verify pr (ec_PublicKey priv) ?d r t"
      using k key sg(1) unfolding sig_pair_def ecdsa_sig_law_def by fastforce
    have "0 < sa_coord a" using ecdsa c by auto
    then have "sig \<noteq> []" by (metis sg(4) Nil_is_append_conv length_be_bytes list.size(3) less_numeral_extra(3))
    moreover have "verify pr a input sig vkey = Inr ()"
      using ecdsa k key h v sg by (auto simp: verify_def sig_pair_def sa_digest_def sig_ok_def be_nat_be_bytes)
    ultimately show ?thesis by simp
  next
    case eddsa
    from eddsa s obtain priv where key: "key = KEdPriv priv" "length priv = 64" "sig = p_ed25519_sign pr priv input"
      by (auto simp: sign_def split: gokey.splits if_splits)
    have "ed25519_Public priv = Inr (drop 32 priv)" using key by (simp add: ed25519_Public_def)
    with eddsa k key show ?thesis
      by (auto simp: verify_def sig_pair_def ed25519_sig_law_def sig_ok_def)
  qed
qed

text \<open>The key types each family of algorithms accepts.\<close>

lemma verify_key_type:
  assumes "lookupSigAlg alg = Inr a" "verify pr a input sig key = Inr ()"
  shows "sa_kind a = ''hmac'' \<and> (\<exists>s h. key = KBytes s \<and> s \<noteq> [] \<and> sa_hash a = Some h \<and> sig = hmac h s input) \<or>
     sa_kind a \<in> {''pkcs1'', ''pss''} \<and> (\<exists>k. key = KRsaPub k \<or> (\<exists>p. key = KRsaPriv p)) \<or>
     sa_kind a = ''ecdsa'' \<and> (\<exists>k. ecdsaPublicOf key = Inr k \<and> curve_is (ec_Curve k) (sa_crv a)) \<or>
     sa_kind a = ''eddsa'' \<and> (\<exists>k. ed25519PublicOf key = Inr k \<and> length k = 32)"
  using assms(2) lookupSigAlg_cases [OF assms(1)]
  by (cases key)
    (auto simp: verify_def sa_mac_def sig_ok_def rbind_Inr_iff split: if_splits option.splits)

section \<open>Signing\<close>

lemma sign_header_wf [simp]: "map_wf (sign_header key opts alg)"
  by (simp add: sign_header_def sign_kid_def Let_def split: option.splits)

lemma rbind_InrE [elim!]: "rbind m f = Inr y \<Longrightarrow> (\<And>x. m = Inr x \<Longrightarrow> f x = Inr y \<Longrightarrow> P) \<Longrightarrow> P"
  by (auto simp: rbind_Inr_iff)

lemma signOne_steps:
  assumes "signOne pr payload key opts w = Inr ((pb, sb, ep), w')"
  obtains resolved alg a b64 sig protected where
    "resolveKey pr key (so_KeyID opts) = Inr resolved"
    "sign_alg key resolved opts = Inr alg" "lookupSigAlg alg = Inr a"
    "checkJWKUsage key (so_KeyID opts) UseSig [alg] [''sign''] = Inr ()"
    "protected = sign_header key opts alg" "map_of (so_Unprotected opts) ''b64'' = None"
    "sign_b64 opts protected = Inr b64" "\<exists>m. mergeHeaders [protected, so_Unprotected opts] = Inr m"
    "checkCriticalProduced protected = Inr ()" "encodeHeader protected = Inr pb"
    "sign_payload b64 payload = Inr ep"
    "sign pr a (signingInput pb ep) resolved w = Inr (sig, w')" "sb = EncodeSegment sig"
  using assms
  by (auto simp: signOne_def Let_def rbind_Inr_iff split: if_splits prod.splits)

lemma map_of_sign_header_alg: "map_of (sign_header key opts alg) ''alg'' = Some (GStr alg)"
  by (simp add: sign_header_def sign_kid_def Let_def split: option.splits)

lemma Algorithm_sign_header [simp]: "Algorithm (sign_header key opts alg) = alg"
  by (simp add: Algorithm_def header_String_def map_of_sign_header_alg)

section \<open>What a verified signature promises\<close>

text \<open>
  The specification of verification, with no order of checks: the payload, the segment it was
  sent as (or the detached payload in its place), and the conditions on header, key and
  signature.
\<close>

definition payload_segment :: "header \<Rightarrow> bytes \<Rightarrow> string option" where
  "payload_segment protected payload =
     (case map_of protected ''b64'' of
        None \<Rightarrow> Some (EncodeSegment payload)
      | Some (GBool True) \<Rightarrow> Some (EncodeSegment payload)
      | Some (GBool False) \<Rightarrow>
          (case Critical protected of
             Some crit \<Rightarrow> if ''b64'' \<in> set crit then Some (string_of_bytes payload) else None
           | None \<Rightarrow> None)
      | Some _ \<Rightarrow> None)"

definition jws_accepted :: "prims \<Rightarrow> string \<Rightarrow> header \<Rightarrow> header \<Rightarrow> string \<Rightarrow> string \<Rightarrow> gokey \<Rightarrow>
    VerifyOptions \<Rightarrow> bytes \<Rightarrow> bool" where
  "jws_accepted pr p0 protected unprotected p1 p2 key opts payload \<longleftrightarrow>
     (\<exists>merged a resolved sig seg.
        mergeHeaders [protected, unprotected] = Inr merged \<and>
        Algorithm merged \<noteq> [] \<and> lookupSigAlg (Algorithm merged) = Inr a \<and>
        (vo_Algorithms opts = [] \<or> Algorithm merged \<in> set (vo_Algorithms opts)) \<and>
        checkCritical protected (''b64'' # vo_KnownCritical opts) = Inr () \<and>
        map_of unprotected ''b64'' = None \<and>
        checkJWKUsage key (KeyID merged) UseSig [Algorithm merged] [''verify''] = Inr () \<and>
        resolveKey pr key (KeyID merged) = Inr resolved \<and>
        payload_segment protected payload = Some seg \<and> payload \<noteq> [] \<and>
        (p1 = seg \<or> p1 = [] \<and> vo_DetachedPayload opts = payload) \<and>
        p2 = EncodeSegment sig \<and> sig \<noteq> [] \<and>
        verify pr a (signingInput p0 seg) sig resolved = Inr ())"

lemma verify_b64_Inr:
  "verify_b64 protected = Inr b \<longleftrightarrow>
     (b \<and> (map_of protected ''b64'' = None \<or> map_of protected ''b64'' = Some (GBool True))) \<or>
     (\<not> b \<and> map_of protected ''b64'' = Some (GBool False) \<and>
        (\<exists>crit. Critical protected = Some crit \<and> ''b64'' \<in> set crit))"
  by (auto simp: verify_b64_def split: option.splits gval.splits if_splits)

lemma payload_segment_Some:
  "payload_segment protected payload = Some seg \<longleftrightarrow>
     (\<exists>b. verify_b64 protected = Inr b \<and>
        seg = (if b then EncodeSegment payload else string_of_bytes payload))"
  unfolding verify_b64_Inr
  by (auto simp: payload_segment_def split: option.splits gval.splits bool.splits if_splits)

text \<open>The payload step and the decoding that ends \<open>verifySignature\<close>, together.\<close>

definition final_payload :: "bool \<Rightarrow> string \<Rightarrow> bytes res" where
  "final_payload b64 seg =
     (if \<not> b64 then Inr (bytes_of_string seg)
      else case DecodeSegment seg of Inl _ \<Rightarrow> Inl ErrMalformed | Inr payload \<Rightarrow> Inr payload)"

lemma final_payload_Inr:
  "final_payload b seg = Inr payload \<longleftrightarrow>
     seg = (if b then EncodeSegment payload else string_of_bytes payload)"
  by (auto simp: final_payload_def segment.dec_iff Decode_EncodeSegment segment.enc_inj split: sum.splits)

lemma verify_payload_Inr:
  "verify_payload b p1 detached = Inr seg \<and> final_payload b seg = Inr payload \<longleftrightarrow>
     seg = (if b then EncodeSegment payload else string_of_bytes payload) \<and> payload \<noteq> [] \<and>
     (p1 = seg \<or> p1 = [] \<and> detached = payload)"
  unfolding final_payload_Inr
  by (auto simp: verify_payload_def segment.enc_inj eq_commute [of "[]"] split: if_splits)

lemma DecodeSegment_sig:
  "(sigSeg \<noteq> [] \<and> DecodeSegment sigSeg = Inr sig) \<longleftrightarrow> (sigSeg = EncodeSegment sig \<and> sig \<noteq> [])"
  by (auto simp: segment.dec_iff)

text \<open>The tail of \<open>verifySignature\<close>, after the algorithm checks.\<close>

definition check_signature :: "prims \<Rightarrow> sigAlg \<Rightarrow> string \<Rightarrow> string \<Rightarrow> string \<Rightarrow> gokey \<Rightarrow> bool \<Rightarrow> bytes res" where
  "check_signature pr a p0 seg sigSeg resolved b64 =
     (if sigSeg = [] then Inl ErrSignatureInvalid
      else case DecodeSegment sigSeg of
          Inl _ \<Rightarrow> Inl ErrMalformed
        | Inr sig \<Rightarrow>
            rbind (verify pr a (signingInput p0 seg) sig resolved) (\<lambda>_. final_payload b64 seg))"

lemma check_signature_Inr:
  "check_signature pr a p0 seg sigSeg resolved b = Inr payload \<longleftrightarrow>
     (\<exists>sig. sigSeg = EncodeSegment sig \<and> sig \<noteq> [] \<and>
        verify pr a (signingInput p0 seg) sig resolved = Inr () \<and> final_payload b seg = Inr payload)"
proof (cases "DecodeSegment sigSeg")
  case (Inl e)
  then have "sigSeg \<noteq> EncodeSegment sig" for sig by (auto simp: Decode_EncodeSegment)
  with Inl show ?thesis by (simp add: check_signature_def)
next
  case (Inr sig)
  then have "sigSeg = EncodeSegment sig" by (simp add: segment.dec_iff)
  then show ?thesis
    by (auto simp: check_signature_def rbind_Inr_iff Decode_EncodeSegment segment.enc_inj)
qed

lemma verifySignature_Inr:
  "verifySignature pr p0 protected unprotected p1 p2 key opts = Inr payload \<longleftrightarrow>
     (\<exists>merged b seg a resolved.
        mergeHeaders [protected, unprotected] = Inr merged \<and>
        Algorithm merged \<noteq> [] \<and> Algorithm merged \<noteq> NoneAlg \<and>
        (vo_Algorithms opts = [] \<or> Algorithm merged \<in> set (vo_Algorithms opts)) \<and>
        checkCritical protected (''b64'' # vo_KnownCritical opts) = Inr () \<and>
        map_of unprotected ''b64'' = None \<and> verify_b64 protected = Inr b \<and>
        verify_payload b p1 (vo_DetachedPayload opts) = Inr seg \<and>
        lookupSigAlg (Algorithm merged) = Inr a \<and>
        checkJWKUsage key (KeyID merged) UseSig [Algorithm merged] [''verify''] = Inr () \<and>
        resolveKey pr key (KeyID merged) = Inr resolved \<and>
        check_signature pr a p0 seg p2 resolved b = Inr payload)"
  unfolding verifySignature_def final_payload_def [symmetric] check_signature_def [symmetric]
  by (auto simp: Let_def rbind_Inr_iff)

lemma verifySignature_iff:
  "verifySignature pr p0 protected unprotected p1 p2 key opts = Inr payload \<longleftrightarrow>
     jws_accepted pr p0 protected unprotected p1 p2 key opts payload"
proof -
  have none: "lookupSigAlg alg = Inr a \<Longrightarrow> alg \<noteq> NoneAlg" for alg a
    using lookupSigAlg_cases by blast
  have pay: "(\<exists>b. verify_b64 protected = Inr b \<and> verify_payload b p1 d = Inr seg \<and>
        final_payload b seg = Inr payload) \<longleftrightarrow>
      payload_segment protected payload = Some seg \<and> payload \<noteq> [] \<and>
        (p1 = seg \<or> p1 = [] \<and> d = payload)" for d seg
    unfolding payload_segment_Some using verify_payload_Inr by blast
  show ?thesis
  proof
    assume "verifySignature pr p0 protected unprotected p1 p2 key opts = Inr payload"
    then obtain merged b seg a resolved sig where
      1: "mergeHeaders [protected, unprotected] = Inr merged" "Algorithm merged \<noteq> []"
        "lookupSigAlg (Algorithm merged) = Inr a"
        "vo_Algorithms opts = [] \<or> Algorithm merged \<in> set (vo_Algorithms opts)"
        "checkCritical protected (''b64'' # vo_KnownCritical opts) = Inr ()" "map_of unprotected ''b64'' = None"
        "checkJWKUsage key (KeyID merged) UseSig [Algorithm merged] [''verify''] = Inr ()"
        "resolveKey pr key (KeyID merged) = Inr resolved"
      and 2: "verify_b64 protected = Inr b" "verify_payload b p1 (vo_DetachedPayload opts) = Inr seg"
        "final_payload b seg = Inr payload"
      and 3: "p2 = EncodeSegment sig" "sig \<noteq> []" "verify pr a (signingInput p0 seg) sig resolved = Inr ()"
      unfolding verifySignature_Inr check_signature_Inr by (elim exE conjE)
    have "payload_segment protected payload = Some seg \<and> payload \<noteq> [] \<and>
        (p1 = seg \<or> p1 = [] \<and> vo_DetachedPayload opts = payload)"
      using 2 pay by blast
    with 1 3 show "jws_accepted pr p0 protected unprotected p1 p2 key opts payload"
      unfolding jws_accepted_def by (intro exI conjI) simp_all
  next
    assume "jws_accepted pr p0 protected unprotected p1 p2 key opts payload"
    then obtain merged a resolved sig seg where
      1: "mergeHeaders [protected, unprotected] = Inr merged" "Algorithm merged \<noteq> []"
        "vo_Algorithms opts = [] \<or> Algorithm merged \<in> set (vo_Algorithms opts)"
        "checkCritical protected (''b64'' # vo_KnownCritical opts) = Inr ()" "map_of unprotected ''b64'' = None"
        "lookupSigAlg (Algorithm merged) = Inr a"
        "checkJWKUsage key (KeyID merged) UseSig [Algorithm merged] [''verify''] = Inr ()"
        "resolveKey pr key (KeyID merged) = Inr resolved"
      and 2: "payload_segment protected payload = Some seg" "payload \<noteq> []"
        "p1 = seg \<or> p1 = [] \<and> vo_DetachedPayload opts = payload"
      and 3: "p2 = EncodeSegment sig" "sig \<noteq> []" "verify pr a (signingInput p0 seg) sig resolved = Inr ()"
      unfolding jws_accepted_def by (elim exE conjE)
    obtain b where "verify_b64 protected = Inr b" "verify_payload b p1 (vo_DetachedPayload opts) = Inr seg"
        "final_payload b seg = Inr payload"
      using 2 pay by blast
    with 1 3 none [OF 1(6)] show "verifySignature pr p0 protected unprotected p1 p2 key opts = Inr payload"
      unfolding verifySignature_Inr check_signature_Inr by (intro exI conjI)
  qed
qed

end
