(* ===== verification/Spec2Isabelle.thy ===== *)
theory Spec2Isabelle
  imports Base64 KeyWrap Kdf ContentEnc GoJson Header Jwk SigAlg Jws KeyMgmt Jwe JweJson JwsFacts
begin

text \<open>
  A verification library for the Go package \<^verbatim>\<open>jose\<close>.
\<close>

end
